theory Spec2Isabelle
  imports Complex_Main
begin

section \<open>The expression engine of kalkulusvisual\<close>

text \<open>
  The engine is two TypeScript classes: \<open>MathParser\<close> (with its private
  \<open>ExpressionParser\<close>) in \<open>client/src/lib/mathParser.ts\<close>, and \<open>MathCalculations\<close>
  in \<open>mathCalculations.ts\<close>. Every function below is the translation of the source
  function of the same name.

  A thrown \<open>Error\<close> is the left summand of a result type, a \<open>try\<close>/\<open>catch\<close> is a case
  distinction on that result. Strings are lists of code units below 256.
\<close>

subsection \<open>Numbers\<close>

text \<open>
  The values of the engine are JavaScript Numbers, and the operations on them
  (\<open>+\<close>, \<open>-\<close>, \<open>*\<close>, \<open>/\<close>, the comparisons, \<open>parseFloat\<close>, \<open>isFinite\<close>, \<open>toFixed\<close>, and
  the \<open>Math\<close> library) belong to the JavaScript runtime, not to the repository.
  The engine is therefore translated over an arbitrary number type \<open>'n\<close> and a record
  of the runtime's operations. A theorem stated for every such record holds for the
  IEEE 754 doubles of a JavaScript engine whatever their rounding does, and it
  keeps the order in which the source applies the operations.

  \<open>num_lit\<close> reads a numeric literal of the source text (\<open>0\<close>, \<open>0.0001\<close>, ...),
  \<open>num_of_nat\<close> is the Number that holds an integer loop counter or count,
  \<open>num_Infinity\<close> is the
  global \<open>Infinity\<close>. \<open>num_eq\<close> is \<open>===\<close>, \<open>num_lt\<close> is \<open><\<close>, \<open>num_le\<close> is \<open><=\<close> (so
  that \<open>a >= b\<close> is \<open>num_le b a\<close>).
\<close>

record 'n arith =
  num_add :: "'n \<Rightarrow> 'n \<Rightarrow> 'n"
  num_sub :: "'n \<Rightarrow> 'n \<Rightarrow> 'n"
  num_mul :: "'n \<Rightarrow> 'n \<Rightarrow> 'n"
  num_div :: "'n \<Rightarrow> 'n \<Rightarrow> 'n"
  num_neg :: "'n \<Rightarrow> 'n"
  num_eq :: "'n \<Rightarrow> 'n \<Rightarrow> bool"
  num_lt :: "'n \<Rightarrow> 'n \<Rightarrow> bool"
  num_le :: "'n \<Rightarrow> 'n \<Rightarrow> bool"
  num_lit :: "string \<Rightarrow> 'n"
  num_of_nat :: "nat \<Rightarrow> 'n"
  num_Infinity :: 'n
  parseFloat :: "string \<Rightarrow> 'n"
  isFinite :: "'n \<Rightarrow> bool"
  toFixed :: "'n \<Rightarrow> nat \<Rightarrow> string"
  Math_E :: 'n
  Math_PI :: 'n
  Math_pow :: "'n \<Rightarrow> 'n \<Rightarrow> 'n"
  Math_sin :: "'n \<Rightarrow> 'n"
  Math_cos :: "'n \<Rightarrow> 'n"
  Math_tan :: "'n \<Rightarrow> 'n"
  Math_log :: "'n \<Rightarrow> 'n"
  Math_log10 :: "'n \<Rightarrow> 'n"
  Math_sqrt :: "'n \<Rightarrow> 'n"
  Math_abs :: "'n \<Rightarrow> 'n"
  Math_exp :: "'n \<Rightarrow> 'n"
  Math_min :: "'n \<Rightarrow> 'n \<Rightarrow> 'n"

subsection \<open>Tokens and errors\<close>

datatype tokentype =
  NUMBER | VARIABLE | CONSTANT | OPERATOR | FUNCTION | LPAREN | RPAREN | EOF

record token =
  ttype :: tokentype
  tvalue :: string
  tpos :: nat

text \<open>
  One constructor for each \<open>throw new Error(...)\<close> of \<open>mathParser.ts\<close>, carrying what
  the message interpolates. \<open>TypeError\<close> is what reading \<open>.type\<close> of \<open>undefined\<close>
  raises, when \<open>this.tokens[this.current]\<close> is read past the end of the array.
  \<open>InvalidExpression\<close> is the wrapper of \<open>evaluate\<close>:
  \<open>Invalid expression: ${expression}. ${message}\<close>.
\<close>

datatype error =
    InvalidNumberFormat nat
  | UnknownIdentifier string nat
  | UnexpectedCharacter char nat
  | UnexpectedTokenAtPosition nat
  | DivisionByZero
  | UnexpectedUnaryOperator string
  | UnknownConstant string
  | ExpectedLParenAfterFunction string
  | ExpectedRParenAfterFunctionArgument
  | ExpectedRParenAfterExpression
  | UnexpectedToken string
  | UnexpectedTokenAt string nat
  | LnOfNonPositive
  | LogOfNonPositive
  | SqrtOfNegative
  | UnknownFunction string
  | TypeError
  | InvalidExpression string error

subsection \<open>\<open>MathParser.tokenize\<close>\<close>

definition FUNCTIONS :: "string list" where
  "FUNCTIONS = [''sin'', ''cos'', ''tan'', ''ln'', ''log'', ''sqrt'', ''abs'', ''exp'']"

definition CONSTANTS :: "string list" where
  "CONSTANTS = [''e'', ''pi'']"

definition OPERATORS :: "char list" where
  "OPERATORS = ''+-*/^''"

text \<open>The character classes of the regular expressions \<open>\s\<close>, \<open>\d\<close> and \<open>[a-zA-Z]\<close>.\<close>

definition isSpace :: "char \<Rightarrow> bool" where
  "isSpace c \<longleftrightarrow> c \<in> set [CHR 0x09, CHR 0x0A, CHR 0x0B, CHR 0x0C, CHR 0x0D, CHR 0x20, CHR 0xA0]"

definition isDigit :: "char \<Rightarrow> bool" where
  "isDigit c \<longleftrightarrow> c \<in> set ''0123456789''"

definition isLetter :: "char \<Rightarrow> bool" where
  "isLetter c \<longleftrightarrow> c \<in> set ''abcdefghijklmnopqrstuvwxyzABCDEFGHIJKLMNOPQRSTUVWXYZ''"

definition isNumberChar :: "char \<Rightarrow> bool" where
  "isNumberChar c \<longleftrightarrow> isDigit c \<or> c = CHR ''.''"

text \<open>
  The outer \<open>while (i < expr.length)\<close> loop: \<open>i\<close> is the offset reached and the string
  is what is left of \<open>expr\<close> from there. The two inner loops collect the maximal run of
  number characters, or of letters.
\<close>

function tokenize_loop :: "nat \<Rightarrow> string \<Rightarrow> error + token list" where
  "tokenize_loop i [] = Inr [\<lparr>ttype = EOF, tvalue = [], tpos = i\<rparr>]"
| "tokenize_loop i (c # cs) =
     (if isNumberChar c then
        (let numStr = takeWhile isNumberChar (c # cs);
             i' = i + length numStr
         in if numStr = ''.'' then Inl (InvalidNumberFormat i')
            else (case tokenize_loop i' (dropWhile isNumberChar (c # cs)) of
                    Inl e \<Rightarrow> Inl e
                  | Inr tokens \<Rightarrow>
                      Inr (\<lparr>ttype = NUMBER, tvalue = numStr, tpos = i' - length numStr\<rparr> # tokens)))
      else if isLetter c then
        (let identifier = takeWhile isLetter (c # cs);
             i' = i + length identifier
         in if identifier = ''x'' then
              (case tokenize_loop i' (dropWhile isLetter (c # cs)) of
                 Inl e \<Rightarrow> Inl e
               | Inr tokens \<Rightarrow>
                   Inr (\<lparr>ttype = VARIABLE, tvalue = identifier, tpos = i' - length identifier\<rparr> # tokens))
            else if identifier \<in> set FUNCTIONS then
              (case tokenize_loop i' (dropWhile isLetter (c # cs)) of
                 Inl e \<Rightarrow> Inl e
               | Inr tokens \<Rightarrow>
                   Inr (\<lparr>ttype = FUNCTION, tvalue = identifier, tpos = i' - length identifier\<rparr> # tokens))
            else if identifier \<in> set CONSTANTS then
              (case tokenize_loop i' (dropWhile isLetter (c # cs)) of
                 Inl e \<Rightarrow> Inl e
               | Inr tokens \<Rightarrow>
                   Inr (\<lparr>ttype = CONSTANT, tvalue = identifier, tpos = i' - length identifier\<rparr> # tokens))
            else Inl (UnknownIdentifier identifier (i' - length identifier)))
      else if c \<in> set OPERATORS then
        (case tokenize_loop (i + 1) cs of
           Inl e \<Rightarrow> Inl e
         | Inr tokens \<Rightarrow> Inr (\<lparr>ttype = OPERATOR, tvalue = [c], tpos = i\<rparr> # tokens))
      else if c = CHR ''('' then
        (case tokenize_loop (i + 1) cs of
           Inl e \<Rightarrow> Inl e
         | Inr tokens \<Rightarrow> Inr (\<lparr>ttype = LPAREN, tvalue = [c], tpos = i\<rparr> # tokens))
      else if c = CHR '')'' then
        (case tokenize_loop (i + 1) cs of
           Inl e \<Rightarrow> Inl e
         | Inr tokens \<Rightarrow> Inr (\<lparr>ttype = RPAREN, tvalue = [c], tpos = i\<rparr> # tokens))
      else Inl (UnexpectedCharacter c i))"
  by pat_completeness auto
termination tokenize_loop
  by (relation "measure (\<lambda>(i, s). length s)")
     (auto simp: le_imp_less_Suc length_dropWhile_le)

definition tokenize :: "string \<Rightarrow> error + token list" where
  "tokenize expression = tokenize_loop 0 (filter (\<lambda>c. \<not> isSpace c) expression)"

subsection \<open>\<open>ExpressionParser\<close>\<close>

text \<open>
  The parser object holds the token array, the index \<open>current\<close> and \<open>x\<close>. The model
  passes \<open>x\<close> and the tokens from \<open>current\<close> on; a function returns the value and
  the tokens left. \<open>this.tokens[this.current - 1]\<close> after a successful \<open>match\<close> is the
  token that \<open>match\<close> returns, and \<open>this.current--\<close> (putting the token back) gives
  back the list from before the \<open>match\<close>.

  \<open>match\<close> is called with one type everywhere: \<open>check\<close> is false at the end marker
  (\<open>isAtEnd\<close>), and reading the current token of an empty array raises.
\<close>

fun isAtEnd :: "token list \<Rightarrow> error + bool" where
  "isAtEnd [] = Inl TypeError"
| "isAtEnd (t # ts) = Inr (ttype t = EOF)"

fun match :: "tokentype \<Rightarrow> token list \<Rightarrow> error + (token \<times> token list) option" where
  "match ty [] = Inl TypeError"
| "match ty (t # ts) =
     (if ttype t = EOF then Inr None
      else if ttype t = ty then Inr (Some (t, ts)) else Inr None)"

definition evaluateFunction :: "'n arith \<Rightarrow> string \<Rightarrow> 'n \<Rightarrow> error + 'n" where
  "evaluateFunction A functionName argument =
    (if functionName = ''sin'' then Inr (Math_sin A argument)
     else if functionName = ''cos'' then Inr (Math_cos A argument)
     else if functionName = ''tan'' then Inr (Math_tan A argument)
     else if functionName = ''ln'' then
       (if num_le A argument (num_lit A ''0'') then Inl LnOfNonPositive
        else Inr (Math_log A argument))
     else if functionName = ''log'' then
       (if num_le A argument (num_lit A ''0'') then Inl LogOfNonPositive
        else Inr (Math_log10 A argument))
     else if functionName = ''sqrt'' then
       (if num_lt A argument (num_lit A ''0'') then Inl SqrtOfNegative
        else Inr (Math_sqrt A argument))
     else if functionName = ''abs'' then Inr (Math_abs A argument)
     else if functionName = ''exp'' then Inr (Math_exp A argument)
     else Inl (UnknownFunction functionName))"

text \<open>
  The recursive descent. \<open>parseAddition_loop\<close> and \<open>parseMultiplication_loop\<close> are the
  \<open>while (this.match(TokenType.OPERATOR))\<close> loops, with the value of \<open>expr\<close> so far.
\<close>

function (sequential)
      parseExpression :: "'n arith \<Rightarrow> 'n \<Rightarrow> token list \<Rightarrow> error + ('n \<times> token list)"
  and parseAddition :: "'n arith \<Rightarrow> 'n \<Rightarrow> token list \<Rightarrow> error + ('n \<times> token list)"
  and parseAddition_loop :: "'n arith \<Rightarrow> 'n \<Rightarrow> 'n \<Rightarrow> token list \<Rightarrow> error + ('n \<times> token list)"
  and parseMultiplication :: "'n arith \<Rightarrow> 'n \<Rightarrow> token list \<Rightarrow> error + ('n \<times> token list)"
  and parseMultiplication_loop :: "'n arith \<Rightarrow> 'n \<Rightarrow> 'n \<Rightarrow> token list \<Rightarrow> error + ('n \<times> token list)"
  and parseExponentiation :: "'n arith \<Rightarrow> 'n \<Rightarrow> token list \<Rightarrow> error + ('n \<times> token list)"
  and parseUnary :: "'n arith \<Rightarrow> 'n \<Rightarrow> token list \<Rightarrow> error + ('n \<times> token list)"
  and parsePrimary :: "'n arith \<Rightarrow> 'n \<Rightarrow> token list \<Rightarrow> error + ('n \<times> token list)"
where
  "parseExpression A x ts = parseAddition A x ts"
| "parseAddition A x ts =
     (case parseMultiplication A x ts of
        Inl e \<Rightarrow> Inl e
      | Inr (expr, r) \<Rightarrow> parseAddition_loop A x expr r)"
| "parseAddition_loop A x expr ts =
     (case match OPERATOR ts of
        Inl e \<Rightarrow> Inl e
      | Inr None \<Rightarrow> Inr (expr, ts)
      | Inr (Some (t, r)) \<Rightarrow>
          if tvalue t = ''+'' \<or> tvalue t = ''-'' then
            (case parseMultiplication A x r of
               Inl e \<Rightarrow> Inl e
             | Inr (right, r') \<Rightarrow>
                 parseAddition_loop A x
                   (if tvalue t = ''+'' then num_add A expr right else num_sub A expr right) r')
          else Inr (expr, ts))"
| "parseMultiplication A x ts =
     (case parseExponentiation A x ts of
        Inl e \<Rightarrow> Inl e
      | Inr (expr, r) \<Rightarrow> parseMultiplication_loop A x expr r)"
| "parseMultiplication_loop A x expr ts =
     (case match OPERATOR ts of
        Inl e \<Rightarrow> Inl e
      | Inr None \<Rightarrow> Inr (expr, ts)
      | Inr (Some (t, r)) \<Rightarrow>
          if tvalue t = ''*'' \<or> tvalue t = ''/'' then
            (case parseExponentiation A x r of
               Inl e \<Rightarrow> Inl e
             | Inr (right, r') \<Rightarrow>
                 if tvalue t = ''/'' \<and> num_eq A right (num_lit A ''0'') then Inl DivisionByZero
                 else parseMultiplication_loop A x
                   (if tvalue t = ''*'' then num_mul A expr right else num_div A expr right) r')
          else Inr (expr, ts))"
| "parseExponentiation A x ts =
     (case parseUnary A x ts of
        Inl e \<Rightarrow> Inl e
      | Inr (expr, r) \<Rightarrow>
          (case match OPERATOR r of
             Inl e \<Rightarrow> Inl e
           | Inr None \<Rightarrow> Inr (expr, r)
           | Inr (Some (t, r')) \<Rightarrow>
               if tvalue t = ''^'' then
                 (case parseExponentiation A x r' of
                    Inl e \<Rightarrow> Inl e
                  | Inr (right, r'') \<Rightarrow> Inr (Math_pow A expr right, r''))
               else Inr (expr, r)))"
| "parseUnary A x ts =
     (case match OPERATOR ts of
        Inl e \<Rightarrow> Inl e
      | Inr (Some (t, r)) \<Rightarrow>
          if tvalue t = ''-'' then
            (case parseUnary A x r of
               Inl e \<Rightarrow> Inl e
             | Inr (v, r') \<Rightarrow> Inr (num_neg A v, r'))
          else if tvalue t = ''+'' then parseUnary A x r
          else Inl (UnexpectedUnaryOperator (tvalue t))
      | Inr None \<Rightarrow> parsePrimary A x ts)"
| "parsePrimary A x [] = Inl TypeError"
| "parsePrimary A x (t # r) =
     (if ttype t = NUMBER then Inr (parseFloat A (tvalue t), r)
      else if ttype t = VARIABLE then Inr (x, r)
      else if ttype t = CONSTANT then
        (if tvalue t = ''e'' then Inr (Math_E A, r)
         else if tvalue t = ''pi'' then Inr (Math_PI A, r)
         else Inl (UnknownConstant (tvalue t)))
      else if ttype t = FUNCTION then
        (case match LPAREN r of
           Inl e \<Rightarrow> Inl e
         | Inr None \<Rightarrow> Inl (ExpectedLParenAfterFunction (tvalue t))
         | Inr (Some (_, r1)) \<Rightarrow>
             (case parseExpression A x r1 of
                Inl e \<Rightarrow> Inl e
              | Inr (argument, r2) \<Rightarrow>
                  (case match RPAREN r2 of
                     Inl e \<Rightarrow> Inl e
                   | Inr None \<Rightarrow> Inl ExpectedRParenAfterFunctionArgument
                   | Inr (Some (_, r3)) \<Rightarrow>
                       (case evaluateFunction A (tvalue t) argument of
                          Inl e \<Rightarrow> Inl e
                        | Inr v \<Rightarrow> Inr (v, r3)))))
      else if ttype t = LPAREN then
        (case parseExpression A x r of
           Inl e \<Rightarrow> Inl e
         | Inr (expr, r2) \<Rightarrow>
             (case match RPAREN r2 of
                Inl e \<Rightarrow> Inl e
              | Inr None \<Rightarrow> Inl ExpectedRParenAfterExpression
              | Inr (Some (_, r3)) \<Rightarrow> Inr (expr, r3)))
      else if ttype t = NUMBER \<or> ttype t = VARIABLE then Inl (UnexpectedToken (tvalue t))
      else Inl (UnexpectedTokenAt (tvalue t) (tpos t)))"
  by pat_completeness auto

text \<open>
  Termination: no function returns more tokens than it was given, and every call
  that follows a \<open>match\<close> works on fewer.
\<close>

lemma match_Some_length: "match ty ts = Inr (Some p) \<Longrightarrow> length (snd p) < length ts"
  by (cases ts) (auto split: if_splits)

lemma parse_length_partial:
  "parseExpression_parseAddition_parseAddition_loop_parseMultiplication_parseMultiplication_loop_parseExponentiation_parseUnary_parsePrimary_dom (Inl (Inl (Inl (A, x, ts)))) \<Longrightarrow> parseExpression A x ts = Inr (v, r) \<Longrightarrow> length r \<le> length ts"
  "parseExpression_parseAddition_parseAddition_loop_parseMultiplication_parseMultiplication_loop_parseExponentiation_parseUnary_parsePrimary_dom (Inl (Inl (Inr (A, x, ts)))) \<Longrightarrow> parseAddition A x ts = Inr (v, r) \<Longrightarrow> length r \<le> length ts"
  "parseExpression_parseAddition_parseAddition_loop_parseMultiplication_parseMultiplication_loop_parseExponentiation_parseUnary_parsePrimary_dom (Inl (Inr (Inl (A, x, expr, ts)))) \<Longrightarrow> parseAddition_loop A x expr ts = Inr (v, r) \<Longrightarrow> length r \<le> length ts"
  "parseExpression_parseAddition_parseAddition_loop_parseMultiplication_parseMultiplication_loop_parseExponentiation_parseUnary_parsePrimary_dom (Inl (Inr (Inr (A, x, ts)))) \<Longrightarrow> parseMultiplication A x ts = Inr (v, r) \<Longrightarrow> length r \<le> length ts"
  "parseExpression_parseAddition_parseAddition_loop_parseMultiplication_parseMultiplication_loop_parseExponentiation_parseUnary_parsePrimary_dom (Inr (Inl (Inl (A, x, expr, ts)))) \<Longrightarrow> parseMultiplication_loop A x expr ts = Inr (v, r) \<Longrightarrow> length r \<le> length ts"
  "parseExpression_parseAddition_parseAddition_loop_parseMultiplication_parseMultiplication_loop_parseExponentiation_parseUnary_parsePrimary_dom (Inr (Inl (Inr (A, x, ts)))) \<Longrightarrow> parseExponentiation A x ts = Inr (v, r) \<Longrightarrow> length r \<le> length ts"
  "parseExpression_parseAddition_parseAddition_loop_parseMultiplication_parseMultiplication_loop_parseExponentiation_parseUnary_parsePrimary_dom (Inr (Inr (Inl (A, x, ts)))) \<Longrightarrow> parseUnary A x ts = Inr (v, r) \<Longrightarrow> length r \<le> length ts"
  "parseExpression_parseAddition_parseAddition_loop_parseMultiplication_parseMultiplication_loop_parseExponentiation_parseUnary_parsePrimary_dom (Inr (Inr (Inr (A, x, ts)))) \<Longrightarrow> parsePrimary A x ts = Inr (v, r) \<Longrightarrow> length r \<le> length ts"
proof (induct A x ts and A x ts and A x expr ts and A x ts and A x expr ts and A x ts and A x ts and A x ts
       arbitrary: v r and v r and v r and v r and v r and v r and v r and v r
       rule: parseExpression_parseAddition_parseAddition_loop_parseMultiplication_parseMultiplication_loop_parseExponentiation_parseUnary_parsePrimary.pinduct)
  case (1 A x ts)
  then show ?case by (simp add: parseExpression.psimps)
next
  case (2 A x ts)
  from "2.prems" obtain e r1 where a: "parseMultiplication A x ts = Inr (e, r1)"
    and b: "parseAddition_loop A x e r1 = Inr (v, r)"
    by (auto simp: parseAddition.psimps[OF "2.hyps"(1)] split: sum.splits prod.splits)
  have "length r1 \<le> length ts" using "2.hyps"(2)[OF a] .
  moreover have "length r \<le> length r1" using "2.hyps"(3)[OF a refl b] .
  ultimately show ?case by simp
next
  case (3 A x expr ts)
  note eq = "3.prems"[unfolded parseAddition_loop.psimps[OF "3.hyps"(1)]]
  show ?case
  proof (cases "match OPERATOR ts")
    case (Inl e)
    with eq show ?thesis by simp
  next
    case (Inr m)
    show ?thesis
    proof (cases m)
      case None
      with Inr eq show ?thesis by simp
    next
      case (Some p)
      obtain t r1 where p: "p = (t, r1)" by (cases p)
      have l1: "length r1 < length ts" using match_Some_length[of OPERATOR ts p] Inr Some p by simp
      show ?thesis
      proof (cases "tvalue t = ''+'' \<or> tvalue t = ''-''")
        case False
        with Inr Some p eq show ?thesis by auto
      next
        case True
        from eq Inr Some p True obtain right r2 where
          a: "parseMultiplication A x r1 = Inr (right, r2)" and
          b: "parseAddition_loop A x (if tvalue t = ''+'' then num_add A expr right else num_sub A expr right) r2 = Inr (v, r)"
          by (auto split: sum.splits prod.splits)
        have m: "match OPERATOR ts = Inr m" using Inr .
        have "length r2 \<le> length r1"
          using "3.hyps"(2)[OF m Some _ True a] p by simp
        moreover have "length r \<le> length r2"
          using "3.hyps"(3)[OF m Some _ True a refl b] p by simp
        ultimately show ?thesis using l1 by simp
      qed
    qed
  qed
next
  case (4 A x ts)
  from "4.prems" obtain e r1 where a: "parseExponentiation A x ts = Inr (e, r1)"
    and b: "parseMultiplication_loop A x e r1 = Inr (v, r)"
    by (auto simp: parseMultiplication.psimps[OF "4.hyps"(1)] split: sum.splits prod.splits)
  have "length r1 \<le> length ts" using "4.hyps"(2)[OF a] .
  moreover have "length r \<le> length r1" using "4.hyps"(3)[OF a refl b] .
  ultimately show ?case by simp
next
  case (5 A x expr ts)
  note eq = "5.prems"[unfolded parseMultiplication_loop.psimps[OF "5.hyps"(1)]]
  show ?case
  proof (cases "match OPERATOR ts")
    case (Inl e)
    with eq show ?thesis by simp
  next
    case (Inr m)
    show ?thesis
    proof (cases m)
      case None
      with Inr eq show ?thesis by simp
    next
      case (Some p)
      obtain t r1 where p: "p = (t, r1)" by (cases p)
      have l1: "length r1 < length ts" using match_Some_length[of OPERATOR ts p] Inr Some p by simp
      show ?thesis
      proof (cases "tvalue t = ''*'' \<or> tvalue t = ''/''")
        case False
        with Inr Some p eq show ?thesis by auto
      next
        case True
        from eq Inr Some p True obtain right r2 where
          a: "parseExponentiation A x r1 = Inr (right, r2)" and
          nz: "\<not> (tvalue t = ''/'' \<and> num_eq A right (num_lit A ''0''))" and
          b: "parseMultiplication_loop A x (if tvalue t = ''*'' then num_mul A expr right else num_div A expr right) r2 = Inr (v, r)"
          by (auto split: sum.splits prod.splits if_splits)
        have m: "match OPERATOR ts = Inr m" using Inr .
        have "length r2 \<le> length r1"
          using "5.hyps"(2)[OF m Some _ True a] p by simp
        moreover have "length r \<le> length r2"
          using "5.hyps"(3)[OF m Some _ True a refl nz b] p by simp
        ultimately show ?thesis using l1 by simp
      qed
    qed
  qed
next
  case (6 A x ts)
  note eq = "6.prems"[unfolded parseExponentiation.psimps[OF "6.hyps"(1)]]
  from eq obtain e r1 where a: "parseUnary A x ts = Inr (e, r1)"
    by (auto split: sum.splits prod.splits)
  have l1: "length r1 \<le> length ts" using "6.hyps"(2)[OF a] .
  show ?case
  proof (cases "match OPERATOR r1")
    case (Inl e')
    with eq a show ?thesis by simp
  next
    case (Inr m)
    show ?thesis
    proof (cases m)
      case None
      with Inr eq a l1 show ?thesis by simp
    next
      case (Some p)
      obtain t r2 where p: "p = (t, r2)" by (cases p)
      have l2: "length r2 < length r1" using match_Some_length[of OPERATOR r1 p] Inr Some p by simp
      show ?thesis
      proof (cases "tvalue t = ''^''")
        case False
        with Inr Some p eq a l1 show ?thesis by auto
      next
        case True
        from eq a Inr Some p True obtain right where
          b: "parseExponentiation A x r2 = Inr (right, r)"
          by (auto split: sum.splits prod.splits)
        have "length r \<le> length r2"
          using "6.hyps"(3)[OF a refl Inr Some _ True b] p by simp
        then show ?thesis using l1 l2 by simp
      qed
    qed
  qed
next
  case (7 A x ts)
  note eq = "7.prems"[unfolded parseUnary.psimps[OF "7.hyps"(1)]]
  show ?case
  proof (cases "match OPERATOR ts")
    case (Inl e)
    with eq show ?thesis by simp
  next
    case (Inr m)
    show ?thesis
    proof (cases m)
      case None
      with Inr eq have "parsePrimary A x ts = Inr (v, r)" by simp
      then show ?thesis using "7.hyps"(2)[OF Inr None] by simp
    next
      case (Some p)
      obtain t r1 where p: "p = (t, r1)" by (cases p)
      have l1: "length r1 < length ts" using match_Some_length[of OPERATOR ts p] Inr Some p by simp
      consider (minus) "tvalue t = ''-''" | (plus) "tvalue t \<noteq> ''-''" "tvalue t = ''+''"
        | (other) "tvalue t \<noteq> ''-''" "tvalue t \<noteq> ''+''" by blast
      then show ?thesis
      proof cases
        case minus
        from eq Inr Some p minus obtain w where b: "parseUnary A x r1 = Inr (w, r)"
          by (auto split: sum.splits prod.splits)
        have "length r \<le> length r1" using "7.hyps"(3)[OF Inr Some _ minus b] p by simp
        then show ?thesis using l1 by simp
      next
        case plus
        from eq Inr Some p plus have b: "parseUnary A x r1 = Inr (v, r)"
          by (auto split: sum.splits prod.splits)
        have "length r \<le> length r1" using "7.hyps"(4)[OF Inr Some _ plus b] p by simp
        then show ?thesis using l1 by simp
      next
        case other
        with eq Inr Some p show ?thesis by simp
      qed
    qed
  qed
next
  case (8 A x)
  then show ?case by (simp add: parsePrimary.psimps)
next
  case (9 A x t r0)
  note eq = "9.prems"[unfolded parsePrimary.psimps(2)[OF "9.hyps"(1)]]
  consider (num) "ttype t = NUMBER" | (var) "ttype t = VARIABLE" | (const) "ttype t = CONSTANT"
    | (func) "ttype t \<noteq> NUMBER" "ttype t \<noteq> VARIABLE" "ttype t \<noteq> CONSTANT" "ttype t = FUNCTION"
    | (paren) "ttype t \<noteq> NUMBER" "ttype t \<noteq> VARIABLE" "ttype t \<noteq> CONSTANT" "ttype t \<noteq> FUNCTION" "ttype t = LPAREN"
    | (other) "ttype t \<noteq> NUMBER" "ttype t \<noteq> VARIABLE" "ttype t \<noteq> CONSTANT" "ttype t \<noteq> FUNCTION" "ttype t \<noteq> LPAREN"
    by blast
  then show ?case
  proof cases
    case num
    with eq show ?thesis by auto
  next
    case var
    with eq show ?thesis by auto
  next
    case const
    with eq show ?thesis by (auto split: if_splits)
  next
    case func
    from eq func obtain p arg r2 q where
      m1: "match LPAREN r0 = Inr (Some p)" and
      a: "parseExpression A x (snd p) = Inr (arg, r2)" and
      m2: "match RPAREN r2 = Inr (Some q)" and
      rr: "r = snd q"
      by (auto split: sum.splits prod.splits option.splits)
    have "length (snd p) < length r0" using match_Some_length[OF m1] .
    moreover have "length r2 \<le> length (snd p)"
      using "9.hyps"(2)[OF func m1 refl _ a, of "fst p"] by simp
    moreover have "length (snd q) < length r2" using match_Some_length[OF m2] .
    ultimately show ?thesis using rr by simp
  next
    case paren
    from eq paren obtain e r2 q where
      a: "parseExpression A x r0 = Inr (e, r2)" and
      m2: "match RPAREN r2 = Inr (Some q)" and
      rr: "r = snd q"
      by (auto split: sum.splits prod.splits option.splits)
    have "length r2 \<le> length r0" using "9.hyps"(3)[OF paren a] .
    moreover have "length (snd q) < length r2" using match_Some_length[OF m2] .
    ultimately show ?thesis using rr by simp
  next
    case other
    with eq show ?thesis by (auto split: if_splits)
  qed
qed


termination parseExpression
apply (relation "measure (\<lambda>a. case a of
    Inl (Inl (Inl (A, x, ts))) \<Rightarrow> 8 * length ts + 7
  | Inl (Inl (Inr (A, x, ts))) \<Rightarrow> 8 * length ts + 6
  | Inl (Inr (Inl (A, x, expr, ts))) \<Rightarrow> 8 * length ts
  | Inl (Inr (Inr (A, x, ts))) \<Rightarrow> 8 * length ts + 5
  | Inr (Inl (Inl (A, x, expr, ts))) \<Rightarrow> 8 * length ts
  | Inr (Inl (Inr (A, x, ts))) \<Rightarrow> 8 * length ts + 4
  | Inr (Inr (Inl (A, x, ts))) \<Rightarrow> 8 * length ts + 3
  | Inr (Inr (Inr (A, x, ts))) \<Rightarrow> 8 * length ts + 2)")
  apply simp_all
  apply (auto dest!: match_Some_length dest: parse_length_partial)
  done

subsection \<open>\<open>MathParser.evaluate\<close>\<close>

definition evaluate :: "'n arith \<Rightarrow> string \<Rightarrow> 'n \<Rightarrow> error + 'n" where
  "evaluate A expression x =
     (case tokenize expression of
        Inl e \<Rightarrow> Inl (InvalidExpression expression e)
      | Inr tokens \<Rightarrow>
          (case parseExpression A x tokens of
             Inl e \<Rightarrow> Inl (InvalidExpression expression e)
           | Inr (result, rest) \<Rightarrow>
               (case isAtEnd rest of
                  Inl e \<Rightarrow> Inl (InvalidExpression expression e)
                | Inr False \<Rightarrow>
                    Inl (InvalidExpression expression (UnexpectedTokenAtPosition (tpos (hd rest))))
                | Inr True \<Rightarrow> Inr result)))"

subsection \<open>\<open>MathParser.generatePoints\<close>\<close>

text \<open>
  A \<open>for\<close> loop over an integer counter is a left fold over the list of the counter's
  values, \<open>points.push\<close> appends. The step count is a natural number.
\<close>

type_synonym 'n point = "'n \<times> 'n"

definition generatePoints :: "'n arith \<Rightarrow> string \<Rightarrow> 'n \<Rightarrow> 'n \<Rightarrow> nat \<Rightarrow> 'n point list" where
  "generatePoints A expression xMin xMax steps =
     (let stepSize = num_div A (num_sub A xMax xMin) (num_of_nat A steps)
      in foldl (\<lambda>points i.
                  let x = num_add A xMin (num_mul A (num_of_nat A i) stepSize)
                  in case evaluate A expression x of
                       Inl e \<Rightarrow> points
                     | Inr y \<Rightarrow> if isFinite A y then points @ [(x, y)] else points)
           [] [0..<Suc steps])"

definition isValidExpression :: "'n arith \<Rightarrow> string \<Rightarrow> bool" where
  "isValidExpression A expression =
     (case evaluate A expression (num_lit A ''1'') of Inl e \<Rightarrow> False | Inr y \<Rightarrow> True)"

subsection \<open>\<open>MathCalculations\<close>\<close>

record 'n CalculationResult =
  cr_value :: 'n
  cr_error :: "string option"

definition calculateDerivative :: "'n arith \<Rightarrow> string \<Rightarrow> 'n \<Rightarrow> 'n \<Rightarrow> 'n CalculationResult" where
  "calculateDerivative A expression x h =
     (case evaluate A expression (num_add A x h) of
        Inl e \<Rightarrow> \<lparr>cr_value = num_lit A ''0'', cr_error = Some ''Unable to calculate derivative''\<rparr>
      | Inr f_x_plus_h \<Rightarrow>
          (case evaluate A expression x of
             Inl e \<Rightarrow> \<lparr>cr_value = num_lit A ''0'', cr_error = Some ''Unable to calculate derivative''\<rparr>
           | Inr f_x \<Rightarrow>
               \<lparr>cr_value = num_div A (num_sub A f_x_plus_h f_x) h, cr_error = None\<rparr>))"

text \<open>The default value of the parameter \<open>h\<close>.\<close>

definition default_h :: "'n arith \<Rightarrow> 'n" where
  "default_h A = num_lit A ''0.0001''"

definition calculateDerivativePoints ::
    "'n arith \<Rightarrow> string \<Rightarrow> 'n \<Rightarrow> 'n \<Rightarrow> nat \<Rightarrow> 'n point list" where
  "calculateDerivativePoints A expression xMin xMax steps =
     (let stepSize = num_div A (num_sub A xMax xMin) (num_of_nat A steps)
      in foldl (\<lambda>points i.
                  let x = num_add A xMin (num_mul A (num_of_nat A i) stepSize);
                      result = calculateDerivative A expression x (default_h A)
                  in if cr_error result = None \<and> isFinite A (cr_value result)
                     then points @ [(x, cr_value result)] else points)
           [] [0..<Suc steps])"

text \<open>
  Simpson's rule. \<open>simpson_loop\<close> is the \<open>for (let i = 1; i < n; i++)\<close> loop over the
  counter values left, with the value of \<open>sum\<close> (here \<open>acc\<close>); an evaluation that throws leaves the
  loop for the \<open>catch\<close>.
\<close>

fun simpson_loop :: "'n arith \<Rightarrow> string \<Rightarrow> 'n \<Rightarrow> 'n \<Rightarrow> nat list \<Rightarrow> 'n \<Rightarrow> error + 'n" where
  "simpson_loop A expression a h [] acc = Inr acc"
| "simpson_loop A expression a h (i # rest) acc =
     (let x = num_add A a (num_mul A (num_of_nat A i) h);
          coefficient = (if i mod 2 = 0 then num_lit A ''2'' else num_lit A ''4'')
      in case evaluate A expression x of
           Inl e \<Rightarrow> Inl e
         | Inr y \<Rightarrow> simpson_loop A expression a h rest (num_add A acc (num_mul A coefficient y)))"

definition calculateDefiniteIntegral ::
    "'n arith \<Rightarrow> string \<Rightarrow> 'n \<Rightarrow> 'n \<Rightarrow> nat \<Rightarrow> 'n CalculationResult" where
  "calculateDefiniteIntegral A expression a b n0 =
     (let n = (if n0 mod 2 \<noteq> 0 then n0 + 1 else n0);
          h = num_div A (num_sub A b a) (num_of_nat A n);
          failed = \<lparr>cr_value = num_lit A ''0'', cr_error = Some ''Unable to calculate integral''\<rparr>
      in case evaluate A expression a of
           Inl e \<Rightarrow> failed
         | Inr fa \<Rightarrow>
             (case evaluate A expression b of
                Inl e \<Rightarrow> failed
              | Inr fb \<Rightarrow>
                  (case simpson_loop A expression a h [1..<n] (num_add A fa fb) of
                     Inl e \<Rightarrow> failed
                   | Inr acc \<Rightarrow>
                       \<lparr>cr_value = num_mul A (num_div A h (num_lit A ''3'')) acc,
                        cr_error = None\<rparr>)))"

record 'n rectangle =
  rect_x :: 'n
  rect_y :: 'n
  rect_width :: 'n
  rect_height :: 'n

record 'n RiemannSum =
  rs_value :: 'n
  rs_rectangles :: "'n rectangle list"

definition calculateRiemannSum :: "'n arith \<Rightarrow> string \<Rightarrow> 'n \<Rightarrow> 'n \<Rightarrow> nat \<Rightarrow> 'n RiemannSum" where
  "calculateRiemannSum A expression a b n =
     (let dx = num_div A (num_sub A b a) (num_of_nat A n)
      in foldl (\<lambda>acc i.
                  let x = num_add A a (num_mul A (num_of_nat A i) dx)
                  in case evaluate A expression (num_add A x (num_div A dx (num_lit A ''2''))) of
                       Inl e \<Rightarrow> acc
                     | Inr height \<Rightarrow>
                         \<lparr>rs_value = num_add A (rs_value acc) (num_mul A height dx),
                          rs_rectangles = rs_rectangles acc @
                            [\<lparr>rect_x = x, rect_y = Math_min A (num_lit A ''0'') height,
                              rect_width = dx, rect_height = Math_abs A height\<rparr>]\<rparr>)
           \<lparr>rs_value = num_lit A ''0'', rs_rectangles = []\<rparr> [0..<n])"

text \<open>
  \<open>calculateLimit\<close>. \<open>limit_loop\<close> is the loop over \<open>steps\<close>, on the pair of
  \<open>leftValues\<close> and \<open>rightValues\<close>. Both evaluations and both \<open>push\<close>es stand in one
  \<open>try\<close> block, in this order: left evaluation, right evaluation, left push, right
  push. \<open>null\<close> is \<open>None\<close>. Nothing inside the outer \<open>try\<close> throws past the inner one,
  so the outer \<open>catch\<close> has no branch.
\<close>

record 'n LimitResult =
  leftLimit :: "'n option"
  rightLimit :: "'n option"
  limit :: "'n option"
  limitExists :: bool

definition limit_steps :: "'n arith \<Rightarrow> 'n list" where
  "limit_steps A = [num_lit A ''0.1'', num_lit A ''0.01'', num_lit A ''0.001'', num_lit A ''0.0001'']"

fun limit_loop ::
    "'n arith \<Rightarrow> string \<Rightarrow> 'n \<Rightarrow> 'n list \<Rightarrow> 'n list \<times> 'n list \<Rightarrow> 'n list \<times> 'n list" where
  "limit_loop A expression a [] (leftValues, rightValues) = (leftValues, rightValues)"
| "limit_loop A expression a (step # steps) (leftValues, rightValues) =
     limit_loop A expression a steps
       (case evaluate A expression (num_sub A a step) of
          Inl e \<Rightarrow> (leftValues, rightValues)
        | Inr leftVal \<Rightarrow>
            (case evaluate A expression (num_add A a step) of
               Inl e \<Rightarrow> (leftValues, rightValues)
             | Inr rightVal \<Rightarrow>
                 (if isFinite A leftVal then leftValues @ [leftVal] else leftValues,
                  if isFinite A rightVal then rightValues @ [rightVal] else rightValues)))"

definition lastValue :: "'n list \<Rightarrow> 'n option" where
  "lastValue values = (if length values > 0 then Some (values ! (length values - 1)) else None)"

definition limit_decision :: "'n arith \<Rightarrow> 'n \<Rightarrow> 'n option \<Rightarrow> 'n option \<Rightarrow> 'n LimitResult" where
  "limit_decision A epsilon l r =
     (case (l, r) of
        (Some lv, Some rv) \<Rightarrow>
          if num_lt A (Math_abs A (num_sub A lv rv)) epsilon
          then \<lparr>leftLimit = l, rightLimit = r,
                limit = Some (num_div A (num_add A lv rv) (num_lit A ''2'')), limitExists = True\<rparr>
          else \<lparr>leftLimit = l, rightLimit = r, limit = None, limitExists = False\<rparr>
      | (Some lv, None) \<Rightarrow> \<lparr>leftLimit = l, rightLimit = r, limit = Some lv, limitExists = False\<rparr>
      | (None, Some rv) \<Rightarrow> \<lparr>leftLimit = l, rightLimit = r, limit = Some rv, limitExists = False\<rparr>
      | (None, None) \<Rightarrow> \<lparr>leftLimit = l, rightLimit = r, limit = None, limitExists = False\<rparr>)"

definition calculateLimit :: "'n arith \<Rightarrow> string \<Rightarrow> 'n \<Rightarrow> 'n \<Rightarrow> 'n LimitResult" where
  "calculateLimit A expression a epsilon =
     (let (leftValues, rightValues) = limit_loop A expression a (limit_steps A) ([], [])
      in limit_decision A epsilon (lastValue leftValues) (lastValue rightValues))"

text \<open>The default value of the parameter \<open>epsilon\<close>.\<close>

definition default_epsilon :: "'n arith \<Rightarrow> 'n" where
  "default_epsilon A = num_lit A ''0.001''"

text \<open>Tangent and normal line. The equation strings are the template literals.\<close>

record 'n TangentLine =
  tl_slope :: 'n
  tl_yIntercept :: 'n
  tl_equation :: string
  tl_point :: "'n point"

record 'n NormalLine =
  nl_slope :: 'n
  nl_yIntercept :: 'n
  nl_equation :: string

definition calculateTangentLine :: "'n arith \<Rightarrow> string \<Rightarrow> 'n \<Rightarrow> 'n TangentLine" where
  "calculateTangentLine A expression x0 =
     (case evaluate A expression x0 of
        Inl e \<Rightarrow>
          \<lparr>tl_slope = num_lit A ''0'', tl_yIntercept = num_lit A ''0'', tl_equation = ''y = 0'',
           tl_point = (x0, num_lit A ''0'')\<rparr>
      | Inr y0 \<Rightarrow>
          (let slope = cr_value (calculateDerivative A expression x0 (default_h A));
               yIntercept = num_sub A y0 (num_mul A slope x0);
               equation =
                 (if num_eq A slope (num_lit A ''0'') then ''y = '' @ toFixed A y0 2
                  else if num_eq A slope (num_lit A ''1'') then
                    (if num_le A (num_lit A ''0'') yIntercept
                     then ''y = x + '' @ toFixed A yIntercept 2
                     else ''y = x - '' @ toFixed A (Math_abs A yIntercept) 2)
                  else if num_eq A slope (num_neg A (num_lit A ''1'')) then
                    (if num_le A (num_lit A ''0'') yIntercept
                     then ''y = -x + '' @ toFixed A yIntercept 2
                     else ''y = -x - '' @ toFixed A (Math_abs A yIntercept) 2)
                  else
                    (let slopeStr = toFixed A slope 2
                     in if num_le A (num_lit A ''0'') yIntercept
                        then ''y = '' @ slopeStr @ ''x + '' @ toFixed A yIntercept 2
                        else ''y = '' @ slopeStr @ ''x - '' @ toFixed A (Math_abs A yIntercept) 2))
           in \<lparr>tl_slope = slope, tl_yIntercept = yIntercept, tl_equation = equation,
               tl_point = (x0, y0)\<rparr>))"

definition calculateNormalLine :: "'n arith \<Rightarrow> string \<Rightarrow> 'n \<Rightarrow> 'n NormalLine" where
  "calculateNormalLine A expression x0 =
     (let tangent = calculateTangentLine A expression x0;
          normalSlope =
            (if num_eq A (tl_slope tangent) (num_lit A ''0'') then num_Infinity A
             else num_div A (num_neg A (num_lit A ''1'')) (tl_slope tangent))
      in case evaluate A expression x0 of
           Inl e \<Rightarrow>
             \<lparr>nl_slope = num_lit A ''0'', nl_yIntercept = num_lit A ''0'', nl_equation = ''y = 0''\<rparr>
         | Inr y0 \<Rightarrow>
             if \<not> isFinite A normalSlope then
               \<lparr>nl_slope = normalSlope, nl_yIntercept = num_lit A ''0'',
                nl_equation = ''x = '' @ toFixed A x0 2\<rparr>
             else
               (let yIntercept = num_sub A y0 (num_mul A normalSlope x0);
                    equation =
                      (if num_le A (num_lit A ''0'') yIntercept
                       then ''y = '' @ toFixed A normalSlope 2 @ ''x + '' @ toFixed A yIntercept 2
                       else ''y = '' @ toFixed A normalSlope 2 @ ''x - ''
                              @ toFixed A (Math_abs A yIntercept) 2)
                in \<lparr>nl_slope = normalSlope, nl_yIntercept = yIntercept, nl_equation = equation\<rparr>))"

subsection \<open>IEEE 754 doubles\<close>

text \<open>
  One record of operations is written out: the binary64 numbers of a JavaScript engine,
  used wherever a statement is about concrete numbers. A finite double is the real
  number it denotes. \<open>rnd\<close> rounds a real to the nearest double, ties to the even
  significand: the spacing of the doubles around \<open>r\<close> is \<open>2 powi ulp_exp r\<close> (52 fraction
  bits, least exponent \<open>-1074\<close>), and a result of magnitude \<open>2 ^ 1024\<close> or more
  overflows to an infinity. The basic operations are the exact operation followed by
  \<open>rnd\<close>, as IEEE 754 prescribes. The two zeros of IEEE 754 are one value \<open>Fin 0\<close>:
  \<open>===\<close>, \<open><\<close>, \<open><=\<close>, \<open>isFinite\<close>, \<open>Math.abs\<close> and \<open>toFixed\<close> do not tell them apart,
  and the parser divides by no zero. Where the sign of a zero would show (a division
  by a step count or an \<open>h\<close> that is zero, \<open>Math.pow\<close> of a zero base) the zero is \<open>+0\<close>.
\<close>

datatype jsnum = Fin real | PInf | NInf | NaN

definition ulp_exp :: "real \<Rightarrow> int" where
  "ulp_exp r = max (\<lfloor>log 2 \<bar>r\<bar>\<rfloor> - 52) (- 1074)"

definition rne :: "real \<Rightarrow> int" where
  "rne t = (let f = \<lfloor>t\<rfloor>; d = t - of_int f
            in if d < 1 / 2 then f
               else if 1 / 2 < d then f + 1
               else if even f then f else f + 1)"

definition rnd :: "real \<Rightarrow> jsnum" where
  "rnd r = (if r = 0 then Fin 0
            else let u = 2 powi ulp_exp r; v = of_int (rne (r / u)) * u
                 in if 2 ^ 1024 \<le> \<bar>v\<bar> then (if 0 < r then PInf else NInf) else Fin v)"

text \<open>The arithmetic of \<open>+\<close>, \<open>-\<close>, \<open>*\<close>, \<open>/\<close> and of unary minus.\<close>

fun js_neg :: "jsnum \<Rightarrow> jsnum" where
  "js_neg (Fin x) = Fin (- x)"
| "js_neg PInf = NInf"
| "js_neg NInf = PInf"
| "js_neg NaN = NaN"

fun js_add :: "jsnum \<Rightarrow> jsnum \<Rightarrow> jsnum" where
  "js_add (Fin x) (Fin y) = rnd (x + y)"
| "js_add NaN b = NaN"
| "js_add a NaN = NaN"
| "js_add PInf NInf = NaN"
| "js_add NInf PInf = NaN"
| "js_add PInf b = PInf"
| "js_add NInf b = NInf"
| "js_add a PInf = PInf"
| "js_add a NInf = NInf"

definition js_sub :: "jsnum \<Rightarrow> jsnum \<Rightarrow> jsnum" where
  "js_sub a b = js_add a (js_neg b)"

fun js_mul :: "jsnum \<Rightarrow> jsnum \<Rightarrow> jsnum" where
  "js_mul (Fin x) (Fin y) = rnd (x * y)"
| "js_mul NaN b = NaN"
| "js_mul a NaN = NaN"
| "js_mul (Fin x) b = (if x = 0 then NaN else if 0 < x then b else js_neg b)"
| "js_mul a (Fin y) = (if y = 0 then NaN else if 0 < y then a else js_neg a)"
| "js_mul PInf b = b"
| "js_mul NInf b = js_neg b"

fun js_div :: "jsnum \<Rightarrow> jsnum \<Rightarrow> jsnum" where
  "js_div (Fin x) (Fin y) =
     (if y = 0 then (if x = 0 then NaN else if 0 < x then PInf else NInf)
      else rnd (x / y))"
| "js_div NaN b = NaN"
| "js_div a NaN = NaN"
| "js_div (Fin x) b = Fin 0"
| "js_div a (Fin y) = (if 0 \<le> y then a else js_neg a)"
| "js_div a b = NaN"

fun js_eq :: "jsnum \<Rightarrow> jsnum \<Rightarrow> bool" where
  "js_eq (Fin x) (Fin y) \<longleftrightarrow> x = y"
| "js_eq PInf PInf \<longleftrightarrow> True"
| "js_eq NInf NInf \<longleftrightarrow> True"
| "js_eq a b \<longleftrightarrow> False"

fun js_lt :: "jsnum \<Rightarrow> jsnum \<Rightarrow> bool" where
  "js_lt (Fin x) (Fin y) \<longleftrightarrow> x < y"
| "js_lt NaN b \<longleftrightarrow> False"
| "js_lt a NaN \<longleftrightarrow> False"
| "js_lt NInf NInf \<longleftrightarrow> False"
| "js_lt NInf b \<longleftrightarrow> True"
| "js_lt PInf b \<longleftrightarrow> False"
| "js_lt a PInf \<longleftrightarrow> True"
| "js_lt a NInf \<longleftrightarrow> False"

definition js_le :: "jsnum \<Rightarrow> jsnum \<Rightarrow> bool" where
  "js_le a b \<longleftrightarrow> js_lt a b \<or> js_eq a b"

fun js_isFinite :: "jsnum \<Rightarrow> bool" where
  "js_isFinite (Fin x) \<longleftrightarrow> True"
| "js_isFinite a \<longleftrightarrow> False"

text \<open>
  \<open>parseFloat\<close> on the strings the lexer hands it, which are runs of digits and dots:
  the longest prefix that is a decimal literal (digits, then optionally a dot and
  digits; or a dot and at least one digit) is read, its value rounded; \<open>NaN\<close> when no
  prefix is a literal. Signs, exponents and \<open>Infinity\<close> do not occur in such runs and are
  not modelled. A numeric literal of the source text has the same value.
\<close>

definition digitValue :: "char \<Rightarrow> nat" where
  "digitValue c = of_char c - 48"

definition digitsValue :: "string \<Rightarrow> nat" where
  "digitsValue ds = foldl (\<lambda>n c. 10 * n + digitValue c) 0 ds"

definition js_parseFloat :: "string \<Rightarrow> jsnum" where
  "js_parseFloat s =
     (let intPart = takeWhile isDigit s;
          rest = dropWhile isDigit s;
          fracPart = (case rest of [] \<Rightarrow> [] | c # cs \<Rightarrow> if c = CHR ''.'' then takeWhile isDigit cs else [])
      in if intPart = [] \<and> fracPart = [] then NaN
         else rnd (real (digitsValue intPart) + real (digitsValue fracPart) / 10 ^ length fracPart))"

text \<open>
  \<open>toFixed\<close> follows the ECMAScript algorithm below \<open>10^21\<close>: the nearest multiple of
  \<open>10^(-digits)\<close>, the larger one on a tie, printed with \<open>digits\<close> decimals. From \<open>10^21\<close>
  on the runtime prints the shortest digits in exponent form instead; that printing
  is not modelled, the model has the empty string there.
\<close>

definition digitChar :: "nat \<Rightarrow> char" where
  "digitChar d = ''0123456789'' ! d"

function natToString :: "nat \<Rightarrow> string" where
  "natToString n =
     (if n < 10 then [digitChar n] else natToString (n div 10) @ [digitChar (n mod 10)])"
  by pat_completeness auto
termination natToString
  by (relation "measure id") auto

definition fixedString :: "real \<Rightarrow> nat \<Rightarrow> string" where
  "fixedString x digits =
     (let n = nat \<lfloor>x * 10 ^ digits + 1 / 2\<rfloor>;
          m = natToString n;
          m' = replicate (digits + 1 - length m) CHR ''0'' @ m
      in if digits = 0 then m
         else take (length m' - digits) m' @ ''.'' @ drop (length m' - digits) m')"

fun js_toFixed :: "jsnum \<Rightarrow> nat \<Rightarrow> string" where
  "js_toFixed (Fin x) digits =
     (if 10 ^ 21 \<le> \<bar>x\<bar> then []
      else if x < 0 then ''-'' @ fixedString (- x) digits
      else fixedString x digits)"
| "js_toFixed PInf digits = ''Infinity''"
| "js_toFixed NInf digits = ''-Infinity''"
| "js_toFixed NaN digits = ''NaN''"

text \<open>
  The \<open>Math\<close> library. ECMAScript fixes the results at the special values and leaves
  the rest to the implementation, as an approximation of the real function; the model
  takes the correctly rounded value.
\<close>

fun js_abs :: "jsnum \<Rightarrow> jsnum" where
  "js_abs (Fin x) = Fin \<bar>x\<bar>"
| "js_abs PInf = PInf"
| "js_abs NInf = PInf"
| "js_abs NaN = NaN"

fun js_min :: "jsnum \<Rightarrow> jsnum \<Rightarrow> jsnum" where
  "js_min NaN b = NaN"
| "js_min a NaN = NaN"
| "js_min a b = (if js_lt b a then b else a)"

fun js_sqrt :: "jsnum \<Rightarrow> jsnum" where
  "js_sqrt (Fin x) = (if x < 0 then NaN else rnd (sqrt x))"
| "js_sqrt PInf = PInf"
| "js_sqrt a = NaN"

fun js_exp :: "jsnum \<Rightarrow> jsnum" where
  "js_exp (Fin x) = rnd (exp x)"
| "js_exp PInf = PInf"
| "js_exp NInf = Fin 0"
| "js_exp NaN = NaN"

fun js_log :: "real \<Rightarrow> jsnum \<Rightarrow> jsnum" where
  "js_log b (Fin x) = (if x < 0 then NaN else if x = 0 then NInf else rnd (log b x))"
| "js_log b PInf = PInf"
| "js_log b a = NaN"

fun js_trig :: "(real \<Rightarrow> real) \<Rightarrow> jsnum \<Rightarrow> jsnum" where
  "js_trig f (Fin x) = rnd (f x)"
| "js_trig f a = NaN"

definition isOddInteger :: "real \<Rightarrow> bool" where
  "isOddInteger y \<longleftrightarrow> y = of_int \<lfloor>y\<rfloor> \<and> odd \<lfloor>y\<rfloor>"

fun js_pow :: "jsnum \<Rightarrow> jsnum \<Rightarrow> jsnum" where
  "js_pow base NaN = NaN"
| "js_pow base (Fin y) =
     (if y = 0 then Fin 1
      else case base of
        NaN \<Rightarrow> NaN
      | PInf \<Rightarrow> (if 0 < y then PInf else Fin 0)
      | NInf \<Rightarrow> (if 0 < y then (if isOddInteger y then NInf else PInf) else Fin 0)
      | Fin x \<Rightarrow>
          (if x = 0 then (if 0 < y then Fin 0 else PInf)
           else if y = of_int \<lfloor>y\<rfloor> then rnd (x powi \<lfloor>y\<rfloor>)
           else if x < 0 then NaN
           else rnd (x powr y)))"
| "js_pow base PInf =
     (case js_abs base of
        NaN \<Rightarrow> NaN
      | Fin a \<Rightarrow> (if 1 < a then PInf else if a = 1 then NaN else Fin 0)
      | _ \<Rightarrow> PInf)"
| "js_pow base NInf =
     (case js_abs base of
        NaN \<Rightarrow> NaN
      | Fin a \<Rightarrow> (if 1 < a then Fin 0 else if a = 1 then NaN else PInf)
      | _ \<Rightarrow> Fin 0)"

definition js :: "jsnum arith" where
  "js = \<lparr>num_add = js_add, num_sub = js_sub, num_mul = js_mul, num_div = js_div,
         num_neg = js_neg, num_eq = js_eq, num_lt = js_lt, num_le = js_le,
         num_lit = js_parseFloat, num_of_nat = (\<lambda>n. rnd (real n)), num_Infinity = PInf,
         parseFloat = js_parseFloat, isFinite = js_isFinite, toFixed = js_toFixed,
         Math_E = rnd (exp 1), Math_PI = rnd pi, Math_pow = js_pow,
         Math_sin = js_trig sin, Math_cos = js_trig cos, Math_tan = js_trig tan,
         Math_log = js_log (exp 1), Math_log10 = js_log 10, Math_sqrt = js_sqrt,
         Math_abs = js_abs, Math_exp = js_exp, Math_min = js_min\<rparr>"

section \<open>The notions of the specification\<close>

text \<open>A token, and the test that a token list begins with the operator \<open>^\<close>.\<close>

definition tok :: "tokentype \<Rightarrow> string \<Rightarrow> nat \<Rightarrow> token" where
  "tok ty v p = \<lparr>ttype = ty, tvalue = v, tpos = p\<rparr>"

definition starts_with_caret :: "token list \<Rightarrow> bool" where
  "starts_with_caret ts \<longleftrightarrow>
     (case ts of [] \<Rightarrow> False | t # r \<Rightarrow> ttype t = OPERATOR \<and> tvalue t = ''^'')"

text \<open>Simpson's rule as the specification writes it, for a function \<open>f\<close>.\<close>

definition simpson_n :: "nat \<Rightarrow> nat" where
  "simpson_n n = (if odd n then n + 1 else n)"

definition simpson_h :: "'n arith \<Rightarrow> 'n \<Rightarrow> 'n \<Rightarrow> nat \<Rightarrow> 'n" where
  "simpson_h A a b n = num_div A (num_sub A b a) (num_of_nat A (simpson_n n))"

definition simpson_point :: "'n arith \<Rightarrow> 'n \<Rightarrow> 'n \<Rightarrow> nat \<Rightarrow> nat \<Rightarrow> 'n" where
  "simpson_point A a b n i = num_add A a (num_mul A (num_of_nat A i) (simpson_h A a b n))"

definition simpson_weight :: "'n arith \<Rightarrow> nat \<Rightarrow> 'n" where
  "simpson_weight A i = (if odd i then num_lit A ''4'' else num_lit A ''2'')"

definition simpson_rule :: "'n arith \<Rightarrow> ('n \<Rightarrow> 'n) \<Rightarrow> 'n \<Rightarrow> 'n \<Rightarrow> nat \<Rightarrow> 'n" where
  "simpson_rule A f a b n =
     num_mul A (num_div A (simpson_h A a b n) (num_lit A ''3''))
       (foldl (\<lambda>s i. num_add A s (num_mul A (simpson_weight A i) (f (simpson_point A a b n i))))
          (num_add A (f a) (f b)) [1..<simpson_n n])"

definition all_points_succeed :: "'n arith \<Rightarrow> string \<Rightarrow> ('n \<Rightarrow> 'n) \<Rightarrow> 'n \<Rightarrow> 'n \<Rightarrow> nat \<Rightarrow> bool" where
  "all_points_succeed A expression f a b n \<longleftrightarrow>
     evaluate A expression a = Inr (f a) \<and> evaluate A expression b = Inr (f b) \<and>
     list_all (\<lambda>i. evaluate A expression (simpson_point A a b n i) = Inr (f (simpson_point A a b n i)))
       [1..<simpson_n n]"


text \<open>The result of \<open>calculateDerivative\<close> after a failed evaluation.\<close>

definition derivative_failed :: "'n arith \<Rightarrow> 'n CalculationResult" where
  "derivative_failed A =
     \<lparr>cr_value = num_lit A ''0'', cr_error = Some ''Unable to calculate derivative''\<rparr>"

text \<open>The lines that \<open>calculateTangentLine\<close> and \<open>calculateNormalLine\<close> return from \<open>catch\<close>.\<close>

definition tangent_sentinel :: "'n arith \<Rightarrow> 'n \<Rightarrow> 'n TangentLine" where
  "tangent_sentinel A x0 =
     \<lparr>tl_slope = num_lit A ''0'', tl_yIntercept = num_lit A ''0'', tl_equation = ''y = 0'',
      tl_point = (x0, num_lit A ''0'')\<rparr>"

definition normal_sentinel :: "'n arith \<Rightarrow> 'n NormalLine" where
  "normal_sentinel A =
     \<lparr>nl_slope = num_lit A ''0'', nl_yIntercept = num_lit A ''0'', nl_equation = ''y = 0''\<rparr>"


text \<open>
  Sampling as the specification describes it: the \<open>i\<close>-th of the evenly spaced points,
  the sample a point contributes (none when the evaluation fails or is not finite), and
  samples in increasing \<open>x\<close> order.
\<close>

definition sample_x :: "'n arith \<Rightarrow> 'n \<Rightarrow> 'n \<Rightarrow> nat \<Rightarrow> nat \<Rightarrow> 'n" where
  "sample_x A xMin xMax steps i =
     num_add A xMin (num_mul A (num_of_nat A i) (num_div A (num_sub A xMax xMin) (num_of_nat A steps)))"

definition sample :: "'n arith \<Rightarrow> string \<Rightarrow> 'n \<Rightarrow> 'n point list" where
  "sample A expression x =
     (case evaluate A expression x of
        Inl e \<Rightarrow> []
      | Inr y \<Rightarrow> if isFinite A y then [(x, y)] else [])"

definition ascending_x :: "'n arith \<Rightarrow> 'n point list \<Rightarrow> bool" where
  "ascending_x A points = sorted_wrt (\<lambda>p q. num_le A (fst p) (fst q)) points"

subsection \<open>Rounding\<close>

lemma rne_of_int [simp]: "rne (of_int m) = m"
  by (simp add: rne_def)

lemma rne_near: "\<bar>t - of_int m\<bar> < 1 / 2 \<Longrightarrow> rne t = m"
proof -
  assume a: "\<bar>t - of_int m\<bar> < 1 / 2"
  show ?thesis
  proof (cases "of_int m \<le> t")
    case True
    then have "\<lfloor>t\<rfloor> = m" using a by (intro floor_unique) auto
    then show ?thesis using a True by (simp add: rne_def)
  next
    case False
    then have f: "\<lfloor>t\<rfloor> = m - 1" using a by (intro floor_unique) auto
    then show ?thesis using a False by (auto simp add: rne_def Let_def)
  qed
qed

lemma rne_tie: "t = of_int m + 1 / 2 \<Longrightarrow> rne t = (if even m then m else m + 1)"
proof -
  assume a: "t = of_int m + 1 / 2"
  then have "\<lfloor>t\<rfloor> = m" by (intro floor_unique) auto
  then show ?thesis using a by (simp add: rne_def)
qed




lemma two_powr_int: "(2::real) powr real_of_int k = 2 powi k"
  by (rule powr_real_of_int') auto

lemma floor_log2_eq:
  assumes "2 powi k \<le> r" "r < 2 powi (k + 1)"
  shows "\<lfloor>log 2 r\<rfloor> = k"
proof -
  have "(0::real) < 2 powi k" by (simp add: zero_less_power_int)
  with assms have r: "0 < r" by linarith
  have "2 powr real_of_int k \<le> r \<and> r < 2 powr real_of_int (k + 1)"
    unfolding two_powr_int using assms by blast
  moreover have "(1::real) < 2" by simp
  ultimately show ?thesis
    using floor_log_eq_powr_iff[of r 2 k] r by blast
qed

lemma floor_log2_less:
  assumes "0 < r" "r < 2 powi k"
  shows "\<lfloor>log 2 r\<rfloor> < k"
proof -
  have p: "(0::real) < 2 powi k" by (simp add: zero_less_power_int)
  have "log 2 r < log 2 (2 powi k)"
    using assms p by (subst log_less_cancel_iff) auto
  also have "log 2 (2 powi k) = real_of_int k"
    unfolding two_powr_int[symmetric] by simp
  finally show ?thesis by linarith
qed

lemma ulp_exp_normal:
  assumes "2 powi (k + 52) \<le> \<bar>r\<bar>" "\<bar>r\<bar> < 2 powi (k + 53)" "- 1074 \<le> k"
  shows "ulp_exp r = k"
proof -
  have "k + 52 + 1 = k + 53" by simp
  then have "\<lfloor>log 2 \<bar>r\<bar>\<rfloor> = k + 52"
    using floor_log2_eq[of "k + 52" "\<bar>r\<bar>"] assms(1,2) by metis
  with assms(3) show ?thesis unfolding ulp_exp_def by linarith
qed

lemma ulp_exp_le:
  assumes "r \<noteq> 0" "\<bar>r\<bar> < 2 powi (e + 53)" "- 1074 \<le> e"
  shows "ulp_exp r \<le> e"
proof -
  have "0 < \<bar>r\<bar>" using assms(1) by simp
  then have "\<lfloor>log 2 \<bar>r\<bar>\<rfloor> < e + 53" using floor_log2_less assms(2) by blast
  with assms(3) show ?thesis unfolding ulp_exp_def by linarith
qed

lemma rnd_exact:
  assumes r: "r = of_int m * 2 powi e" and m: "\<bar>m\<bar> < 2 ^ 53" and e: "- 1074 \<le> e"
    and b: "\<bar>r\<bar> < 2 ^ 1024"
  shows "rnd r = Fin r"
proof (cases "r = 0")
  case True
  then show ?thesis by (simp add: rnd_def)
next
  case False
  define j where "j = ulp_exp r"
  have pos: "(0::real) < 2 powi e" by (simp add: zero_less_power_int)
  have am: "\<bar>real_of_int m\<bar> < 2 ^ 53"
  proof -
    have "real_of_int \<bar>m\<bar> < real_of_int (2 ^ 53)" using m by (simp only: of_int_less_iff)
    then show ?thesis by simp
  qed
  have "\<bar>r\<bar> = \<bar>of_int m\<bar> * 2 powi e" using r pos by (simp add: abs_mult)
  also have "\<dots> < 2 ^ 53 * 2 powi e"
    using am pos by (rule mult_strict_right_mono)
  also have "\<dots> = 2 powi (e + 53)" by (simp add: power_int_add)
  finally have lt: "\<bar>r\<bar> < 2 powi (e + 53)" .
  have je: "j \<le> e" unfolding j_def using ulp_exp_le[OF False lt e] .
  have pj: "(2::real) powi j \<noteq> 0" by simp
  have split: "(2::real) powi e = 2 powi (e - j) * 2 powi j"
    by (simp add: power_int_add[symmetric])
  have nat: "(2::real) powi (e - j) = of_int (2 ^ nat (e - j))"
    using je by (simp add: power_int_def)
  have "r / 2 powi j = of_int m * 2 powi (e - j)"
    unfolding r split using pj by simp
  also have "\<dots> = of_int (m * 2 ^ nat (e - j))"
    unfolding nat by (simp only: of_int_mult)
  finally have q: "r / 2 powi j = of_int (m * 2 ^ nat (e - j))" .
  have "rne (r / 2 powi j) = m * 2 ^ nat (e - j)" unfolding q by (rule rne_of_int)
  then have "of_int (rne (r / 2 powi j)) * 2 powi j = (r / 2 powi j) * 2 powi j"
    using q by simp
  also have "\<dots> = r" using pj by simp
  finally have v: "of_int (rne (r / 2 powi j)) * 2 powi j = r" .
  have "\<not> 2 ^ 1024 \<le> \<bar>r\<bar>" using b by linarith
  with v False show ?thesis unfolding rnd_def Let_def j_def[symmetric] by (simp only: if_False)
qed


lemma rnd_normal:
  assumes "2 powi (k + 52) \<le> \<bar>r\<bar>" "\<bar>r\<bar> < 2 powi (k + 53)" "- 1074 \<le> k"
    and "rne (r / 2 powi k) = m" and "\<bar>real_of_int m * 2 powi k\<bar> < 2 ^ 1024"
  shows "rnd r = Fin (of_int m * 2 powi k)"
proof -
  have "(0::real) < 2 powi (k + 52)" by (simp add: zero_less_power_int)
  with assms(1) have "0 < \<bar>r\<bar>" by linarith
  then have nz: "r \<noteq> 0" by simp
  have u: "ulp_exp r = k" using ulp_exp_normal assms(1-3) by blast
  have "\<not> 2 ^ 1024 \<le> \<bar>real_of_int m * 2 powi k\<bar>" using assms(5) by linarith
  then show ?thesis
    unfolding rnd_def Let_def u assms(4) using nz by (simp only: if_False)
qed

lemma rne_ge_int: "of_int n \<le> t \<Longrightarrow> n \<le> rne t"
proof -
  assume "of_int n \<le> t"
  then have "n \<le> \<lfloor>t\<rfloor>" by (simp add: le_floor_iff)
  moreover have "\<lfloor>t\<rfloor> \<le> rne t" unfolding rne_def Let_def by simp
  ultimately show ?thesis by linarith
qed

lemma rnd_overflow_pos:
  assumes "2 ^ 1024 \<le> r"
  shows "rnd r = PInf"
proof -
  have r: "0 < r" using assms by (smt (verit) zero_less_power)
  define j where "j = \<lfloor>log 2 \<bar>r\<bar>\<rfloor> - 52"
  have "2 powr real_of_int (j + 52) \<le> \<bar>r\<bar>"
    using floor_log_eq_powr_iff[of "\<bar>r\<bar>" 2 "j + 52"] r unfolding j_def by simp
  then have lo: "2 powi (j + 52) \<le> r" unfolding two_powr_int using r by simp
  have "\<not> \<lfloor>log 2 \<bar>r\<bar>\<rfloor> < 1024"
  proof
    assume "\<lfloor>log 2 \<bar>r\<bar>\<rfloor> < 1024"
    then have "log 2 r < 1024" using r by simp
    then have "r < 2 powr 1024" using r by (simp add: log_less_iff)
    moreover have "(2::real) powr 1024 = 2 ^ 1024" by (simp add: powr_realpow[symmetric])
    ultimately show False using assms by linarith
  qed
  then have j: "972 \<le> j" unfolding j_def by linarith
  then have u: "ulp_exp r = j" unfolding ulp_exp_def j_def by linarith
  have pj: "(0::real) < 2 powi j" by (simp add: zero_less_power_int)
  have e52: "real_of_int (2 ^ 52) * 2 powi j = 2 powi (j + 52)" by (simp add: power_int_add)
  have "real_of_int (2 ^ 52) = 2 powi (j + 52) / 2 powi j"
    by (simp add: power_int_add)
  also have "\<dots> \<le> r / 2 powi j" using lo pj by (simp add: divide_right_mono)
  finally have "2 ^ 52 \<le> rne (r / 2 powi j)" by (rule rne_ge_int)
  then have "real_of_int (2 ^ 52) \<le> real_of_int (rne (r / 2 powi j))" by (simp only: of_int_le_iff)
  then have "real_of_int (2 ^ 52) * 2 powi j \<le> real_of_int (rne (r / 2 powi j)) * 2 powi j"
    using pj by (intro mult_right_mono) auto
  then have "2 powi (j + 52) \<le> real_of_int (rne (r / 2 powi j)) * 2 powi j"
    unfolding e52 .
  moreover have "(2::real) powi 1024 \<le> 2 powi (j + 52)"
    using j by (intro power_int_increasing) auto
  ultimately have "2 powi 1024 \<le> real_of_int (rne (r / 2 powi j)) * 2 powi j"
    by (rule order_trans[rotated])
  then have "2 powi 1024 \<le> \<bar>real_of_int (rne (r / 2 powi j)) * 2 powi j\<bar>" by linarith
  then have "2 ^ 1024 \<le> \<bar>real_of_int (rne (r / 2 powi j)) * 2 powi j\<bar>"
    by (simp only: power_int_numeral)
  then show ?thesis unfolding rnd_def Let_def u using r by (simp only: if_True) simp
qed


lemma rnd_of_int: "\<bar>m\<bar> < 2 ^ 53 \<Longrightarrow> rnd (of_int m) = Fin (of_int m)"
proof -
  assume m: "\<bar>m\<bar> < 2 ^ 53"
  have "real_of_int \<bar>m\<bar> < real_of_int (2 ^ 53)" using m by (simp only: of_int_less_iff)
  then have "\<bar>real_of_int m\<bar> < 2 ^ 53" by simp
  also have "\<dots> < (2::real) ^ 1024" by simp
  finally show ?thesis using rnd_exact[of "of_int m" m 0] m by simp
qed

lemma rnd_0 [simp]: "rnd 0 = Fin 0"
  by (simp add: rnd_def)

lemma rnd_1 [simp]: "rnd 1 = Fin 1"
  using rnd_of_int[of 1] by simp

lemma rnd_minus_1 [simp]: "rnd (- 1) = Fin (- 1)"
  using rnd_of_int[of "- 1"] by simp

lemma rnd_numeral [simp]: "numeral k < (2 ^ 53 :: int) \<Longrightarrow> rnd (numeral k) = Fin (numeral k)"
  using rnd_of_int[of "numeral k"] by simp

lemma rnd_neg_numeral [simp]: "numeral k < (2 ^ 53 :: int) \<Longrightarrow> rnd (- numeral k) = Fin (- numeral k)"
  using rnd_of_int[of "- numeral k"] by simp

lemma rnd_of_nat: "n < 2 ^ 53 \<Longrightarrow> rnd (real n) = Fin (real n)"
  using rnd_of_int[of "int n"] by simp

lemma rnd_sqrt:
  assumes lo: "((real_of_int m - 1 / 2) * 2 powi k)\<^sup>2 < r"
    and hi: "r < ((real_of_int m + 1 / 2) * 2 powi k)\<^sup>2"
    and m: "2 ^ 52 < m" "m < 2 ^ 53" and k: "- 1074 \<le> k" "k \<le> 970"
  shows "rnd (sqrt r) = Fin (real_of_int m * 2 powi k)"
proof -
  define u :: real where "u = 2 powi k"
  have u: "0 < u" unfolding u_def by (simp add: zero_less_power_int)
  have m1: "(2::real) ^ 52 + 1 \<le> real_of_int m"
  proof -
    have "(2::int) ^ 52 + 1 \<le> m" using m(1) by simp
    then have "real_of_int (2 ^ 52 + 1) \<le> real_of_int m" by (simp only: of_int_le_iff)
    then show ?thesis by simp
  qed
  have m2: "real_of_int m \<le> 2 ^ 53 - 1"
  proof -
    have "m \<le> 2 ^ 53 - 1" using m(2) by simp
    then have "real_of_int m \<le> real_of_int (2 ^ 53 - 1)" by (simp only: of_int_le_iff)
    then show ?thesis by simp
  qed
  have a: "(real_of_int m - 1 / 2) * u < sqrt r"
    using lo unfolding u_def by (rule real_less_rsqrt)
  have pos: "0 \<le> (real_of_int m + 1 / 2) * u" using m1 u by simp
  have b: "sqrt r < (real_of_int m + 1 / 2) * u"
    using hi pos unfolding u_def by (intro real_less_lsqrt) auto
  have near: "\<bar>sqrt r / u - real_of_int m\<bar> < 1 / 2"
  proof -
    have "real_of_int m - 1 / 2 < sqrt r / u" using a u by (simp add: pos_less_divide_eq)
    moreover have "sqrt r / u < real_of_int m + 1 / 2" using b u by (simp add: pos_divide_less_eq)
    ultimately show ?thesis by linarith
  qed
  have rn: "rne (sqrt r / 2 powi k) = m" using near unfolding u_def by (rule rne_near)
  have e52: "(2::real) powi (k + 52) = 2 ^ 52 * u"
    unfolding u_def by (simp add: power_int_add)
  have e53: "(2::real) powi (k + 53) = 2 ^ 53 * u"
    unfolding u_def by (simp add: power_int_add)
  have c: "2 ^ 52 * u \<le> (real_of_int m - 1 / 2) * u"
    using m1 u by (intro mult_right_mono) auto
  have "0 < 2 ^ 52 * u" using u by simp
  with a c have sp: "0 < sqrt r" by linarith
  from a c have ge: "2 powi (k + 52) \<le> \<bar>sqrt r\<bar>" unfolding e52 by linarith
  have "(real_of_int m + 1 / 2) * u < 2 ^ 53 * u"
    using m2 u by (intro mult_strict_right_mono) auto
  with b sp have lt: "\<bar>sqrt r\<bar> < 2 powi (k + 53)" unfolding e53 by linarith
  have "real_of_int m * u < 2 ^ 53 * u"
    using m2 u by (intro mult_strict_right_mono) auto
  also have "\<dots> = 2 powi (k + 53)" using e53 by simp
  also have "\<dots> \<le> 2 powi 1023" using k by (intro power_int_increasing) auto
  also have "\<dots> < (2::real) ^ 1024" by simp
  finally have "real_of_int m * u < 2 ^ 1024" .
  moreover have "0 \<le> real_of_int m * u" using m1 u by simp
  ultimately have bd: "\<bar>real_of_int m * 2 powi k\<bar> < 2 ^ 1024" unfolding u_def by linarith
  show ?thesis using rnd_normal[OF ge lt k(1) rn bd] .
qed


text \<open>
  Rounding is monotone: \<open>rne\<close> is, and between two binades the power of two that
  separates them is a value of both roundings.
\<close>

lemma rne_le_int: "t \<le> of_int n \<Longrightarrow> rne t \<le> n"
proof -
  assume a: "t \<le> of_int n"
  show ?thesis
  proof (cases "t = of_int \<lfloor>t\<rfloor>")
    case True
    then have "rne t = \<lfloor>t\<rfloor>" by (metis rne_of_int)
    moreover have "\<lfloor>t\<rfloor> \<le> n" using a by (simp add: floor_le_iff)
    ultimately show ?thesis by simp
  next
    case False
    then have "of_int \<lfloor>t\<rfloor> < t" using of_int_floor_le[of t] by linarith
    with a have "real_of_int \<lfloor>t\<rfloor> < real_of_int n" by linarith
    then have "\<lfloor>t\<rfloor> < n" by (simp only: of_int_less_iff)
    moreover have "rne t \<le> \<lfloor>t\<rfloor> + 1" unfolding rne_def Let_def by simp
    ultimately show ?thesis by linarith
  qed
qed

lemma rne_floor_le: "\<lfloor>t\<rfloor> \<le> rne t"
  unfolding rne_def Let_def by simp

lemma rne_le_floor1: "rne t \<le> \<lfloor>t\<rfloor> + 1"
  unfolding rne_def Let_def by simp

lemma rne_mono: "t \<le> t' \<Longrightarrow> rne t \<le> rne t'"
proof -
  assume a: "t \<le> t'"
  then have f: "\<lfloor>t\<rfloor> \<le> \<lfloor>t'\<rfloor>" by (rule floor_mono)
  show ?thesis
  proof (cases "\<lfloor>t\<rfloor> = \<lfloor>t'\<rfloor>")
    case True
    then show ?thesis using a unfolding rne_def Let_def by auto
  next
    case False
    with f have "\<lfloor>t\<rfloor> + 1 \<le> \<lfloor>t'\<rfloor>" by linarith
    with rne_le_floor1[of t] rne_floor_le[of t'] show ?thesis by linarith
  qed
qed

lemma rne_minus: "rne (- t) = - rne t"
proof (cases "t = of_int \<lfloor>t\<rfloor>")
  case True
  then obtain m where m: "t = of_int m" by blast
  have "- t = of_int (- m)" unfolding m by simp
  then have "rne (- t) = - m" by (metis rne_of_int)
  then show ?thesis unfolding m by simp
next
  case False
  then have lt: "of_int \<lfloor>t\<rfloor> < t" using of_int_floor_le[of t] by linarith
  have fl: "\<lfloor>- t\<rfloor> = - \<lfloor>t\<rfloor> - 1"
    using lt by (intro floor_unique) (auto, linarith)
  show ?thesis unfolding rne_def Let_def fl using lt by auto
qed

lemma ulp_exp_minus [simp]: "ulp_exp (- r) = ulp_exp r"
  by (simp add: ulp_exp_def)

lemma rnd_minus: "rnd (- r) = js_neg (rnd r)"
  by (simp add: rnd_def Let_def rne_minus abs_mult)

lemma ulp_exp_mono: "0 < r \<Longrightarrow> r \<le> s \<Longrightarrow> ulp_exp r \<le> ulp_exp s"
proof -
  assume a: "0 < r" "r \<le> s"
  then have "log 2 r \<le> log 2 s" by simp
  then have "\<lfloor>log 2 r\<rfloor> \<le> \<lfloor>log 2 s\<rfloor>" by (rule floor_mono)
  then show ?thesis using a unfolding ulp_exp_def by simp
qed


lemma ulp_exp_lower: "- 1074 \<le> ulp_exp r"
  by (simp add: ulp_exp_def)

lemma ulp_exp_upper: "0 < r \<Longrightarrow> r < 2 powi (ulp_exp r + 53)"
proof -
  assume r: "0 < r"
  have "\<lfloor>log 2 r\<rfloor> \<le> ulp_exp r + 52" using r unfolding ulp_exp_def by simp
  then have "log 2 r < real_of_int (ulp_exp r + 53)" by linarith
  then have "r < 2 powr real_of_int (ulp_exp r + 53)" using r by (simp add: log_less_iff)
  then show ?thesis unfolding two_powr_int .
qed

lemma ulp_exp_above: "0 < r \<Longrightarrow> - 1074 < ulp_exp r \<Longrightarrow> 2 powi (ulp_exp r + 52) \<le> r"
proof -
  assume r: "0 < r" and k: "- 1074 < ulp_exp r"
  have e: "ulp_exp r = \<lfloor>log 2 r\<rfloor> - 52" using r k unfolding ulp_exp_def by simp
  have "real_of_int (ulp_exp r + 52) \<le> log 2 r" unfolding e by simp
  then have "2 powr real_of_int (ulp_exp r + 52) \<le> r" using r by (simp add: le_log_iff)
  then show ?thesis unfolding two_powr_int .
qed

lemma rval_nonneg:
  "0 \<le> r \<Longrightarrow> 0 \<le> real_of_int (rne (r / 2 powi ulp_exp r)) * 2 powi ulp_exp r"
proof -
  assume r: "0 \<le> r"
  have p: "(0::real) < 2 powi ulp_exp r" by (simp add: zero_less_power_int)
  then have "real_of_int 0 \<le> r / 2 powi ulp_exp r" using r by simp
  then have "0 \<le> rne (r / 2 powi ulp_exp r)" by (rule rne_ge_int)
  then show ?thesis using p by simp
qed

lemma rval_mono:
  assumes r: "0 < r" and rs: "r \<le> s"
  shows "real_of_int (rne (r / 2 powi ulp_exp r)) * 2 powi ulp_exp r
       \<le> real_of_int (rne (s / 2 powi ulp_exp s)) * 2 powi ulp_exp s"
proof -
  define k where "k = ulp_exp r"
  define l where "l = ulp_exp s"
  have s: "0 < s" using r rs by linarith
  have kl: "k \<le> l" unfolding k_def l_def using r rs by (rule ulp_exp_mono)
  have pk: "(0::real) < 2 powi k" by (simp add: zero_less_power_int)
  have pl: "(0::real) < 2 powi l" by (simp add: zero_less_power_int)
  show ?thesis unfolding k_def[symmetric] l_def[symmetric]
  proof (cases "k = l")
    case True
    have "r / 2 powi l \<le> s / 2 powi l" using rs pl by (simp add: divide_right_mono)
    then have "rne (r / 2 powi l) \<le> rne (s / 2 powi l)" by (rule rne_mono)
    then have "real_of_int (rne (r / 2 powi l)) \<le> real_of_int (rne (s / 2 powi l))"
      by (simp only: of_int_le_iff)
    then show "real_of_int (rne (r / 2 powi k)) * 2 powi k \<le> real_of_int (rne (s / 2 powi l)) * 2 powi l"
      unfolding True using pl by (intro mult_right_mono) auto
  next
    case False
    with kl have lt: "k < l" by linarith
    have "- 1074 \<le> k" unfolding k_def by (rule ulp_exp_lower)
    with lt have "- 1074 < ulp_exp s" unfolding l_def by linarith
    then have lo: "2 powi (l + 52) \<le> s" unfolding l_def using s ulp_exp_above by blast
    have hi: "r < 2 powi (k + 53)" unfolding k_def using r by (rule ulp_exp_upper)
    have "r / 2 powi k \<le> 2 powi (k + 53) / 2 powi k" using hi pk by (simp add: divide_right_mono)
    also have "\<dots> = real_of_int (2 ^ 53)" by (simp add: power_int_add)
    finally have "rne (r / 2 powi k) \<le> 2 ^ 53" by (rule rne_le_int)
    then have "real_of_int (rne (r / 2 powi k)) \<le> real_of_int (2 ^ 53)" by (simp only: of_int_le_iff)
    then have "real_of_int (rne (r / 2 powi k)) * 2 powi k \<le> real_of_int (2 ^ 53) * 2 powi k"
      using pk by (intro mult_right_mono) auto
    also have "\<dots> = 2 powi (k + 53)" by (simp add: power_int_add)
    also have "\<dots> \<le> 2 powi (l + 52)" using lt by (intro power_int_increasing) auto
    finally have a: "real_of_int (rne (r / 2 powi k)) * 2 powi k \<le> 2 powi (l + 52)" .
    have "real_of_int (2 ^ 52) = 2 powi (l + 52) / 2 powi l" by (simp add: power_int_add)
    also have "\<dots> \<le> s / 2 powi l" using lo pl by (simp add: divide_right_mono)
    finally have "2 ^ 52 \<le> rne (s / 2 powi l)" by (rule rne_ge_int)
    then have "real_of_int (2 ^ 52) \<le> real_of_int (rne (s / 2 powi l))" by (simp only: of_int_le_iff)
    then have c: "real_of_int (2 ^ 52) * 2 powi l \<le> real_of_int (rne (s / 2 powi l)) * 2 powi l"
      using pl by (intro mult_right_mono) auto
    have d: "real_of_int (2 ^ 52) * 2 powi l = 2 powi (l + 52)" by (simp add: power_int_add)
    from c have b: "2 powi (l + 52) \<le> real_of_int (rne (s / 2 powi l)) * 2 powi l"
      unfolding d .
    from a b show "real_of_int (rne (r / 2 powi k)) * 2 powi k \<le> real_of_int (rne (s / 2 powi l)) * 2 powi l"
      by (rule order_trans)
  qed
qed

lemma rnd_not_NaN [simp]: "rnd r \<noteq> NaN"
  by (simp add: rnd_def Let_def)

lemma rnd_nonneg: "0 \<le> r \<Longrightarrow> rnd r = PInf \<or> (\<exists>v. rnd r = Fin v \<and> 0 \<le> v)"
proof -
  assume r: "0 \<le> r"
  show ?thesis
  proof (cases "r = 0")
    case True
    then show ?thesis by (simp add: rnd_def)
  next
    case False
    with r have "0 < r" by simp
    then show ?thesis using rval_nonneg[OF r] unfolding rnd_def Let_def by auto
  qed
qed

lemma rnd_mono_pos:
  assumes r: "0 < r" and rs: "r \<le> s"
  shows "js_le (rnd r) (rnd s)"
proof -
  define a where "a = real_of_int (rne (r / 2 powi ulp_exp r)) * 2 powi ulp_exp r"
  define b where "b = real_of_int (rne (s / 2 powi ulp_exp s)) * 2 powi ulp_exp s"
  have s: "0 < s" using r rs by linarith
  have ab: "a \<le> b" unfolding a_def b_def using r rs by (rule rval_mono)
  have a0: "0 \<le> a" unfolding a_def using r by (intro rval_nonneg) simp
  have ra: "rnd r = (if 2 ^ 1024 \<le> \<bar>a\<bar> then PInf else Fin a)"
    using r unfolding rnd_def Let_def a_def by simp
  have rb: "rnd s = (if 2 ^ 1024 \<le> \<bar>b\<bar> then PInf else Fin b)"
    using s unfolding rnd_def Let_def b_def by simp
  show ?thesis unfolding ra rb using ab a0 by (auto simp: js_le_def)
qed

lemma js_le_neg: "js_le a b \<Longrightarrow> js_le (js_neg b) (js_neg a)"
  by (cases a; cases b) (auto simp: js_le_def)

lemma rnd_mono: "r \<le> s \<Longrightarrow> js_le (rnd r) (rnd s)"
proof -
  assume rs: "r \<le> s"
  consider "0 < r" | "s < 0" | "r \<le> 0" "0 \<le> s" by linarith
  then show ?thesis
  proof cases
    case 1
    then show ?thesis using rs by (rule rnd_mono_pos)
  next
    case 2
    then have "0 < - s" "- s \<le> - r" using rs by auto
    then have "js_le (rnd (- s)) (rnd (- r))" by (rule rnd_mono_pos)
    then have "js_le (js_neg (rnd s)) (js_neg (rnd r))" unfolding rnd_minus .
    then have "js_le (js_neg (js_neg (rnd r))) (js_neg (js_neg (rnd s)))" by (rule js_le_neg)
    moreover have "\<And>x. js_neg (js_neg x) = x" by (case_tac x) auto
    ultimately show ?thesis by simp
  next
    case 3
    have "0 \<le> - r" using 3(1) by simp
    from rnd_nonneg[OF this] have a: "rnd r = NInf \<or> (\<exists>v. rnd r = Fin v \<and> v \<le> 0)"
      unfolding rnd_minus by (cases "rnd r") auto
    from rnd_nonneg[OF 3(2)] a show ?thesis by (auto simp: js_le_def)
  qed
qed

subsection \<open>Rounded values\<close>

text \<open>
  The roundings that the evaluations on doubles below meet, each from \<open>rnd_normal\<close>
  with the binade and the significand written out, and the square roots of the four
  steps of the limit.
\<close>

lemma rnd_value_1: "rnd (1 / 2) = Fin (1 / 2)"
  using rnd_normal[of "- 53" "1 / 2" "4503599627370496"]
  by (simp add: power_int_minus rne_near)

lemma rnd_value_2: "rnd (1 / 6) = Fin (6004799503160661 / 36028797018963968)"
  using rnd_normal[of "- 55" "1 / 6" "6004799503160661"]
  by (simp add: power_int_minus rne_near)

lemma rnd_value_3: "rnd (18014398509481983 / 36028797018963968) = Fin (1 / 2)"
  using rnd_normal[of "- 54" "18014398509481983 / 36028797018963968" "9007199254740992"] rne_tie[of "(18014398509481983 / 36028797018963968) / 2 powi (- 54)" "9007199254740991"]
  by (simp add: power_int_minus)

lemma rnd_value_4: "rnd (1 / 10000) = Fin (7378697629483821 / 73786976294838206464)"
  using rnd_normal[of "- 66" "1 / 10000" "7378697629483821"]
  by (simp add: power_int_minus rne_near)

lemma rnd_value_5: "rnd (147581331287305896749 / 73786976294838206464) = Fin (4503824807351865 / 2251799813685248)"
  using rnd_normal[of "- 51" "147581331287305896749 / 73786976294838206464" "4503824807351865"]
  by (simp add: power_int_minus rne_near)

lemma rnd_value_6: "rnd (225179981369 / 2251799813685248) = Fin (225179981369 / 2251799813685248)"
  using rnd_normal[of "- 66" "225179981369 / 2251799813685248" "7378697629499392"]
  by (simp add: power_int_minus rne_near)

lemma rnd_value_7: "rnd (7378697629499392 / 7378697629483821) = Fin (140737488355625 / 140737488355328)"
  using rnd_normal[of "- 52" "7378697629499392 / 7378697629483821" "4503599627380000"]
  by (simp add: power_int_minus rne_near)

lemma rnd_value_8: "rnd (7378697629483821 / 73786976294838206464) = Fin (7378697629483821 / 73786976294838206464)"
  using rnd_normal[of "- 66" "7378697629483821 / 73786976294838206464" "7378697629483821"]
  by (simp add: power_int_minus rne_near)

lemma rnd_value_9: "rnd (- (7378697629483821 / 73786976294838206464)) = Fin (- (7378697629483821 / 73786976294838206464))"
  using rnd_normal[of "- 66" "- (7378697629483821 / 73786976294838206464)" "- 7378697629483821"]
  by (simp add: power_int_minus rne_near)

lemma rnd_value_10: "rnd (1 / 5) = Fin (3602879701896397 / 18014398509481984)"
  using rnd_normal[of "- 55" "1 / 5" "7205759403792794"]
  by (simp add: power_int_minus rne_near)

lemma rnd_value_11: "rnd (3602879701896397 / 18014398509481984) = Fin (3602879701896397 / 18014398509481984)"
  using rnd_normal[of "- 55" "3602879701896397 / 18014398509481984" "7205759403792794"]
  by (simp add: power_int_minus rne_near)

lemma rnd_value_12: "rnd (- (14411518807585587 / 18014398509481984)) = Fin (- (3602879701896397 / 4503599627370496))"
  using rnd_normal[of "- 53" "- (14411518807585587 / 18014398509481984)" "- 7205759403792794"] rne_tie[of "(- (14411518807585587 / 18014398509481984)) / 2 powi (- 53)" "- 7205759403792794"]
  by (simp add: power_int_minus)

lemma rnd_value_13: "rnd (- (4503599627370496 / 3602879701896397)) = Fin (- (5 / 4))"
  using rnd_normal[of "- 52" "- (4503599627370496 / 3602879701896397)" "- 5629499534213120"]
  by (simp add: power_int_minus rne_near)

lemma rnd_value_14: "rnd (3602879701896397 / 9007199254740992) = Fin (3602879701896397 / 9007199254740992)"
  using rnd_normal[of "- 54" "3602879701896397 / 9007199254740992" "7205759403792794"]
  by (simp add: power_int_minus rne_near)

lemma rnd_value_15: "rnd (- (5404319552844595 / 9007199254740992)) = Fin (- (5404319552844595 / 9007199254740992))"
  using rnd_normal[of "- 53" "- (5404319552844595 / 9007199254740992)" "- 5404319552844595"]
  by (simp add: power_int_minus rne_near)

lemma rnd_value_16: "rnd (- (9007199254740992 / 5404319552844595)) = Fin (- (7505999378950827 / 4503599627370496))"
  using rnd_normal[of "- 52" "- (9007199254740992 / 5404319552844595)" "- 7505999378950827"]
  by (simp add: power_int_minus rne_near)

lemma rnd_value_17: "rnd (10808639105689191 / 18014398509481984) = Fin (1351079888211149 / 2251799813685248)"
  using rnd_normal[of "- 53" "10808639105689191 / 18014398509481984" "5404319552844596"] rne_tie[of "(10808639105689191 / 18014398509481984) / 2 powi (- 53)" "5404319552844595"]
  by (simp add: power_int_minus)

lemma rnd_value_18: "rnd (- (900719925474099 / 2251799813685248)) = Fin (- (900719925474099 / 2251799813685248))"
  using rnd_normal[of "- 54" "- (900719925474099 / 2251799813685248)" "- 7205759403792792"]
  by (simp add: power_int_minus rne_near)

lemma rnd_value_19: "rnd (- (2251799813685248 / 900719925474099)) = Fin (- (5629499534213121 / 2251799813685248))"
  using rnd_normal[of "- 51" "- (2251799813685248 / 900719925474099)" "- 5629499534213121"]
  by (simp add: power_int_minus rne_near)

lemma rnd_value_20: "rnd (3602879701896397 / 4503599627370496) = Fin (3602879701896397 / 4503599627370496)"
  using rnd_normal[of "- 53" "3602879701896397 / 4503599627370496" "7205759403792794"]
  by (simp add: power_int_minus rne_near)

lemma rnd_value_21: "rnd (- (900719925474099 / 4503599627370496)) = Fin (- (900719925474099 / 4503599627370496))"
  using rnd_normal[of "- 55" "- (900719925474099 / 4503599627370496)" "- 7205759403792792"]
  by (simp add: power_int_minus rne_near)

lemma rnd_value_22: "rnd (- (4503599627370496 / 900719925474099)) = Fin (- (5629499534213121 / 1125899906842624))"
  using rnd_normal[of "- 50" "- (4503599627370496 / 900719925474099)" "- 5629499534213121"]
  by (simp add: power_int_minus rne_near)

lemma rnd_value_23: "rnd (18014398509481985 / 18014398509481984) = Fin (1)"
  using rnd_normal[of "- 52" "18014398509481985 / 18014398509481984" "4503599627370496"]
  by (simp add: power_int_minus rne_near)

lemma rnd_value_24: "rnd (10808639105689191 / 9007199254740992) = Fin (1351079888211149 / 1125899906842624)"
  using rnd_normal[of "- 52" "10808639105689191 / 9007199254740992" "5404319552844596"] rne_tie[of "(10808639105689191 / 9007199254740992) / 2 powi (- 52)" "5404319552844595"]
  by (simp add: power_int_minus)

lemma rnd_value_25: "rnd (225179981368525 / 1125899906842624) = Fin (225179981368525 / 1125899906842624)"
  using rnd_normal[of "- 55" "225179981368525 / 1125899906842624" "7205759403792800"]
  by (simp add: power_int_minus rne_near)

lemma rnd_value_26: "rnd (1125899906842624 / 225179981368525) = Fin (5629499534213115 / 1125899906842624)"
  using rnd_normal[of "- 50" "1125899906842624 / 225179981368525" "5629499534213115"]
  by (simp add: power_int_minus rne_near)

lemma rnd_value_27: "rnd (25220157913274779 / 18014398509481984) = Fin (6305039478318695 / 4503599627370496)"
  using rnd_normal[of "- 52" "25220157913274779 / 18014398509481984" "6305039478318695"]
  by (simp add: power_int_minus rne_near)

lemma rnd_value_28: "rnd (1801439850948199 / 4503599627370496) = Fin (1801439850948199 / 4503599627370496)"
  using rnd_normal[of "- 54" "1801439850948199 / 4503599627370496" "7205759403792796"]
  by (simp add: power_int_minus rne_near)

lemma rnd_value_29: "rnd (4503599627370496 / 1801439850948199) = Fin (2814749767106559 / 1125899906842624)"
  using rnd_normal[of "- 51" "4503599627370496 / 1801439850948199" "5629499534213118"]
  by (simp add: power_int_minus rne_near)

lemma rnd_value_30: "rnd (3602879701896397 / 2251799813685248) = Fin (3602879701896397 / 2251799813685248)"
  using rnd_normal[of "- 52" "3602879701896397 / 2251799813685248" "7205759403792794"]
  by (simp add: power_int_minus rne_near)

lemma rnd_value_31: "rnd (1351079888211149 / 2251799813685248) = Fin (1351079888211149 / 2251799813685248)"
  using rnd_normal[of "- 53" "1351079888211149 / 2251799813685248" "5404319552844596"]
  by (simp add: power_int_minus rne_near)

lemma rnd_value_32: "rnd (2251799813685248 / 1351079888211149) = Fin (3752999689475413 / 2251799813685248)"
  using rnd_normal[of "- 52" "2251799813685248 / 1351079888211149" "7505999378950826"]
  by (simp add: power_int_minus rne_near)

lemma rnd_value_33: "rnd (32425917317067573 / 18014398509481984) = Fin (8106479329266893 / 4503599627370496)"
  using rnd_normal[of "- 52" "32425917317067573 / 18014398509481984" "8106479329266893"]
  by (simp add: power_int_minus rne_near)

lemma rnd_value_34: "rnd (4503599627370496 / 3602879701896397) = Fin (5 / 4)"
  using rnd_normal[of "- 52" "4503599627370496 / 3602879701896397" "5629499534213120"]
  by (simp add: power_int_minus rne_near)

lemma rnd_value_35: "rnd (18014398509481985 / 9007199254740992) = Fin (2)"
  using rnd_normal[of "- 51" "18014398509481985 / 9007199254740992" "4503599627370496"]
  by (simp add: power_int_minus rne_near)

lemma rnd_value_36: "rnd (6 / 5) = Fin (5404319552844595 / 4503599627370496)"
  using rnd_normal[of "- 52" "6 / 5" "5404319552844595"]
  by (simp add: power_int_minus rne_near)

lemma rnd_value_37: "rnd (1 / 10) = Fin (3602879701896397 / 36028797018963968)"
  using rnd_normal[of "- 56" "1 / 10" "7205759403792794"]
  by (simp add: power_int_minus rne_near)

lemma rnd_value_38: "rnd (3602879701896397 / 36028797018963968) = Fin (3602879701896397 / 36028797018963968)"
  using rnd_normal[of "- 56" "3602879701896397 / 36028797018963968" "7205759403792794"]
  by (simp add: power_int_minus rne_near)

lemma rnd_value_39: "rnd (- (3602879701896397 / 36028797018963968)) = Fin (- (3602879701896397 / 36028797018963968))"
  using rnd_normal[of "- 56" "- (3602879701896397 / 36028797018963968)" "- 7205759403792794"]
  by (simp add: power_int_minus rne_near)

lemma rnd_value_40: "rnd (1 / 100) = Fin (5764607523034235 / 576460752303423488)"
  using rnd_normal[of "- 59" "1 / 100" "5764607523034235"]
  by (simp add: power_int_minus rne_near)

lemma rnd_value_41: "rnd (5764607523034235 / 576460752303423488) = Fin (5764607523034235 / 576460752303423488)"
  using rnd_normal[of "- 59" "5764607523034235 / 576460752303423488" "5764607523034235"]
  by (simp add: power_int_minus rne_near)

lemma rnd_value_42: "rnd (- (5764607523034235 / 576460752303423488)) = Fin (- (5764607523034235 / 576460752303423488))"
  using rnd_normal[of "- 59" "- (5764607523034235 / 576460752303423488)" "- 5764607523034235"]
  by (simp add: power_int_minus rne_near)

lemma rnd_value_43: "rnd (1 / 1000) = Fin (1152921504606847 / 1152921504606846976)"
  using rnd_normal[of "- 62" "1 / 1000" "4611686018427388"]
  by (simp add: power_int_minus rne_near)

lemma rnd_value_44: "rnd (1152921504606847 / 1152921504606846976) = Fin (1152921504606847 / 1152921504606846976)"
  using rnd_normal[of "- 62" "1152921504606847 / 1152921504606846976" "4611686018427388"]
  by (simp add: power_int_minus rne_near)

lemma rnd_value_45: "rnd (- (1152921504606847 / 1152921504606846976)) = Fin (- (1152921504606847 / 1152921504606846976))"
  using rnd_normal[of "- 62" "- (1152921504606847 / 1152921504606846976)" "- 4611686018427388"]
  by (simp add: power_int_minus rne_near)

lemma rnd_value_46: "rnd (- (7378697629483821 / 36893488147419103232)) = Fin (- (7378697629483821 / 36893488147419103232))"
  using rnd_normal[of "- 65" "- (7378697629483821 / 36893488147419103232)" "- 7378697629483821"]
  by (simp add: power_int_minus rne_near)

lemma rnd_value_47: "rnd (- (36028797018963968 / 3602879701896397)) = Fin (- 10)"
  using rnd_normal[of "- 49" "- (36028797018963968 / 3602879701896397)" "- 5629499534213120"]
  by (simp add: power_int_minus rne_near)

lemma rnd_value_48: "rnd (- (576460752303423488 / 5764607523034235)) = Fin (- 100)"
  using rnd_normal[of "- 46" "- (576460752303423488 / 5764607523034235)" "- 7036874417766400"]
  by (simp add: power_int_minus rne_near)

lemma rnd_value_49: "rnd (- (1152921504606846976 / 1152921504606847)) = Fin (- 1000)"
  using rnd_normal[of "- 43" "- (1152921504606846976 / 1152921504606847)" "- 8796093022208000"]
  by (simp add: power_int_minus rne_near)

lemma rnd_value_50: "rnd (- (73786976294838206464 / 7378697629483821)) = Fin (- 10000)"
  using rnd_normal[of "- 39" "- (73786976294838206464 / 7378697629483821)" "- 5497558138880000"]
  by (simp add: power_int_minus rne_near)

lemma rnd_value_51: "rnd (36028797018963968 / 3602879701896397) = Fin (10)"
  using rnd_normal[of "- 49" "36028797018963968 / 3602879701896397" "5629499534213120"]
  by (simp add: power_int_minus rne_near)

lemma rnd_value_52: "rnd (576460752303423488 / 5764607523034235) = Fin (100)"
  using rnd_normal[of "- 46" "576460752303423488 / 5764607523034235" "7036874417766400"]
  by (simp add: power_int_minus rne_near)

lemma rnd_value_53: "rnd (1152921504606846976 / 1152921504606847) = Fin (1000)"
  using rnd_normal[of "- 43" "1152921504606846976 / 1152921504606847" "8796093022208000"]
  by (simp add: power_int_minus rne_near)

lemma rnd_value_54: "rnd (73786976294838206464 / 7378697629483821) = Fin (10000)"
  using rnd_normal[of "- 39" "73786976294838206464 / 7378697629483821" "5497558138880000"]
  by (simp add: power_int_minus rne_near)

lemma rnd_value_55: "rnd (1 / 49) = Fin (5882252574524729 / 288230376151711744)"
  using rnd_normal[of "- 58" "1 / 49" "5882252574524729"]
  by (simp add: power_int_minus rne_near)

lemma rnd_value_56: "rnd (288230376151711721 / 288230376151711744) = Fin (9007199254740991 / 9007199254740992)"
  using rnd_normal[of "- 53" "288230376151711721 / 288230376151711744" "9007199254740991"]
  by (simp add: power_int_minus rne_near)

lemma rnd_value_57: "rnd (9007199254740991 / 9007199254740992) = Fin (9007199254740991 / 9007199254740992)"
  using rnd_normal[of "- 53" "9007199254740991 / 9007199254740992" "9007199254740991"]
  by (simp add: power_int_minus rne_near)

lemma rnd_value_58: "rnd (1 / 50) = Fin (5764607523034235 / 288230376151711744)"
  using rnd_normal[of "- 58" "1 / 50" "5764607523034235"]
  by (simp add: power_int_minus rne_near)

lemmas rnd_values = rnd_value_1 rnd_value_2 rnd_value_3 rnd_value_4 rnd_value_5 rnd_value_6
  rnd_value_7 rnd_value_8 rnd_value_9 rnd_value_10 rnd_value_11 rnd_value_12 rnd_value_13
  rnd_value_14 rnd_value_15 rnd_value_16 rnd_value_17 rnd_value_18 rnd_value_19 rnd_value_20
  rnd_value_21 rnd_value_22 rnd_value_23 rnd_value_24 rnd_value_25 rnd_value_26 rnd_value_27
  rnd_value_28 rnd_value_29 rnd_value_30 rnd_value_31 rnd_value_32 rnd_value_33 rnd_value_34
  rnd_value_35 rnd_value_36 rnd_value_37 rnd_value_38 rnd_value_39 rnd_value_40 rnd_value_41
  rnd_value_42 rnd_value_43 rnd_value_44 rnd_value_45
  rnd_value_46 rnd_value_47 rnd_value_48 rnd_value_49 rnd_value_50 rnd_value_51 rnd_value_52 rnd_value_53 rnd_value_54 rnd_value_55 rnd_value_56 rnd_value_57 rnd_value_58

lemma rnd_sqrt_step_1: "rnd (sqrt (3602879701896397 / 36028797018963968)) = Fin (5696652996790543 / 18014398509481984)"
  using rnd_sqrt[where r = "3602879701896397 / 36028797018963968" and m = "5696652996790543" and k = "- 54"]
  by (simp add: power_int_minus power2_eq_square)

lemma rnd_sqrt_step_2: "rnd (sqrt (5764607523034235 / 576460752303423488)) = Fin (3602879701896397 / 36028797018963968)"
  using rnd_sqrt[where r = "5764607523034235 / 576460752303423488" and m = "7205759403792794" and k = "- 56"]
  by (simp add: power_int_minus power2_eq_square)

lemma rnd_sqrt_step_3: "rnd (sqrt (1152921504606847 / 1152921504606846976)) = Fin (2278661198716217 / 72057594037927936)"
  using rnd_sqrt[where r = "1152921504606847 / 1152921504606846976" and m = "4557322397432434" and k = "- 57"]
  by (simp add: power_int_minus power2_eq_square)

lemma rnd_sqrt_step_4: "rnd (sqrt (7378697629483821 / 73786976294838206464)) = Fin (5764607523034235 / 576460752303423488)"
  using rnd_sqrt[where r = "7378697629483821 / 73786976294838206464" and m = "5764607523034235" and k = "- 59"]
  by (simp add: power_int_minus power2_eq_square)

lemmas rnd_sqrt_values = rnd_sqrt_step_1 rnd_sqrt_step_2 rnd_sqrt_step_3 rnd_sqrt_step_4

section \<open>Properties\<close>

subsection \<open>Evaluation by rewriting\<close>

lemmas parse_simps =
  parseExpression.simps parseAddition.simps parseAddition_loop.simps
  parseMultiplication.simps parseMultiplication_loop.simps parseExponentiation.simps
  parseUnary.simps parsePrimary.simps

declare parse_simps [simp del]

lemmas lex_defs =
  tokenize_def isSpace_def isNumberChar_def isDigit_def isLetter_def
  OPERATORS_def FUNCTIONS_def CONSTANTS_def Let_def


lemma js_simps:
  "num_add js = js_add" "num_sub js = js_sub" "num_mul js = js_mul" "num_div js = js_div"
  "num_neg js = js_neg" "num_eq js = js_eq" "num_lt js = js_lt" "num_le js = js_le"
  "num_lit js = js_parseFloat" "num_of_nat js = (\<lambda>n. rnd (real n))" "num_Infinity js = PInf"
  "parseFloat js = js_parseFloat" "isFinite js = js_isFinite" "toFixed js = js_toFixed"
  "Math_pow js = js_pow" "Math_sqrt js = js_sqrt" "Math_abs js = js_abs" "Math_min js = js_min"
  by (simp_all add: js_def)

lemmas js_lit_defs = js_parseFloat_def digitsValue_def digitValue_def isDigit_def

lemma evaluate_x: "evaluate A ''x'' v = Inr v"
  by (simp add: evaluate_def lex_defs parse_simps)

subsection \<open>Exponentiation\<close>

lemma parseExponentiation_last:
  assumes "parseUnary A x ts = Inr (c, r)" "r \<noteq> []" "\<not> starts_with_caret r"
  shows "parseExponentiation A x ts = Inr (c, r)"
  using assms
  by (subst parseExponentiation.simps) (cases r; auto simp: starts_with_caret_def)

lemma parseExponentiation_caret:
  assumes "parseUnary A x ts = Inr (a, t # r)" "ttype t = OPERATOR" "tvalue t = ''^''"
    and "parseExponentiation A x r = Inr (v, r')"
  shows "parseExponentiation A x ts = Inr (Math_pow A a v, r')"
  using assms by (subst parseExponentiation.simps) simp

text \<open>
  Claim C1. Exponentiation is right-associative: when a unary operand \<open>a\<close> is followed
  by \<open>^\<close>, a unary operand \<open>b\<close>, \<open>^\<close> and a unary operand \<open>c\<close>, and no further \<open>^\<close>
  follows, \<open>parseExponentiation\<close> returns \<open>a ^ (b ^ c)\<close>. In particular \<open>evaluate\<close> of
  \<open>2^3^2\<close> is \<open>Math.pow(2, Math.pow(3, 2))\<close> in every arithmetic, which is 512 on
  doubles (and not \<open>(2^3)^2 = 64\<close>).
\<close>

theorem C1_exponentiation_right_associative:
  "(parseUnary A x ts = Inr (a, t1 # r1) \<and> ttype t1 = OPERATOR \<and> tvalue t1 = ''^'' \<and>
    parseUnary A x r1 = Inr (b, t2 # r2) \<and> ttype t2 = OPERATOR \<and> tvalue t2 = ''^'' \<and>
    parseUnary A x r2 = Inr (c, r3) \<and> r3 \<noteq> [] \<and> \<not> starts_with_caret r3
    \<longrightarrow> parseExponentiation A x ts = Inr (Math_pow A a (Math_pow A b c), r3)) \<and>
   evaluate A ''2^3^2'' v =
     Inr (Math_pow A (parseFloat A ''2'') (Math_pow A (parseFloat A ''3'') (parseFloat A ''2''))) \<and>
   evaluate js ''2^3^2'' (Fin 0) = Inr (Fin 512)"
proof (intro conjI impI)
  assume h: "parseUnary A x ts = Inr (a, t1 # r1) \<and> ttype t1 = OPERATOR \<and> tvalue t1 = ''^'' \<and>
    parseUnary A x r1 = Inr (b, t2 # r2) \<and> ttype t2 = OPERATOR \<and> tvalue t2 = ''^'' \<and>
    parseUnary A x r2 = Inr (c, r3) \<and> r3 \<noteq> [] \<and> \<not> starts_with_caret r3"
  have e3: "parseExponentiation A x r2 = Inr (c, r3)"
    using parseExponentiation_last[of A x r2 c r3] h by blast
  have e2: "parseExponentiation A x r1 = Inr (Math_pow A b c, r3)"
    using parseExponentiation_caret[of A x r1 b t2 r2 c r3] h e3 by blast
  show "parseExponentiation A x ts = Inr (Math_pow A a (Math_pow A b c), r3)"
    using parseExponentiation_caret[of A x ts a t1 r1 "Math_pow A b c" r3] h e2 by blast
next
  show g: "evaluate A ''2^3^2'' v =
     Inr (Math_pow A (parseFloat A ''2'') (Math_pow A (parseFloat A ''3'') (parseFloat A ''2'')))" for A :: "'b arith" and v
    by (simp add: evaluate_def lex_defs parse_simps)
  show "evaluate js ''2^3^2'' (Fin 0) = Inr (Fin 512)"
    by (simp add: g js_simps js_lit_defs)
qed

theorem C1_exponentiation_right_associative_witness:
  "parseUnary js (Fin 0) [tok NUMBER ''2'' 0, tok OPERATOR ''^'' 1, tok NUMBER ''3'' 2,
        tok OPERATOR ''^'' 3, tok NUMBER ''2'' 4, tok EOF [] 5]
     = Inr (Fin 2, [tok OPERATOR ''^'' 1, tok NUMBER ''3'' 2, tok OPERATOR ''^'' 3, tok NUMBER ''2'' 4, tok EOF [] 5]) \<and>
   parseUnary js (Fin 0) [tok NUMBER ''3'' 2, tok OPERATOR ''^'' 3, tok NUMBER ''2'' 4, tok EOF [] 5]
     = Inr (Fin 3, [tok OPERATOR ''^'' 3, tok NUMBER ''2'' 4, tok EOF [] 5]) \<and>
   parseUnary js (Fin 0) [tok NUMBER ''2'' 4, tok EOF [] 5] = Inr (Fin 2, [tok EOF [] 5]) \<and>
   \<not> starts_with_caret [tok EOF [] 5] \<and>
   parseExponentiation js (Fin 0) [tok NUMBER ''2'' 0, tok OPERATOR ''^'' 1, tok NUMBER ''3'' 2,
        tok OPERATOR ''^'' 3, tok NUMBER ''2'' 4, tok EOF [] 5]
     = Inr (Fin 512, [tok EOF [] 5])"
proof -
  let ?r3 = "[tok EOF [] 5]"
  let ?r2 = "tok NUMBER ''2'' 4 # ?r3"
  let ?r1 = "tok NUMBER ''3'' 2 # tok OPERATOR ''^'' 3 # ?r2"
  let ?ts = "tok NUMBER ''2'' 0 # tok OPERATOR ''^'' 1 # ?r1"
  have 1: "parseUnary js (Fin 0) ?ts = Inr (Fin 2, tok OPERATOR ''^'' 1 # ?r1)"
    by (simp add: parse_simps tok_def js_simps js_lit_defs)
  have 2: "parseUnary js (Fin 0) ?r1 = Inr (Fin 3, tok OPERATOR ''^'' 3 # ?r2)"
    by (simp add: parse_simps tok_def js_simps js_lit_defs)
  have 3: "parseUnary js (Fin 0) ?r2 = Inr (Fin 2, ?r3)"
    by (simp add: parse_simps tok_def js_simps js_lit_defs)
  have 4: "\<not> starts_with_caret ?r3" by (simp add: starts_with_caret_def tok_def)
  have 5: "ttype (tok OPERATOR ''^'' 1) = OPERATOR \<and> tvalue (tok OPERATOR ''^'' 1) = ''^'' \<and>
           ttype (tok OPERATOR ''^'' 3) = OPERATOR \<and> tvalue (tok OPERATOR ''^'' 3) = ''^''"
    by (simp add: tok_def)
  have "parseExponentiation js (Fin 0) ?ts = Inr (Math_pow js (Fin 2) (Math_pow js (Fin 3) (Fin 2)), ?r3)"
    using C1_exponentiation_right_associative[of js "Fin 0" ?ts "Fin 2" "tok OPERATOR ''^'' 1" ?r1
        "Fin 3" "tok OPERATOR ''^'' 3" ?r2 "Fin 2" ?r3] 1 2 3 4 5
    by blast
  moreover have "Math_pow js (Fin 2) (Math_pow js (Fin 3) (Fin 2)) = Fin 512"
    by (simp add: js_simps)
  ultimately show ?thesis using 1 2 3 4 by simp
qed

subsection \<open>Division by zero\<close>

lemma evaluateFunction_div_update [simp]:
  "evaluateFunction (A\<lparr>num_div := d\<rparr>) f v = evaluateFunction A f v"
  by (simp add: evaluateFunction_def)

lemma parse_div_guard:
  "(\<forall>p q. \<not> num_eq A q (num_lit A ''0'') \<longrightarrow> d p q = num_div A p q) \<Longrightarrow>
     parseExpression (A\<lparr>num_div := d\<rparr>) x ts = parseExpression A x ts"
  "(\<forall>p q. \<not> num_eq A q (num_lit A ''0'') \<longrightarrow> d p q = num_div A p q) \<Longrightarrow>
     parseAddition (A\<lparr>num_div := d\<rparr>) x ts = parseAddition A x ts"
  "(\<forall>p q. \<not> num_eq A q (num_lit A ''0'') \<longrightarrow> d p q = num_div A p q) \<Longrightarrow>
     parseAddition_loop (A\<lparr>num_div := d\<rparr>) x expr ts = parseAddition_loop A x expr ts"
  "(\<forall>p q. \<not> num_eq A q (num_lit A ''0'') \<longrightarrow> d p q = num_div A p q) \<Longrightarrow>
     parseMultiplication (A\<lparr>num_div := d\<rparr>) x ts = parseMultiplication A x ts"
  "(\<forall>p q. \<not> num_eq A q (num_lit A ''0'') \<longrightarrow> d p q = num_div A p q) \<Longrightarrow>
     parseMultiplication_loop (A\<lparr>num_div := d\<rparr>) x expr ts = parseMultiplication_loop A x expr ts"
  "(\<forall>p q. \<not> num_eq A q (num_lit A ''0'') \<longrightarrow> d p q = num_div A p q) \<Longrightarrow>
     parseExponentiation (A\<lparr>num_div := d\<rparr>) x ts = parseExponentiation A x ts"
  "(\<forall>p q. \<not> num_eq A q (num_lit A ''0'') \<longrightarrow> d p q = num_div A p q) \<Longrightarrow>
     parseUnary (A\<lparr>num_div := d\<rparr>) x ts = parseUnary A x ts"
  "(\<forall>p q. \<not> num_eq A q (num_lit A ''0'') \<longrightarrow> d p q = num_div A p q) \<Longrightarrow>
     parsePrimary (A\<lparr>num_div := d\<rparr>) x ts = parsePrimary A x ts"
proof (induct A x ts and A x ts and A x expr ts and A x ts and A x expr ts and A x ts and A x ts and A x ts
       rule: parseExpression_parseAddition_parseAddition_loop_parseMultiplication_parseMultiplication_loop_parseExponentiation_parseUnary_parsePrimary.induct)
  case (1 A x ts)
  then show ?case by (simp add: parseExpression.simps)
next
  case (2 A x ts)
  have a: "parseMultiplication (A\<lparr>num_div := d\<rparr>) x ts = parseMultiplication A x ts"
    using "2.hyps"(1)[OF "2.prems"] .
  have b: "parseAddition_loop (A\<lparr>num_div := d\<rparr>) x e r = parseAddition_loop A x e r"
    if "parseMultiplication A x ts = Inr (e, r)" for e r
    using "2.hyps"(2)[OF that refl "2.prems"] .
  show ?case
    by (subst (1 2) parseAddition.simps) (simp add: a b split: sum.splits)
next
  case (3 A x expr ts)
  show ?case
  proof (cases "match OPERATOR ts")
    case (Inl e)
    then show ?thesis by (subst (1 2) parseAddition_loop.simps) simp
  next
    case (Inr m)
    show ?thesis
    proof (cases m)
      case None
      with Inr show ?thesis by (subst (1 2) parseAddition_loop.simps) simp
    next
      case (Some p)
      obtain t r where p: "p = (t, r)" by (cases p)
      show ?thesis
      proof (cases "tvalue t = ''+'' \<or> tvalue t = ''-''")
        case False
        with Inr Some p show ?thesis by (subst (1 2) parseAddition_loop.simps) simp
      next
        case True
        have a: "parseMultiplication (A\<lparr>num_div := d\<rparr>) x r = parseMultiplication A x r"
          using "3.hyps"(1)[OF Inr Some _ True "3.prems"] p by simp
        have b: "parseAddition_loop (A\<lparr>num_div := d\<rparr>) x
                   (if tvalue t = ''+'' then num_add A expr right else num_sub A expr right) r' =
                 parseAddition_loop A x
                   (if tvalue t = ''+'' then num_add A expr right else num_sub A expr right) r'"
          if "parseMultiplication A x r = Inr (right, r')" for right r'
          using "3.hyps"(2)[OF Inr Some _ True _ refl "3.prems"] p that by simp
        show ?thesis
          using Inr Some p True b
          by (subst (1 2) parseAddition_loop.simps) (auto simp: a split: sum.splits)
      qed
    qed
  qed
next
  case (4 A x ts)
  have a: "parseExponentiation (A\<lparr>num_div := d\<rparr>) x ts = parseExponentiation A x ts"
    using "4.hyps"(1)[OF "4.prems"] .
  have b: "parseMultiplication_loop (A\<lparr>num_div := d\<rparr>) x e r = parseMultiplication_loop A x e r"
    if "parseExponentiation A x ts = Inr (e, r)" for e r
    using "4.hyps"(2)[OF that refl "4.prems"] .
  show ?case
    by (subst (1 2) parseMultiplication.simps) (simp add: a b split: sum.splits)
next
  case (5 A x expr ts)
  show ?case
  proof (cases "match OPERATOR ts")
    case (Inl e)
    then show ?thesis by (subst (1 2) parseMultiplication_loop.simps) simp
  next
    case (Inr m)
    show ?thesis
    proof (cases m)
      case None
      with Inr show ?thesis by (subst (1 2) parseMultiplication_loop.simps) simp
    next
      case (Some p)
      obtain t r where p: "p = (t, r)" by (cases p)
      show ?thesis
      proof (cases "tvalue t = ''*'' \<or> tvalue t = ''/''")
        case False
        with Inr Some p show ?thesis by (subst (1 2) parseMultiplication_loop.simps) simp
      next
        case True
        have a: "parseExponentiation (A\<lparr>num_div := d\<rparr>) x r = parseExponentiation A x r"
          using "5.hyps"(1)[OF Inr Some _ True "5.prems"] p by simp
        have b: "parseMultiplication_loop (A\<lparr>num_div := d\<rparr>) x
                   (if tvalue t = ''*'' then num_mul A expr right else num_div A expr right) r' =
                 parseMultiplication_loop A x
                   (if tvalue t = ''*'' then num_mul A expr right else num_div A expr right) r'"
          if "parseExponentiation A x r = Inr (right, r')"
            and "\<not> (tvalue t = ''/'' \<and> num_eq A right (num_lit A ''0''))" for right r'
          using "5.hyps"(2)[OF Inr Some _ True _ refl _ "5.prems"] p that by simp
        have c: "d expr right = num_div A expr right"
          if "\<not> num_eq A right (num_lit A ''0'')" for right
          using "5.prems" that by blast
        show ?thesis
          using Inr Some p True b
          by (subst (1 2) parseMultiplication_loop.simps) (auto simp: a c split: sum.splits)
      qed
    qed
  qed
next
  case (6 A x ts)
  have a: "parseUnary (A\<lparr>num_div := d\<rparr>) x ts = parseUnary A x ts"
    using "6.hyps"(1)[OF "6.prems"] .
  have b: "parseExponentiation (A\<lparr>num_div := d\<rparr>) x r' = parseExponentiation A x r'"
    if "parseUnary A x ts = Inr (e, r)" "match OPERATOR r = Inr (Some (t, r'))" "tvalue t = ''^''"
    for e r t r'
    using "6.hyps"(2)[OF that(1) refl that(2) refl refl that(3) "6.prems"] .
  show ?case
    by (subst (1 2) parseExponentiation.simps) (auto simp: a b split: sum.splits option.splits)
next
  case (7 A x ts)
  have a: "parsePrimary (A\<lparr>num_div := d\<rparr>) x ts = parsePrimary A x ts"
    if "match OPERATOR ts = Inr None"
    using "7.hyps"(1)[OF that refl "7.prems"] .
  have b: "parseUnary (A\<lparr>num_div := d\<rparr>) x r = parseUnary A x r"
    if "match OPERATOR ts = Inr (Some (t, r))" "tvalue t = ''-'' \<or> tvalue t = ''+''" for t r
  proof (cases "tvalue t = ''-''")
    case True
    show ?thesis using "7.hyps"(2)[OF that(1) refl refl True "7.prems"] .
  next
    case False
    with that(2) have "tvalue t = ''+''" by simp
    then show ?thesis using "7.hyps"(3)[OF that(1) refl refl False _ "7.prems"] by simp
  qed
  show ?case
    by (subst (1 2) parseUnary.simps) (auto simp: a b split: sum.splits option.splits)
next
  case (8 A x)
  then show ?case by (simp add: parsePrimary.simps)
next
  case (9 A x t r)
  have a: "parseExpression (A\<lparr>num_div := d\<rparr>) x r1 = parseExpression A x r1"
    if "ttype t \<noteq> NUMBER" "ttype t \<noteq> VARIABLE" "ttype t \<noteq> CONSTANT" "ttype t = FUNCTION"
      "match LPAREN r = Inr (Some (t', r1))" for t' r1
    using "9.hyps"(1)[OF that(1-5) refl refl "9.prems"] .
  have b: "parseExpression (A\<lparr>num_div := d\<rparr>) x r = parseExpression A x r"
    if "ttype t \<noteq> NUMBER" "ttype t \<noteq> VARIABLE" "ttype t \<noteq> CONSTANT" "ttype t \<noteq> FUNCTION"
      "ttype t = LPAREN"
    using "9.hyps"(2)[OF that "9.prems"] .
  show ?case
    by (subst (1 2) parsePrimary.simps) (auto simp: a b split: sum.splits option.splits)
qed

lemma evaluate_div_guard:
  assumes "\<forall>p q. \<not> num_eq A q (num_lit A ''0'') \<longrightarrow> d p q = num_div A p q"
  shows "evaluate (A\<lparr>num_div := d\<rparr>) expression x = evaluate A expression x"
  unfolding evaluate_def parse_div_guard(1)[OF assms] ..


lemma parseMultiplication_loop_zero:
  assumes "match OPERATOR ts = Inr (Some (t, r))" "tvalue t = ''/''"
    and "parseExponentiation A x r = Inr (right, r')" "num_eq A right (num_lit A ''0'')"
  shows "parseMultiplication_loop A x expr ts = Inl DivisionByZero"
  using assms by (subst parseMultiplication_loop.simps) simp

lemma evaluate_reciprocal:
  "evaluate A ''1/x'' z =
     (if num_eq A z (num_lit A ''0'') then Inl (InvalidExpression ''1/x'' DivisionByZero)
      else Inr (num_div A (parseFloat A ''1'') z))"
  by (simp add: evaluate_def lex_defs parse_simps)

text \<open>
  Claim C2. A division whose divisor evaluates to exactly zero fails with the domain
  error \<open>Division by zero\<close>: in the loop of \<open>parseMultiplication\<close>, when the operator is
  \<open>/\<close> and the right operand is \<open>=== 0\<close>, the result is the error. The division is never
  performed: \<open>evaluate\<close> does not depend on what \<open>/\<close> would return for a zero divisor. In
  particular \<open>evaluate\<close> of \<open>1/x\<close> at a zero fails with this error, wrapped with the
  expression text.
\<close>

theorem C2_division_by_zero:
  "(match OPERATOR ts = Inr (Some (t, r)) \<and> tvalue t = ''/'' \<and>
    parseExponentiation A x r = Inr (right, r') \<and> num_eq A right (num_lit A ''0'')
    \<longrightarrow> parseMultiplication_loop A x expr ts = Inl DivisionByZero) \<and>
   ((\<forall>p q. \<not> num_eq A q (num_lit A ''0'') \<longrightarrow> d p q = num_div A p q)
    \<longrightarrow> evaluate (A\<lparr>num_div := d\<rparr>) expression x = evaluate A expression x) \<and>
   (num_eq A z (num_lit A ''0'')
    \<longrightarrow> evaluate A ''1/x'' z = Inl (InvalidExpression ''1/x'' DivisionByZero)) \<and>
   evaluate js ''1/x'' (Fin 0) = Inl (InvalidExpression ''1/x'' DivisionByZero)"
proof (intro conjI impI)
  assume "match OPERATOR ts = Inr (Some (t, r)) \<and> tvalue t = ''/'' \<and>
    parseExponentiation A x r = Inr (right, r') \<and> num_eq A right (num_lit A ''0'')"
  then show "parseMultiplication_loop A x expr ts = Inl DivisionByZero"
    using parseMultiplication_loop_zero[of ts t r A x right r' expr] by blast
next
  assume "\<forall>p q. \<not> num_eq A q (num_lit A ''0'') \<longrightarrow> d p q = num_div A p q"
  then show "evaluate (A\<lparr>num_div := d\<rparr>) expression x = evaluate A expression x"
    by (rule evaluate_div_guard)
next
  assume "num_eq A z (num_lit A ''0'')"
  then show "evaluate A ''1/x'' z = Inl (InvalidExpression ''1/x'' DivisionByZero)"
    by (simp add: evaluate_reciprocal)
next
  show "evaluate js ''1/x'' (Fin 0) = Inl (InvalidExpression ''1/x'' DivisionByZero)"
    by (simp add: evaluate_reciprocal js_simps js_lit_defs)
qed

text \<open>
  On doubles: the loop at the tokens of \<open>/x\<close> with \<open>x = 0\<close>; a division that returns 42
  for a zero divisor, which \<open>evaluate\<close> of \<open>1/x\<close> at 0 does not notice; and \<open>1/x\<close> at 0.
\<close>

theorem C2_division_by_zero_witness:
  "match OPERATOR [tok OPERATOR ''/'' 1, tok VARIABLE ''x'' 2, tok EOF [] 3]
     = Inr (Some (tok OPERATOR ''/'' 1, [tok VARIABLE ''x'' 2, tok EOF [] 3])) \<and>
   parseExponentiation js (Fin 0) [tok VARIABLE ''x'' 2, tok EOF [] 3] = Inr (Fin 0, [tok EOF [] 3]) \<and>
   num_eq js (Fin 0) (num_lit js ''0'') \<and>
   parseMultiplication_loop js (Fin 0) (Fin 1) [tok OPERATOR ''/'' 1, tok VARIABLE ''x'' 2, tok EOF [] 3]
     = Inl DivisionByZero \<and>
   evaluate (js\<lparr>num_div := \<lambda>p q. if js_eq q (Fin 0) then Fin 42 else js_div p q\<rparr>) ''1/x'' (Fin 0)
     = evaluate js ''1/x'' (Fin 0) \<and>
   evaluate js ''1/x'' (Fin 0) = Inl (InvalidExpression ''1/x'' DivisionByZero)"
proof -
  let ?ts = "[tok OPERATOR ''/'' 1, tok VARIABLE ''x'' 2, tok EOF [] 3]"
  let ?d = "\<lambda>p q. if js_eq q (Fin 0) then Fin 42 else js_div p q"
  have 1: "match OPERATOR ?ts = Inr (Some (tok OPERATOR ''/'' 1, [tok VARIABLE ''x'' 2, tok EOF [] 3]))"
    by (simp add: tok_def)
  have 2: "parseExponentiation js (Fin 0) [tok VARIABLE ''x'' 2, tok EOF [] 3] = Inr (Fin 0, [tok EOF [] 3])"
    by (simp add: parse_simps tok_def)
  have 3: "num_eq js (Fin 0) (num_lit js ''0'')"
    by (simp add: js_simps js_lit_defs)
  have 4: "tvalue (tok OPERATOR ''/'' 1) = ''/''" by (simp add: tok_def)
  have 5: "\<forall>p q. \<not> num_eq js q (num_lit js ''0'') \<longrightarrow> ?d p q = num_div js p q"
    by (simp add: js_simps js_lit_defs)
  note c = C2_division_by_zero[of ?ts "tok OPERATOR ''/'' 1" "[tok VARIABLE ''x'' 2, tok EOF [] 3]"
      js "Fin 0" "Fin 0" "[tok EOF [] 3]" "Fin 1" ?d "''1/x''" "Fin 0"]
  from c 1 2 3 4 have 6: "parseMultiplication_loop js (Fin 0) (Fin 1) ?ts = Inl DivisionByZero"
    by blast
  from c 5 have 7: "evaluate (js\<lparr>num_div := ?d\<rparr>) ''1/x'' (Fin 0) = evaluate js ''1/x'' (Fin 0)"
    by blast
  from c 3 have 8: "evaluate js ''1/x'' (Fin 0) = Inl (InvalidExpression ''1/x'' DivisionByZero)"
    by blast
  from 1 2 3 6 7 8 show ?thesis by blast
qed

subsection \<open>Simpson's rule\<close>

lemma simpson_loop_foldl:
  assumes "list_all (\<lambda>i. evaluate A e (num_add A a (num_mul A (num_of_nat A i) h)) =
                       Inr (f (num_add A a (num_mul A (num_of_nat A i) h)))) xs"
  shows "simpson_loop A e a h xs s =
         Inr (foldl (\<lambda>s i. num_add A s (num_mul A (if odd i then num_lit A ''4'' else num_lit A ''2'')
                (f (num_add A a (num_mul A (num_of_nat A i) h))))) s xs)"
  using assms
proof (induction xs arbitrary: s)
  case Nil
  then show ?case by simp
next
  case (Cons i xs)
  then show ?case by (simp add: Let_def even_iff_mod_2_eq_zero)
qed

text \<open>
  Claim C3. \<open>calculateDefiniteIntegral\<close> uses \<open>n' = n + 1\<close> for an odd \<open>n\<close> and \<open>n' = n\<close>
  otherwise, sets \<open>h = (b - a) / n'\<close>, and when the evaluations at \<open>a\<close>, at \<open>b\<close> and at the
  interior points \<open>a + i * h\<close>, \<open>i = 1, ..., n' - 1\<close>, all succeed (with the values \<open>f\<close>
  gives), it returns the value \<open>(h / 3) * (f a + f b + \<Sum> w\<^sub>i * f (a + i * h))\<close> with
  weight 4 at odd and 2 at even \<open>i\<close>, the terms added in the order of \<open>i\<close>, and no error.
\<close>

theorem C3_simpson:
  assumes "all_points_succeed A expression f a b n"
  shows "calculateDefiniteIntegral A expression a b n =
         \<lparr>cr_value = simpson_rule A f a b n, cr_error = None\<rparr>"
proof -
  have n: "(if n mod 2 \<noteq> 0 then n + 1 else n) = simpson_n n"
    by (simp add: simpson_n_def odd_iff_mod_2_eq_one)
  show ?thesis
    using assms simpson_loop_foldl[of A expression a "simpson_h A a b n" f "[1..<simpson_n n]" "num_add A (f a) (f b)"]
    unfolding all_points_succeed_def calculateDefiniteIntegral_def n Let_def simpson_rule_def
      simpson_point_def simpson_weight_def
    by (simp add: simpson_h_def)
qed


text \<open>
  The rule on \<open>x\<close> over \<open>[0, 1]\<close> with \<open>n = 1\<close>: the count becomes 2, \<open>h\<close> is \<open>1/2\<close>, and
  \<open>(h / 3) * (0 + 1 + 4 * (1/2))\<close> rounds to \<open>1/2\<close>.
\<close>

theorem C3_simpson_witness:
  "all_points_succeed js ''x'' (\<lambda>v. v) (Fin 0) (Fin 1) 1 \<and>
   calculateDefiniteIntegral js ''x'' (Fin 0) (Fin 1) 1 = \<lparr>cr_value = Fin (1 / 2), cr_error = None\<rparr>"
proof -
  have h: "all_points_succeed js ''x'' (\<lambda>v. v) (Fin 0) (Fin 1) 1"
    by (simp add: all_points_succeed_def evaluate_x list_all_iff)
  have "simpson_rule js (\<lambda>v. v) (Fin 0) (Fin 1) 1 = Fin (1 / 2)"
    by (simp add: simpson_rule_def simpson_n_def simpson_h_def simpson_point_def
        simpson_weight_def upt_rec js_simps js_sub_def js_lit_defs rnd_of_nat rnd_values)
  with C3_simpson[OF h] h show ?thesis by simp
qed

subsection \<open>The steps of the limit\<close>

lemma evaluate_sqrt_x:
  "evaluate A ''sqrt(x)'' v =
     (if num_lt A v (num_lit A ''0'') then Inl (InvalidExpression ''sqrt(x)'' SqrtOfNegative)
      else Inr (Math_sqrt A v))"
  by (simp add: evaluate_def lex_defs parse_simps evaluateFunction_def)

lemma evaluate_sqrt_minus_x:
  "evaluate A ''sqrt(0-x)'' v =
     (if num_lt A (num_sub A (parseFloat A ''0'') v) (num_lit A ''0'')
      then Inl (InvalidExpression ''sqrt(0-x)'' SqrtOfNegative)
      else Inr (Math_sqrt A (num_sub A (parseFloat A ''0'') v)))"
  by (simp add: evaluate_def lex_defs parse_simps evaluateFunction_def)

lemma limit_steps_js: "limit_steps js = [Fin (3602879701896397 / 36028797018963968), Fin (5764607523034235 / 576460752303423488), Fin (1152921504606847 / 1152921504606846976), Fin (7378697629483821 / 73786976294838206464)]"
  by (simp add: limit_steps_def js_simps js_lit_defs rnd_values rnd_sqrt_values)

text \<open>
  Claim C4 is not what \<open>calculateLimit\<close> does. The two evaluations of a step and the two
  \<open>push\<close>es stand in one \<open>try\<close> block, so an evaluation that throws on one side discards
  the other side's value of that step. For \<open>sqrt(x)\<close> at \<open>a = 0\<close> the left evaluation
  throws at each of the four steps and the right evaluation succeeds at each (with
  0.31622776601683794, 0.1, 0.03162277660168379 and 0.01), yet \<open>leftLimit\<close>, \<open>rightLimit\<close>
  and \<open>limit\<close> are all null, where the claim has \<open>rightLimit = 0.01\<close>. For \<open>sqrt(0-x)\<close> the
  sides are exchanged: the right evaluation throws, and the left values, already
  computed, are not kept.
\<close>

theorem C4_limit_step_discarded:
  "limit_steps js = [Fin (3602879701896397 / 36028797018963968), Fin (5764607523034235 / 576460752303423488), Fin (1152921504606847 / 1152921504606846976), Fin (7378697629483821 / 73786976294838206464)] \<and>
   map (\<lambda>s. evaluate js ''sqrt(x)'' (num_sub js (Fin 0) s)) (limit_steps js) =
     replicate 4 (Inl (InvalidExpression ''sqrt(x)'' SqrtOfNegative)) \<and>
   map (\<lambda>s. evaluate js ''sqrt(x)'' (num_add js (Fin 0) s)) (limit_steps js) =
     [Inr (Fin (5696652996790543 / 18014398509481984)),
      Inr (Fin (3602879701896397 / 36028797018963968)),
      Inr (Fin (2278661198716217 / 72057594037927936)),
      Inr (Fin (5764607523034235 / 576460752303423488))] \<and>
   calculateLimit js ''sqrt(x)'' (Fin 0) (default_epsilon js) =
     \<lparr>leftLimit = None, rightLimit = None, limit = None, limitExists = False\<rparr> \<and>
   map (\<lambda>s. evaluate js ''sqrt(0-x)'' (num_sub js (Fin 0) s)) (limit_steps js) =
     [Inr (Fin (5696652996790543 / 18014398509481984)),
      Inr (Fin (3602879701896397 / 36028797018963968)),
      Inr (Fin (2278661198716217 / 72057594037927936)),
      Inr (Fin (5764607523034235 / 576460752303423488))] \<and>
   map (\<lambda>s. evaluate js ''sqrt(0-x)'' (num_add js (Fin 0) s)) (limit_steps js) =
     replicate 4 (Inl (InvalidExpression ''sqrt(0-x)'' SqrtOfNegative)) \<and>
   calculateLimit js ''sqrt(0-x)'' (Fin 0) (default_epsilon js) =
     \<lparr>leftLimit = None, rightLimit = None, limit = None, limitExists = False\<rparr>"
proof -
  have z: "js_parseFloat ''0'' = Fin 0" by (simp add: js_lit_defs)
  have l1: "map (\<lambda>s. evaluate js ''sqrt(x)'' (num_sub js (Fin 0) s)) (limit_steps js) =
     replicate 4 (Inl (InvalidExpression ''sqrt(x)'' SqrtOfNegative))"
    unfolding limit_steps_js
    by (simp add: evaluate_sqrt_x js_simps z js_sub_def rnd_values rnd_sqrt_values numeral_eq_Suc)
  have r1: "map (\<lambda>s. evaluate js ''sqrt(x)'' (num_add js (Fin 0) s)) (limit_steps js) =
     [Inr (Fin (5696652996790543 / 18014398509481984)),
      Inr (Fin (3602879701896397 / 36028797018963968)),
      Inr (Fin (2278661198716217 / 72057594037927936)),
      Inr (Fin (5764607523034235 / 576460752303423488))]"
    unfolding limit_steps_js
    by (simp add: evaluate_sqrt_x js_simps z rnd_values rnd_sqrt_values)
  have c1: "calculateLimit js ''sqrt(x)'' (Fin 0) (default_epsilon js) =
     \<lparr>leftLimit = None, rightLimit = None, limit = None, limitExists = False\<rparr>"
    unfolding calculateLimit_def limit_steps_js
    by (simp add: evaluate_sqrt_x js_simps z js_sub_def rnd_values rnd_sqrt_values lastValue_def limit_decision_def)
  have l2: "map (\<lambda>s. evaluate js ''sqrt(0-x)'' (num_sub js (Fin 0) s)) (limit_steps js) =
     [Inr (Fin (5696652996790543 / 18014398509481984)),
      Inr (Fin (3602879701896397 / 36028797018963968)),
      Inr (Fin (2278661198716217 / 72057594037927936)),
      Inr (Fin (5764607523034235 / 576460752303423488))]"
    unfolding limit_steps_js
    by (simp add: evaluate_sqrt_minus_x js_simps z js_sub_def rnd_values rnd_sqrt_values)
  have r2: "map (\<lambda>s. evaluate js ''sqrt(0-x)'' (num_add js (Fin 0) s)) (limit_steps js) =
     replicate 4 (Inl (InvalidExpression ''sqrt(0-x)'' SqrtOfNegative))"
    unfolding limit_steps_js
    by (simp add: evaluate_sqrt_minus_x js_simps z js_sub_def rnd_values rnd_sqrt_values numeral_eq_Suc)
  have c2: "calculateLimit js ''sqrt(0-x)'' (Fin 0) (default_epsilon js) =
     \<lparr>leftLimit = None, rightLimit = None, limit = None, limitExists = False\<rparr>"
    unfolding calculateLimit_def limit_steps_js
    by (simp add: evaluate_sqrt_minus_x js_simps z js_sub_def rnd_values rnd_sqrt_values lastValue_def limit_decision_def)
  from limit_steps_js l1 r1 c1 l2 r2 c2 show ?thesis by blast
qed

subsection \<open>The limit\<close>

lemma lastValue_last: "lastValue values = (if values = [] then None else Some (last values))"
  by (cases "values = []") (simp_all add: lastValue_def last_conv_nth)

lemma evaluate_zero_pow_x: "evaluate A ''0^x'' v = Inr (Math_pow A (parseFloat A ''0'') v)"
  by (simp add: evaluate_def lex_defs parse_simps)

lemma evaluate_unknown_z:
  "evaluate A ''z'' v = Inl (InvalidExpression ''z'' (UnknownIdentifier ''z'' 0))"
  by (simp add: evaluate_def lex_defs)

text \<open>
  Claim C5. The decision of \<open>calculateLimit\<close>, from what the two sides produced. The loop
  leaves the lists \<open>leftValues\<close> and \<open>rightValues\<close>; a side has produced a value when its
  list is not empty, and its value is the last element. When both sides produced a
  value and \<open>|leftLimit - rightLimit| < epsilon\<close>, the limit exists and is
  \<open>(leftLimit + rightLimit) / 2\<close>; when exactly one side produced a value, \<open>limit\<close> is that
  value and \<open>exists\<close> is false; when neither did, \<open>leftLimit\<close>, \<open>rightLimit\<close> and \<open>limit\<close> are
  null and \<open>exists\<close> is false. (When both produced a value and the values are not within
  \<open>epsilon\<close>, \<open>limit\<close> is null and \<open>exists\<close> is false.) This holds for every \<open>epsilon\<close>, the
  default 0.001 included. The second part states the same decision on the fields of the
  result alone.
\<close>

theorem C5_limit_decision:
  assumes "limit_loop A expression a (limit_steps A) ([], []) = (leftValues, rightValues)"
  shows "calculateLimit A expression a epsilon =
     (if leftValues \<noteq> [] \<and> rightValues \<noteq> [] then
        (if num_lt A (Math_abs A (num_sub A (last leftValues) (last rightValues))) epsilon
         then \<lparr>leftLimit = Some (last leftValues), rightLimit = Some (last rightValues),
               limit = Some (num_div A (num_add A (last leftValues) (last rightValues)) (num_lit A ''2'')),
               limitExists = True\<rparr>
         else \<lparr>leftLimit = Some (last leftValues), rightLimit = Some (last rightValues),
               limit = None, limitExists = False\<rparr>)
      else if leftValues \<noteq> [] then
        \<lparr>leftLimit = Some (last leftValues), rightLimit = None,
         limit = Some (last leftValues), limitExists = False\<rparr>
      else if rightValues \<noteq> [] then
        \<lparr>leftLimit = None, rightLimit = Some (last rightValues),
         limit = Some (last rightValues), limitExists = False\<rparr>
      else \<lparr>leftLimit = None, rightLimit = None, limit = None, limitExists = False\<rparr>) \<and>
   (let R = calculateLimit A expression a epsilon
    in (limit R, limitExists R) =
       (case (leftLimit R, rightLimit R) of
          (Some l, Some r) \<Rightarrow>
            if num_lt A (Math_abs A (num_sub A l r)) epsilon
            then (Some (num_div A (num_add A l r) (num_lit A ''2'')), True)
            else (None, False)
        | (Some l, None) \<Rightarrow> (Some l, False)
        | (None, Some r) \<Rightarrow> (Some r, False)
        | (None, None) \<Rightarrow> (None, False)))"
proof
  show "calculateLimit A expression a epsilon =
     (if leftValues \<noteq> [] \<and> rightValues \<noteq> [] then
        (if num_lt A (Math_abs A (num_sub A (last leftValues) (last rightValues))) epsilon
         then \<lparr>leftLimit = Some (last leftValues), rightLimit = Some (last rightValues),
               limit = Some (num_div A (num_add A (last leftValues) (last rightValues)) (num_lit A ''2'')),
               limitExists = True\<rparr>
         else \<lparr>leftLimit = Some (last leftValues), rightLimit = Some (last rightValues),
               limit = None, limitExists = False\<rparr>)
      else if leftValues \<noteq> [] then
        \<lparr>leftLimit = Some (last leftValues), rightLimit = None,
         limit = Some (last leftValues), limitExists = False\<rparr>
      else if rightValues \<noteq> [] then
        \<lparr>leftLimit = None, rightLimit = Some (last rightValues),
         limit = Some (last rightValues), limitExists = False\<rparr>
      else \<lparr>leftLimit = None, rightLimit = None, limit = None, limitExists = False\<rparr>)"
    unfolding calculateLimit_def assms
    by (simp add: limit_decision_def lastValue_last)
next
  show "(let R = calculateLimit A expression a epsilon
    in (limit R, limitExists R) =
       (case (leftLimit R, rightLimit R) of
          (Some l, Some r) \<Rightarrow>
            if num_lt A (Math_abs A (num_sub A l r)) epsilon
            then (Some (num_div A (num_add A l r) (num_lit A ''2'')), True)
            else (None, False)
        | (Some l, None) \<Rightarrow> (Some l, False)
        | (None, Some r) \<Rightarrow> (Some r, False)
        | (None, None) \<Rightarrow> (None, False)))"
    by (simp add: calculateLimit_def limit_decision_def Let_def split: prod.splits option.splits)
qed

text \<open>
  The four outcomes on doubles, at \<open>a = 0\<close> with the default \<open>epsilon\<close>. For \<open>x\<close> both sides
  end at \<open>-0.0001\<close> and \<open>0.0001\<close>, within \<open>epsilon\<close>: the limit exists and is 0. For \<open>0^x\<close> the
  left values are \<open>Infinity\<close> and are not kept, the right values are 0: the limit is
  the right one, and does not exist. For \<open>1/x\<close> the sides end at \<open>-10000\<close> and \<open>10000\<close>:
  no limit. For the unknown variable \<open>z\<close> no evaluation succeeds: all is null.
\<close>

theorem C5_limit_decision_witness:
  "limit_loop js ''x'' (Fin 0) (limit_steps js) ([], []) =
     ([Fin (- (3602879701896397 / 36028797018963968)), Fin (- (5764607523034235 / 576460752303423488)),
       Fin (- (1152921504606847 / 1152921504606846976)), Fin (- (7378697629483821 / 73786976294838206464))],
      [Fin (3602879701896397 / 36028797018963968), Fin (5764607523034235 / 576460752303423488),
       Fin (1152921504606847 / 1152921504606846976), Fin (7378697629483821 / 73786976294838206464)]) \<and>
   calculateLimit js ''x'' (Fin 0) (default_epsilon js) =
     \<lparr>leftLimit = Some (Fin (- (7378697629483821 / 73786976294838206464))),
      rightLimit = Some (Fin (7378697629483821 / 73786976294838206464)),
      limit = Some (Fin 0), limitExists = True\<rparr> \<and>
   limit_loop js ''0^x'' (Fin 0) (limit_steps js) ([], []) = ([], [Fin 0, Fin 0, Fin 0, Fin 0]) \<and>
   calculateLimit js ''0^x'' (Fin 0) (default_epsilon js) =
     \<lparr>leftLimit = None, rightLimit = Some (Fin 0), limit = Some (Fin 0), limitExists = False\<rparr> \<and>
   limit_loop js ''1/x'' (Fin 0) (limit_steps js) ([], []) =
     ([Fin (- 10), Fin (- 100), Fin (- 1000), Fin (- 10000)],
      [Fin 10, Fin 100, Fin 1000, Fin 10000]) \<and>
   calculateLimit js ''1/x'' (Fin 0) (default_epsilon js) =
     \<lparr>leftLimit = Some (Fin (- 10000)), rightLimit = Some (Fin 10000),
      limit = None, limitExists = False\<rparr> \<and>
   limit_loop js ''z'' (Fin 0) (limit_steps js) ([], []) = ([], []) \<and>
   calculateLimit js ''z'' (Fin 0) (default_epsilon js) =
     \<lparr>leftLimit = None, rightLimit = None, limit = None, limitExists = False\<rparr>"
proof -
  have z: "js_parseFloat ''0'' = Fin 0" by (simp add: js_lit_defs)
  have one: "js_parseFloat ''1'' = Fin 1" by (simp add: js_lit_defs)
  have two: "js_parseFloat ''2'' = Fin 2" by (simp add: js_lit_defs)
  have eps: "default_epsilon js = Fin (1152921504606847 / 1152921504606846976)"
    by (simp add: default_epsilon_def js_simps js_lit_defs rnd_values)
  have l1: "limit_loop js ''x'' (Fin 0) (limit_steps js) ([], []) =
     ([Fin (- (3602879701896397 / 36028797018963968)), Fin (- (5764607523034235 / 576460752303423488)),
       Fin (- (1152921504606847 / 1152921504606846976)), Fin (- (7378697629483821 / 73786976294838206464))],
      [Fin (3602879701896397 / 36028797018963968), Fin (5764607523034235 / 576460752303423488),
       Fin (1152921504606847 / 1152921504606846976), Fin (7378697629483821 / 73786976294838206464)])"
    unfolding limit_steps_js
    by (simp add: evaluate_x js_simps js_sub_def rnd_values)
  have c1: "calculateLimit js ''x'' (Fin 0) (default_epsilon js) =
     \<lparr>leftLimit = Some (Fin (- (7378697629483821 / 73786976294838206464))),
      rightLimit = Some (Fin (7378697629483821 / 73786976294838206464)),
      limit = Some (Fin 0), limitExists = True\<rparr>"
    using C5_limit_decision[OF l1, of "default_epsilon js"]
    by (simp add: eps js_simps js_sub_def two rnd_values)
  have l2: "limit_loop js ''0^x'' (Fin 0) (limit_steps js) ([], []) = ([], [Fin 0, Fin 0, Fin 0, Fin 0])"
    unfolding limit_steps_js
    by (simp add: evaluate_zero_pow_x js_simps js_sub_def z rnd_values)
  have c2: "calculateLimit js ''0^x'' (Fin 0) (default_epsilon js) =
     \<lparr>leftLimit = None, rightLimit = Some (Fin 0), limit = Some (Fin 0), limitExists = False\<rparr>"
    using C5_limit_decision[OF l2, of "default_epsilon js"] by simp
  have l3: "limit_loop js ''1/x'' (Fin 0) (limit_steps js) ([], []) =
     ([Fin (- 10), Fin (- 100), Fin (- 1000), Fin (- 10000)],
      [Fin 10, Fin 100, Fin 1000, Fin 10000])"
    unfolding limit_steps_js
    by (simp add: evaluate_reciprocal js_simps js_sub_def z one rnd_values)
  have c3: "calculateLimit js ''1/x'' (Fin 0) (default_epsilon js) =
     \<lparr>leftLimit = Some (Fin (- 10000)), rightLimit = Some (Fin 10000),
      limit = None, limitExists = False\<rparr>"
    using C5_limit_decision[OF l3, of "default_epsilon js"]
    by (simp add: eps js_simps js_sub_def)
  have l4: "limit_loop js ''z'' (Fin 0) (limit_steps js) ([], []) = ([], [])"
    unfolding limit_steps_js by (simp add: evaluate_unknown_z)
  have c4: "calculateLimit js ''z'' (Fin 0) (default_epsilon js) =
     \<lparr>leftLimit = None, rightLimit = None, limit = None, limitExists = False\<rparr>"
    using C5_limit_decision[OF l4, of "default_epsilon js"] by simp
  from l1 c1 l2 c2 l3 c3 l4 c4 show ?thesis by blast
qed

subsection \<open>The derivative\<close>

lemma evaluate_unknown_y:
  "evaluate A ''y'' v = Inl (InvalidExpression ''y'' (UnknownIdentifier ''y'' 0))"
  by (simp add: evaluate_def lex_defs)

text \<open>
  Claim C6, as amended: \<open>calculateDerivative(formula, x, h)\<close> returns the value
  \<open>(f(x+h) - f(x)) / h\<close> and no error when both evaluations succeed, and when one of them
  fails it returns the value 0 with the error text \<open>Unable to calculate derivative\<close>
  rather than propagating the failure.
\<close>

theorem C6_derivative:
  "(evaluate A expression (num_add A x h) = Inr p \<and> evaluate A expression x = Inr q
    \<longrightarrow> calculateDerivative A expression x h
        = \<lparr>cr_value = num_div A (num_sub A p q) h, cr_error = None\<rparr>) \<and>
   (evaluate A expression (num_add A x h) = Inl e \<or> evaluate A expression x = Inl e
    \<longrightarrow> calculateDerivative A expression x h = derivative_failed A)"
  by (auto simp: calculateDerivative_def derivative_failed_def split: sum.splits)

text \<open>
  On doubles, with the default \<open>h\<close>: the derivative of \<open>x\<close> at 2 is
  \<open>((2 + 0.0001) - 2) / 0.0001 = 1.0000000000021103\<close>, and the unknown identifier \<open>y\<close> gives
  the failure result.
\<close>

theorem C6_derivative_witness:
  "evaluate js ''x'' (num_add js (Fin 2) (default_h js))
     = Inr (Fin (4503824807351865 / 2251799813685248)) \<and>
   evaluate js ''x'' (Fin 2) = Inr (Fin 2) \<and>
   calculateDerivative js ''x'' (Fin 2) (default_h js)
     = \<lparr>cr_value = Fin (140737488355625 / 140737488355328), cr_error = None\<rparr> \<and>
   evaluate js ''y'' (Fin 2) = Inl (InvalidExpression ''y'' (UnknownIdentifier ''y'' 0)) \<and>
   calculateDerivative js ''y'' (Fin 2) (default_h js)
     = \<lparr>cr_value = Fin 0, cr_error = Some ''Unable to calculate derivative''\<rparr>"
proof -
  have h: "default_h js = Fin (7378697629483821 / 73786976294838206464)"
    by (simp add: default_h_def js_simps js_lit_defs rnd_values)
  have 1: "evaluate js ''x'' (num_add js (Fin 2) (default_h js))
             = Inr (Fin (4503824807351865 / 2251799813685248))"
    by (simp add: evaluate_x h js_simps rnd_values)
  have 2: "evaluate js ''x'' (Fin 2) = Inr (Fin 2)" by (rule evaluate_x)
  have 3: "num_div js (num_sub js (Fin (4503824807351865 / 2251799813685248)) (Fin 2)) (default_h js)
             = Fin (140737488355625 / 140737488355328)"
    by (simp add: h js_simps js_sub_def rnd_values)
  have 4: "evaluate js ''y'' (Fin 2) = Inl (InvalidExpression ''y'' (UnknownIdentifier ''y'' 0))"
    by (rule evaluate_unknown_y)
  have 5: "derivative_failed js = \<lparr>cr_value = Fin 0, cr_error = Some ''Unable to calculate derivative''\<rparr>"
    by (simp add: derivative_failed_def js_simps js_lit_defs)
  from C6_derivative[of js "''x''" "Fin 2" "default_h js" "Fin (4503824807351865 / 2251799813685248)" "Fin 2"]
    1 2 3
  have 6: "calculateDerivative js ''x'' (Fin 2) (default_h js) = \<lparr>cr_value = Fin (140737488355625 / 140737488355328), cr_error = None\<rparr>"
    by simp
  from C6_derivative[of js "''y''" "Fin 2" "default_h js" _ _ "InvalidExpression ''y'' (UnknownIdentifier ''y'' 0)"]
    4 5
  have 7: "calculateDerivative js ''y'' (Fin 2) (default_h js)
             = \<lparr>cr_value = Fin 0, cr_error = Some ''Unable to calculate derivative''\<rparr>"
    by simp
  from 1 2 4 6 7 show ?thesis by blast
qed

text \<open>
  The claim as the specification words it names the error text \<open>derivative unavailable\<close>;
  the text the code returns is another.
\<close>

theorem C6_counterexample:
  "calculateDerivative js ''y'' (Fin 0) (default_h js)
     = \<lparr>cr_value = Fin 0, cr_error = Some ''Unable to calculate derivative''\<rparr> \<and>
   calculateDerivative js ''y'' (Fin 0) (default_h js)
     \<noteq> \<lparr>cr_value = Fin 0, cr_error = Some ''derivative unavailable''\<rparr>"
  by (simp add: calculateDerivative_def evaluate_unknown_y js_simps js_lit_defs)

subsection \<open>Sampling\<close>

lemma generatePoints_foldl:
  "foldl (\<lambda>points i.
            let x = f i
            in case evaluate A expression x of
                 Inl e \<Rightarrow> points
               | Inr y \<Rightarrow> if isFinite A y then points @ [(x, y)] else points) acc is
   = acc @ concat (map (\<lambda>i. sample A expression (f i)) is)"
  by (induction "is" arbitrary: acc) (auto simp: sample_def Let_def split: sum.splits)

lemma generatePoints_samples:
  "generatePoints A expression xMin xMax steps =
     concat (map (\<lambda>i. sample A expression (sample_x A xMin xMax steps i)) [0..<Suc steps])"
  unfolding generatePoints_def Let_def sample_x_def
  using generatePoints_foldl[of "\<lambda>i. num_add A xMin (num_mul A (num_of_nat A i)
      (num_div A (num_sub A xMax xMin) (num_of_nat A steps)))" A expression "[]" "[0..<Suc steps]"]
  by (simp add: Let_def)

text \<open>
  The points in order. With finite \<open>xMin \<le> xMax\<close>, a step count below \<open>2^53\<close> (where the
  loop counter is exact) and a finite step, the step is not negative, \<open>i * stepSize\<close>
  grows with \<open>i\<close>, and so does its sum with \<open>xMin\<close>, because rounding is monotone.
\<close>

lemma js_le_PInf: "x \<noteq> NaN \<Longrightarrow> js_le x PInf"
  by (cases x) (auto simp: js_le_def)

lemma js_le_NInf: "x \<noteq> NaN \<Longrightarrow> js_le NInf x"
  by (cases x) (auto simp: js_le_def)

lemma js_le_not_NaN: "js_le u v \<Longrightarrow> u \<noteq> NaN \<and> v \<noteq> NaN"
  by (cases u; cases v) (auto simp: js_le_def)

lemma js_add_Fin_not_NaN: "v \<noteq> NaN \<Longrightarrow> js_add (Fin a) v \<noteq> NaN"
  by (cases v) auto

lemma js_add_mono:
  assumes "js_le u v"
  shows "js_le (js_add (Fin a) u) (js_add (Fin a) v)"
proof -
  have n: "u \<noteq> NaN" "v \<noteq> NaN" using assms js_le_not_NaN by blast+
  show ?thesis
  proof (cases u)
    case (Fin x)
    show ?thesis
    proof (cases v)
      case (Fin y)
      have "x \<le> y" using assms unfolding \<open>u = Fin x\<close> Fin by (auto simp: js_le_def)
      then have "a + x \<le> a + y" by simp
      then have "js_le (rnd (a + x)) (rnd (a + y))" by (rule rnd_mono)
      then show ?thesis unfolding \<open>u = Fin x\<close> Fin by simp
    next
      case PInf
      show ?thesis unfolding \<open>u = Fin x\<close> PInf by (simp add: js_le_PInf)
    next
      case NInf
      then show ?thesis using assms unfolding \<open>u = Fin x\<close> by (simp add: js_le_def)
    next
      case NaN
      then show ?thesis using n by simp
    qed
  next
    case PInf
    then have "v = PInf" using assms by (cases v) (auto simp: js_le_def)
    then show ?thesis unfolding PInf by (simp add: js_le_def)
  next
    case NInf
    have "js_add (Fin a) NInf = NInf" by simp
    then show ?thesis unfolding NInf using js_add_Fin_not_NaN[OF n(2)] by (simp add: js_le_NInf)
  next
    case NaN
    then show ?thesis using n by simp
  qed
qed

lemma step_nonneg:
  assumes ab: "a \<le> b" and st: "steps < 2 ^ 53"
    and fin: "js_isFinite (js_div (js_sub (Fin b) (Fin a)) (rnd (real steps)))"
  shows "\<exists>s. js_div (js_sub (Fin b) (Fin a)) (rnd (real steps)) = Fin s \<and> 0 \<le> s"
proof -
  have n: "rnd (real steps) = Fin (real steps)" using st by (rule rnd_of_nat)
  have sub: "js_sub (Fin b) (Fin a) = rnd (b - a)" by (simp add: js_sub_def)
  have "0 \<le> b - a" using ab by simp
  from rnd_nonneg[OF this] show ?thesis
  proof
    assume "rnd (b - a) = PInf"
    then show ?thesis using fin unfolding sub n by simp
  next
    assume "\<exists>v. rnd (b - a) = Fin v \<and> 0 \<le> v"
    then obtain d where d: "rnd (b - a) = Fin d" "0 \<le> d" by blast
    show ?thesis
    proof (cases "steps = 0")
      case True
      then show ?thesis using fin unfolding sub n d by (simp split: if_splits)
    next
      case False
      then have e: "js_div (Fin d) (Fin (real steps)) = rnd (d / real steps)" by simp
      have "0 \<le> d / real steps" using d(2) by simp
      from rnd_nonneg[OF this] show ?thesis using fin unfolding sub n d e by auto
    qed
  qed
qed

lemma sample_x_mono:
  assumes ab: "a \<le> b" and st: "steps < 2 ^ 53"
    and fin: "js_isFinite (js_div (js_sub (Fin b) (Fin a)) (rnd (real steps)))"
    and ij: "i \<le> j" "j \<le> steps"
  shows "js_le (sample_x js (Fin a) (Fin b) steps i) (sample_x js (Fin a) (Fin b) steps j)"
proof -
  from step_nonneg[OF ab st fin] obtain s
    where s: "js_div (js_sub (Fin b) (Fin a)) (rnd (real steps)) = Fin s" "0 \<le> s" by blast
  have i: "rnd (real i) = Fin (real i)" using ij st by (intro rnd_of_nat) simp
  have j: "rnd (real j) = Fin (real j)" using ij st by (intro rnd_of_nat) simp
  have "real i * s \<le> real j * s" using ij(1) s(2) by (intro mult_right_mono) auto
  then have "js_le (rnd (real i * s)) (rnd (real j * s))" by (rule rnd_mono)
  then have "js_le (js_add (Fin a) (rnd (real i * s))) (js_add (Fin a) (rnd (real j * s)))"
    by (rule js_add_mono)
  then show ?thesis unfolding sample_x_def js_simps s i j by simp
qed

lemma sample_fst: "p \<in> set (sample A expression x) \<Longrightarrow> fst p = x"
  by (auto simp: sample_def split: sum.splits if_splits)

lemma sample_sorted: "sorted_wrt P (sample A expression x)"
  by (auto simp: sample_def split: sum.splits if_splits)

lemma samples_ascending:
  assumes "sorted is" and "\<And>i j. i \<in> set is \<Longrightarrow> j \<in> set is \<Longrightarrow> i \<le> j \<Longrightarrow> num_le A (X i) (X j)"
  shows "ascending_x A (concat (map (\<lambda>i. sample A expression (X i)) is))"
  using assms unfolding ascending_x_def
proof (induction "is")
  case Nil
  then show ?case by simp
next
  case (Cons i rest)
  have 1: "sorted_wrt (\<lambda>p q. num_le A (fst p) (fst q)) (concat (map (\<lambda>i. sample A expression (X i)) rest))"
    using Cons by simp
  have 2: "num_le A (fst p) (fst q)"
    if "p \<in> set (sample A expression (X i))" "q \<in> set (concat (map (\<lambda>i. sample A expression (X i)) rest))" for p q
  proof -
    from that(2) obtain j where j: "j \<in> set rest" "q \<in> set (sample A expression (X j))" by auto
    have "i \<le> j" using Cons.prems(1) j(1) by simp
    then have "num_le A (X i) (X j)" using Cons.prems(2)[of i j] j(1) by simp
    then show ?thesis using sample_fst[OF that(1)] sample_fst[OF j(2)] by simp
  qed
  show ?case using 1 2 sample_sorted by (simp add: sorted_wrt_append)
qed

lemma generatePoints_ascending:
  assumes "isFinite js xMin" "isFinite js xMax" "num_le js xMin xMax" "steps < 2 ^ 53"
    and "isFinite js (num_div js (num_sub js xMax xMin) (num_of_nat js steps))"
  shows "ascending_x js (generatePoints js expression xMin xMax steps)"
proof -
  from assms(1) obtain a where a: "xMin = Fin a" unfolding js_simps by (cases xMin) auto
  from assms(2) obtain b where b: "xMax = Fin b" unfolding js_simps by (cases xMax) auto
  have ab: "a \<le> b" using assms(3) unfolding a b js_simps by (auto simp: js_le_def)
  have fin: "js_isFinite (js_div (js_sub (Fin b) (Fin a)) (rnd (real steps)))"
    using assms(5) unfolding a b js_simps .
  have srt: "sorted [0..<Suc steps]" by (rule sorted_upt)
  have mono: "num_le js (sample_x js (Fin a) (Fin b) steps i) (sample_x js (Fin a) (Fin b) steps j)"
    if "i \<in> set [0..<Suc steps]" "j \<in> set [0..<Suc steps]" "i \<le> j" for i j
  proof -
    have "j \<le> steps" using that(2) by auto
    with sample_x_mono[OF ab assms(4) fin that(3)] show ?thesis unfolding js_simps .
  qed
  show ?thesis unfolding generatePoints_samples a b
    using srt mono by (rule samples_ascending)
qed

lemma sample_x_first:
  assumes a: "rnd a = Fin a"
    and fin: "js_isFinite (js_div (js_sub (Fin b) (Fin a)) (rnd (real n)))"
  shows "sample_x js (Fin a) (Fin b) n 0 = Fin a"
proof -
  from fin obtain s where s: "js_div (js_sub (Fin b) (Fin a)) (rnd (real n)) = Fin s"
    by (cases "js_div (js_sub (Fin b) (Fin a)) (rnd (real n))") auto
  show ?thesis unfolding sample_x_def js_simps s by (simp add: a)
qed

lemma evaluate_one: "evaluate A ''1'' v = Inr (parseFloat A ''1'')"
  by (simp add: evaluate_def lex_defs parse_simps)

text \<open>
  Claim C7, as amended: \<open>generatePoints\<close> never fails (its result is a list); it
  evaluates the formula at the \<open>stepCount + 1\<close> points
  \<open>x\<^sub>i = xMin + i * ((xMax - xMin) / stepCount)\<close>, \<open>i = 0, ..., stepCount\<close>, computed in
  floating point, keeps exactly the samples whose evaluation succeeds with a finite
  value, and returns the kept samples in the order of \<open>i\<close>. On doubles, that order is
  increasing \<open>x\<close> order whenever \<open>xMin \<le> xMax\<close> are finite, \<open>stepCount < 2^53\<close> and the step
  \<open>(xMax - xMin) / stepCount\<close> is finite; and the first point is \<open>xMin\<close> itself when the
  step is finite (\<open>rnd a = Fin a\<close> says that \<open>a\<close> is a double). In particular
  \<open>generatePoints("1/x", -1, 1, 10)\<close> has its sixth point exactly at 0, excludes it, and
  returns the ten other samples, in increasing \<open>x\<close> order.
\<close>

theorem C7_generatePoints:
  "generatePoints A expression xMin xMax steps =
     concat (map (\<lambda>i. sample A expression (sample_x A xMin xMax steps i)) [0..<Suc steps]) \<and>
   (a \<le> b \<and> n < 2 ^ 53 \<and>
    isFinite js (num_div js (num_sub js (Fin b) (Fin a)) (num_of_nat js n)) \<longrightarrow>
      ascending_x js (generatePoints js formula (Fin a) (Fin b) n)) \<and>
   (rnd a = Fin a \<and>
    isFinite js (num_div js (num_sub js (Fin b) (Fin a)) (num_of_nat js n)) \<longrightarrow>
      sample_x js (Fin a) (Fin b) n 0 = Fin a) \<and>
   sample_x js (Fin (- 1)) (Fin 1) 10 5 = Fin 0 \<and>
   sample js ''1/x'' (Fin 0) = [] \<and>
   generatePoints js ''1/x'' (Fin (- 1)) (Fin 1) 10 =
     [(Fin (- 1), Fin (- 1)),
      (Fin (- (3602879701896397 / 4503599627370496)), Fin (- (5 / 4))),
      (Fin (- (5404319552844595 / 9007199254740992)), Fin (- (7505999378950827 / 4503599627370496))),
      (Fin (- (900719925474099 / 2251799813685248)), Fin (- (5629499534213121 / 2251799813685248))),
      (Fin (- (900719925474099 / 4503599627370496)), Fin (- (5629499534213121 / 1125899906842624))),
      (Fin (225179981368525 / 1125899906842624), Fin (5629499534213115 / 1125899906842624)),
      (Fin (1801439850948199 / 4503599627370496), Fin (2814749767106559 / 1125899906842624)),
      (Fin (1351079888211149 / 2251799813685248), Fin (3752999689475413 / 2251799813685248)),
      (Fin (3602879701896397 / 4503599627370496), Fin (5 / 4)),
      (Fin (1), Fin (1))] \<and>
   ascending_x js (generatePoints js ''1/x'' (Fin (- 1)) (Fin 1) 10)"
proof -
  have x0: "sample_x js (Fin (- 1)) (Fin 1) 10 0 = Fin (- 1)"
    by (simp add: sample_x_def js_simps js_sub_def rnd_values)
  have x1: "sample_x js (Fin (- 1)) (Fin 1) 10 (Suc 0) = Fin (- (3602879701896397 / 4503599627370496))"
    by (simp add: sample_x_def js_simps js_sub_def rnd_values)
  have x2: "sample_x js (Fin (- 1)) (Fin 1) 10 2 = Fin (- (5404319552844595 / 9007199254740992))"
    by (simp add: sample_x_def js_simps js_sub_def rnd_values)
  have x3: "sample_x js (Fin (- 1)) (Fin 1) 10 3 = Fin (- (900719925474099 / 2251799813685248))"
    by (simp add: sample_x_def js_simps js_sub_def rnd_values)
  have x4: "sample_x js (Fin (- 1)) (Fin 1) 10 4 = Fin (- (900719925474099 / 4503599627370496))"
    by (simp add: sample_x_def js_simps js_sub_def rnd_values)
  have x5: "sample_x js (Fin (- 1)) (Fin 1) 10 5 = Fin (0)"
    by (simp add: sample_x_def js_simps js_sub_def rnd_values)
  have x6: "sample_x js (Fin (- 1)) (Fin 1) 10 6 = Fin (225179981368525 / 1125899906842624)"
    by (simp add: sample_x_def js_simps js_sub_def rnd_values)
  have x7: "sample_x js (Fin (- 1)) (Fin 1) 10 7 = Fin (1801439850948199 / 4503599627370496)"
    by (simp add: sample_x_def js_simps js_sub_def rnd_values)
  have x8: "sample_x js (Fin (- 1)) (Fin 1) 10 8 = Fin (1351079888211149 / 2251799813685248)"
    by (simp add: sample_x_def js_simps js_sub_def rnd_values)
  have x9: "sample_x js (Fin (- 1)) (Fin 1) 10 9 = Fin (3602879701896397 / 4503599627370496)"
    by (simp add: sample_x_def js_simps js_sub_def rnd_values)
  have x10: "sample_x js (Fin (- 1)) (Fin 1) 10 10 = Fin (1)"
    by (simp add: sample_x_def js_simps js_sub_def rnd_values)
  have s0: "sample js ''1/x'' (Fin (- 1)) = [(Fin (- 1), Fin (- 1))]"
    by (simp add: sample_def evaluate_reciprocal js_simps js_lit_defs rnd_values)
  have s1: "sample js ''1/x'' (Fin (- (3602879701896397 / 4503599627370496))) = [(Fin (- (3602879701896397 / 4503599627370496)), Fin (- (5 / 4)))]"
    by (simp add: sample_def evaluate_reciprocal js_simps js_lit_defs rnd_values)
  have s2: "sample js ''1/x'' (Fin (- (5404319552844595 / 9007199254740992))) = [(Fin (- (5404319552844595 / 9007199254740992)), Fin (- (7505999378950827 / 4503599627370496)))]"
    by (simp add: sample_def evaluate_reciprocal js_simps js_lit_defs rnd_values)
  have s3: "sample js ''1/x'' (Fin (- (900719925474099 / 2251799813685248))) = [(Fin (- (900719925474099 / 2251799813685248)), Fin (- (5629499534213121 / 2251799813685248)))]"
    by (simp add: sample_def evaluate_reciprocal js_simps js_lit_defs rnd_values)
  have s4: "sample js ''1/x'' (Fin (- (900719925474099 / 4503599627370496))) = [(Fin (- (900719925474099 / 4503599627370496)), Fin (- (5629499534213121 / 1125899906842624)))]"
    by (simp add: sample_def evaluate_reciprocal js_simps js_lit_defs rnd_values)
  have s5: "sample js ''1/x'' (Fin (0)) = []"
    by (simp add: sample_def evaluate_reciprocal js_simps js_lit_defs)
  have s6: "sample js ''1/x'' (Fin (225179981368525 / 1125899906842624)) = [(Fin (225179981368525 / 1125899906842624), Fin (5629499534213115 / 1125899906842624))]"
    by (simp add: sample_def evaluate_reciprocal js_simps js_lit_defs rnd_values)
  have s7: "sample js ''1/x'' (Fin (1801439850948199 / 4503599627370496)) = [(Fin (1801439850948199 / 4503599627370496), Fin (2814749767106559 / 1125899906842624))]"
    by (simp add: sample_def evaluate_reciprocal js_simps js_lit_defs rnd_values)
  have s8: "sample js ''1/x'' (Fin (1351079888211149 / 2251799813685248)) = [(Fin (1351079888211149 / 2251799813685248), Fin (3752999689475413 / 2251799813685248))]"
    by (simp add: sample_def evaluate_reciprocal js_simps js_lit_defs rnd_values)
  have s9: "sample js ''1/x'' (Fin (3602879701896397 / 4503599627370496)) = [(Fin (3602879701896397 / 4503599627370496), Fin (5 / 4))]"
    by (simp add: sample_def evaluate_reciprocal js_simps js_lit_defs rnd_values)
  have s10: "sample js ''1/x'' (Fin (1)) = [(Fin (1), Fin (1))]"
    by (simp add: sample_def evaluate_reciprocal js_simps js_lit_defs rnd_values)
  have g: "generatePoints js ''1/x'' (Fin (- 1)) (Fin 1) 10 =
     [(Fin (- 1), Fin (- 1)),
      (Fin (- (3602879701896397 / 4503599627370496)), Fin (- (5 / 4))),
      (Fin (- (5404319552844595 / 9007199254740992)), Fin (- (7505999378950827 / 4503599627370496))),
      (Fin (- (900719925474099 / 2251799813685248)), Fin (- (5629499534213121 / 2251799813685248))),
      (Fin (- (900719925474099 / 4503599627370496)), Fin (- (5629499534213121 / 1125899906842624))),
      (Fin (225179981368525 / 1125899906842624), Fin (5629499534213115 / 1125899906842624)),
      (Fin (1801439850948199 / 4503599627370496), Fin (2814749767106559 / 1125899906842624)),
      (Fin (1351079888211149 / 2251799813685248), Fin (3752999689475413 / 2251799813685248)),
      (Fin (3602879701896397 / 4503599627370496), Fin (5 / 4)),
      (Fin (1), Fin (1))]"
  proof -
    have idx: "[0..<Suc 10] = [0, 1, 2, 3, 4, 5, 6, 7, 8, 9, 10]"
      by (simp add: upt_rec)
    show ?thesis
      unfolding generatePoints_samples idx
      by (simp add: x0 x1 x2 x3 x4 x5 x6 x7 x8 x9 x10 s0 s1 s2 s3 s4 s5 s6 s7 s8 s9 s10)
  qed
  have a: "ascending_x js (generatePoints js ''1/x'' (Fin (- 1)) (Fin 1) 10)"
    unfolding g by (simp add: ascending_x_def js_simps js_le_def)
  have asc: "a \<le> b \<and> n < 2 ^ 53 \<and>
      isFinite js (num_div js (num_sub js (Fin b) (Fin a)) (num_of_nat js n)) \<longrightarrow>
      ascending_x js (generatePoints js formula (Fin a) (Fin b) n)"
  proof (intro impI, elim conjE)
    assume ab: "a \<le> b" and n: "n < 2 ^ 53"
      and f: "isFinite js (num_div js (num_sub js (Fin b) (Fin a)) (num_of_nat js n))"
    have le: "num_le js (Fin a) (Fin b)"
      using ab by (simp add: js_simps js_le_def less_eq_real_def)
    have "isFinite js (Fin a)" "isFinite js (Fin b)" by (simp_all add: js_simps)
    then show "ascending_x js (generatePoints js formula (Fin a) (Fin b) n)"
      using le n f by (rule generatePoints_ascending)
  qed
  have first: "rnd a = Fin a \<and>
      isFinite js (num_div js (num_sub js (Fin b) (Fin a)) (num_of_nat js n)) \<longrightarrow>
      sample_x js (Fin a) (Fin b) n 0 = Fin a"
    using sample_x_first[of a b n] by (simp add: js_simps)
  from generatePoints_samples[of A expression xMin xMax steps] asc first x5 s5 g a
  show ?thesis by blast
qed

theorem C7_generatePoints_witness:
  "(- 10 :: real) \<le> 10 \<and> (1000 :: nat) < 2 ^ 53 \<and> rnd (- 10) = Fin (- 10) \<and>
   isFinite js (num_div js (num_sub js (Fin 10) (Fin (- 10))) (num_of_nat js 1000)) \<and>
   ascending_x js (generatePoints js ''x^2'' (Fin (- 10)) (Fin 10) 1000) \<and>
   sample_x js (Fin (- 10)) (Fin 10) 1000 0 = Fin (- 10)"
proof -
  have f: "isFinite js (num_div js (num_sub js (Fin 10) (Fin (- 10))) (num_of_nat js 1000))"
    by (simp add: js_simps js_sub_def rnd_values)
  have r: "rnd (- 10) = Fin (- 10)" by simp
  have b: "(- 10 :: real) \<le> 10 \<and> (1000 :: nat) < 2 ^ 53" by simp
  from C7_generatePoints[where A = js and expression = "''x^2''" and xMin = "Fin (- 10)"
      and xMax = "Fin 10" and steps = 1000 and a = "- 10" and b = 10 and n = 1000
      and formula = "''x^2''"] f r b
  show ?thesis by blast
qed

text \<open>
  The claim as first stated has the samples in increasing \<open>x\<close> order, and both bounds
  among the points, for every \<open>xMin\<close>, \<open>xMax\<close> and step count. The samples come in the order
  of \<open>i\<close>: with \<open>xMax < xMin\<close> the points decrease, \<open>generatePoints("x", 1, 0, 1)\<close> is the sample
  at 1 followed by the sample at 0. The last point is \<open>xMin + stepCount * stepSize\<close>, which
  rounding can leave below \<open>xMax\<close>: from 0 to 1 in 49 steps it is \<open>1 - 2^(-53)\<close>, and none of
  the 50 points is 1. And when
  \<open>xMax - xMin\<close> overflows the step is \<open>Infinity\<close>, the first point is \<open>NaN\<close> and the others
  are \<open>Infinity\<close>: for the constant formula \<open>1\<close> they are all kept.
\<close>

theorem C7_counterexample:
  "generatePoints js ''x'' (Fin 1) (Fin 0) 1 = [(Fin 1, Fin 1), (Fin 0, Fin 0)] \<and>
   \<not> ascending_x js (generatePoints js ''x'' (Fin 1) (Fin 0) 1) \<and>
   sample_x js (Fin 0) (Fin 1) 49 49 = Fin (9007199254740991 / 9007199254740992) \<and>
   Fin 1 \<notin> set (map (sample_x js (Fin 0) (Fin 1) 49) [0..<Suc 49]) \<and>
   generatePoints js ''1'' (Fin (- (2 ^ 1023))) (Fin (2 ^ 1023)) 1 = [(NaN, Fin 1), (PInf, Fin 1)] \<and>
   \<not> ascending_x js (generatePoints js ''1'' (Fin (- (2 ^ 1023))) (Fin (2 ^ 1023)) 1)"
proof -
  have g: "generatePoints js ''x'' (Fin 1) (Fin 0) 1 = [(Fin 1, Fin 1), (Fin 0, Fin 0)]"
    unfolding generatePoints_samples
    by (simp add: upt_rec sample_x_def sample_def evaluate_x js_simps js_sub_def)
  have n: "\<not> ascending_x js (generatePoints js ''x'' (Fin 1) (Fin 0) 1)"
    unfolding g by (simp add: ascending_x_def js_simps js_le_def)
  have l: "sample_x js (Fin 0) (Fin 1) 49 49 = Fin (9007199254740991 / 9007199254740992)"
    by (simp add: sample_x_def js_simps js_sub_def rnd_values)
  have nb: "Fin 1 \<notin> set (map (sample_x js (Fin 0) (Fin 1) 49) [0..<Suc 49])"
  proof
    assume "Fin 1 \<in> set (map (sample_x js (Fin 0) (Fin 1) 49) [0..<Suc 49])"
    then obtain i where i: "i < 50" "Fin 1 = sample_x js (Fin 0) (Fin 1) 49 i" by auto
    have i49: "i \<le> 49" using i(1) by linarith
    have fin: "js_isFinite (js_div (js_sub (Fin 1) (Fin 0)) (rnd (real 49)))"
      by (simp add: js_sub_def rnd_values)
    have "js_le (sample_x js (Fin 0) (Fin 1) 49 i) (sample_x js (Fin 0) (Fin 1) 49 49)"
      using fin i49 by (intro sample_x_mono) simp_all
    then show False unfolding i(2)[symmetric] l by (simp add: js_le_def)
  qed
  define big :: real where "big = 2 ^ 1023"
  have "rnd (big + big) = PInf" unfolding big_def by (rule rnd_overflow_pos) simp
  then have w: "js_sub (Fin big) (Fin (- big)) = PInf"
    unfolding js_sub_def by (simp only: js_neg.simps js_add.simps minus_minus)
  have one: "js_parseFloat ''1'' = Fin 1" by (simp add: js_lit_defs)
  have x0: "sample_x js (Fin (- big)) (Fin big) (Suc 0) 0 = NaN"
    unfolding sample_x_def js_simps w by simp
  have x1: "sample_x js (Fin (- big)) (Fin big) (Suc 0) (Suc 0) = PInf"
    unfolding sample_x_def js_simps w by simp
  have idx: "[0..<Suc 1] = [0, Suc 0]" by (simp add: upt_rec)
  have h: "generatePoints js ''1'' (Fin (- big)) (Fin big) 1 = [(NaN, Fin 1), (PInf, Fin 1)]"
    unfolding generatePoints_samples idx
    by (simp add: x0 x1 sample_def evaluate_one js_simps one)
  have m: "\<not> ascending_x js (generatePoints js ''1'' (Fin (- big)) (Fin big) 1)"
    unfolding h by (simp add: ascending_x_def js_simps js_le_def)
  from g n l nb h m show ?thesis unfolding big_def by blast
qed

subsection \<open>Number tokens\<close>

text \<open>
  Claim C8 is not what the lexer does. A lone \<open>.\<close> is a lexical error, but the only test
  on a run of digits and dots is \<open>numStr === '.'\<close>: a run with two or more dots becomes a
  Number token, and \<open>parseFloat\<close> then reads its longest numeric prefix. \<open>1.2.3\<close> is lexed
  as one Number and evaluates to 1.2, and \<open>..\<close> is lexed as one Number and evaluates to
  \<open>NaN\<close>.
\<close>

theorem C8_number_runs:
  "tokenize ''.'' = Inl (InvalidNumberFormat 1) \<and>
   tokenize ''1.2.3'' = Inr [tok NUMBER ''1.2.3'' 0, tok EOF [] 5] \<and>
   tokenize ''..'' = Inr [tok NUMBER ''..'' 0, tok EOF [] 2] \<and>
   evaluate js ''1.2.3'' (Fin 0) = Inr (Fin (5404319552844595 / 4503599627370496)) \<and>
   evaluate js ''..'' (Fin 0) = Inr NaN"
proof -
  have 1: "tokenize ''.'' = Inl (InvalidNumberFormat 1)"
    by (simp add: lex_defs)
  have 2: "tokenize ''1.2.3'' = Inr [tok NUMBER ''1.2.3'' 0, tok EOF [] 5]"
    by (simp add: lex_defs tok_def)
  have 3: "tokenize ''..'' = Inr [tok NUMBER ''..'' 0, tok EOF [] 2]"
    by (simp add: lex_defs tok_def)
  have 4: "evaluate js ''1.2.3'' (Fin 0) = Inr (Fin (5404319552844595 / 4503599627370496))"
    unfolding evaluate_def 2
    by (simp add: parse_simps tok_def js_simps js_lit_defs rnd_values)
  have 5: "evaluate js ''..'' (Fin 0) = Inr NaN"
    unfolding evaluate_def 3
    by (simp add: parse_simps tok_def js_simps js_lit_defs)
  from 1 2 3 4 5 show ?thesis by blast
qed

subsection \<open>Non-finite values\<close>

lemma foldl_points_finite:
  assumes "list_all (\<lambda>p. isFinite A (snd p)) acc"
    and "\<And>points i. list_all (\<lambda>p. isFinite A (snd p)) points \<Longrightarrow>
           list_all (\<lambda>p. isFinite A (snd p)) (step points i)"
  shows "list_all (\<lambda>p. isFinite A (snd p)) (foldl step acc is)"
  using assms(1) by (induction "is" arbitrary: acc) (simp_all add: assms(2))

lemma generatePoints_finite:
  "list_all (\<lambda>p. isFinite A (snd p)) (generatePoints A expression xMin xMax steps)"
  unfolding generatePoints_def Let_def
  by (rule foldl_points_finite) (auto split: sum.splits)

lemma calculateDerivativePoints_finite:
  "list_all (\<lambda>p. isFinite A (snd p)) (calculateDerivativePoints A expression xMin xMax steps)"
  unfolding calculateDerivativePoints_def Let_def
  by (rule foldl_points_finite) auto

lemma limit_loop_finite:
  assumes "list_all (isFinite A) ls" "list_all (isFinite A) rs"
    and "limit_loop A expression a steps (ls, rs) = (ls', rs')"
  shows "list_all (isFinite A) ls' \<and> list_all (isFinite A) rs'"
  using assms
proof (induction steps arbitrary: ls rs)
  case Nil
  then show ?case by simp
next
  case (Cons step steps)
  obtain ls1 rs1 where s: "(case evaluate A expression (num_sub A a step) of
          Inl e \<Rightarrow> (ls, rs)
        | Inr leftVal \<Rightarrow>
            (case evaluate A expression (num_add A a step) of
               Inl e \<Rightarrow> (ls, rs)
             | Inr rightVal \<Rightarrow>
                 (if isFinite A leftVal then ls @ [leftVal] else ls,
                  if isFinite A rightVal then rs @ [rightVal] else rs))) = (ls1, rs1)"
    by (cases "(case evaluate A expression (num_sub A a step) of
          Inl e \<Rightarrow> (ls, rs)
        | Inr leftVal \<Rightarrow>
            (case evaluate A expression (num_add A a step) of
               Inl e \<Rightarrow> (ls, rs)
             | Inr rightVal \<Rightarrow>
                 (if isFinite A leftVal then ls @ [leftVal] else ls,
                  if isFinite A rightVal then rs @ [rightVal] else rs)))") auto
  have f: "list_all (isFinite A) ls1 \<and> list_all (isFinite A) rs1"
    using s Cons.prems(1,2) by (auto split: sum.splits if_splits)
  have "limit_loop A expression a steps (ls1, rs1) = (ls', rs')"
    using Cons.prems(3) s by simp
  with Cons.IH[of ls1 rs1] f show ?case by blast
qed

lemma lastValue_finite:
  "list_all P values \<Longrightarrow> (case lastValue values of None \<Rightarrow> True | Some v \<Rightarrow> P v)"
  by (auto simp: lastValue_def list_all_iff)

lemma leftLimit_limit_decision [simp]: "leftLimit (limit_decision A epsilon l r) = l"
  by (simp add: limit_decision_def split: option.splits)

lemma rightLimit_limit_decision [simp]: "rightLimit (limit_decision A epsilon l r) = r"
  by (simp add: limit_decision_def split: option.splits)

lemma calculateLimit_finite:
  "(case leftLimit (calculateLimit A expression a epsilon) of None \<Rightarrow> True | Some v \<Rightarrow> isFinite A v) \<and>
   (case rightLimit (calculateLimit A expression a epsilon) of None \<Rightarrow> True | Some v \<Rightarrow> isFinite A v)"
proof -
  obtain ls rs where l: "limit_loop A expression a (limit_steps A) ([], []) = (ls, rs)"
    by (cases "limit_loop A expression a (limit_steps A) ([], [])") auto
  have "list_all (isFinite A) ls \<and> list_all (isFinite A) rs"
    using limit_loop_finite[OF _ _ l] by simp
  then show ?thesis
    using lastValue_finite[of "isFinite A" ls] lastValue_finite[of "isFinite A" rs]
    by (simp add: calculateLimit_def l)
qed

lemma evaluate_ten_pow: "evaluate A ''10^400'' v = Inr (Math_pow A (parseFloat A ''10'') (parseFloat A ''400''))"
  by (simp add: evaluate_def lex_defs parse_simps)

text \<open>
  Claim C9, as amended: non-finite values are filtered out by the sampling operations:
  every sample of \<open>generatePoints\<close> and of \<open>calculateDerivativePoints\<close> has a finite \<open>y\<close>, and
  \<open>leftLimit\<close> and \<open>rightLimit\<close> of \<open>calculateLimit\<close> are finite when they are not null. Direct
  evaluation raises an explicit error at its domain checks: the logarithms of an
  argument \<open><= 0\<close>, the square root of an argument \<open>< 0\<close>, and a division by a value
  \<open>=== 0\<close>.
\<close>

theorem C9_non_finite_filtered:
  "list_all (\<lambda>p. isFinite A (snd p)) (generatePoints A expression xMin xMax steps) \<and>
   list_all (\<lambda>p. isFinite A (snd p)) (calculateDerivativePoints A expression xMin xMax steps) \<and>
   (case leftLimit (calculateLimit A expression a epsilon) of None \<Rightarrow> True | Some v \<Rightarrow> isFinite A v) \<and>
   (case rightLimit (calculateLimit A expression a epsilon) of None \<Rightarrow> True | Some v \<Rightarrow> isFinite A v) \<and>
   (num_le A v (num_lit A ''0'') \<longrightarrow>
      evaluateFunction A ''ln'' v = Inl LnOfNonPositive \<and>
      evaluateFunction A ''log'' v = Inl LogOfNonPositive) \<and>
   (num_lt A v (num_lit A ''0'') \<longrightarrow> evaluateFunction A ''sqrt'' v = Inl SqrtOfNegative) \<and>
   (num_eq A z (num_lit A ''0'') \<longrightarrow>
      evaluate A ''1/x'' z = Inl (InvalidExpression ''1/x'' DivisionByZero))"
  using generatePoints_finite[of A expression xMin xMax steps]
    calculateDerivativePoints_finite[of A expression xMin xMax steps]
    calculateLimit_finite[of A expression a epsilon]
  by (simp add: evaluateFunction_def evaluate_reciprocal)

text \<open>
  On doubles: the two samples of \<open>x\<close> on \<open>[0, 1]\<close> with one step are finite; the domain
  checks at \<open>-1\<close>; the division at 0.
\<close>

theorem C9_non_finite_filtered_witness:
  "generatePoints js ''x'' (Fin 0) (Fin 1) 1 = [(Fin 0, Fin 0), (Fin 1, Fin 1)] \<and>
   list_all (\<lambda>p. isFinite js (snd p)) (generatePoints js ''x'' (Fin 0) (Fin 1) 1) \<and>
   num_le js (Fin (- 1)) (num_lit js ''0'') \<and>
   evaluateFunction js ''ln'' (Fin (- 1)) = Inl LnOfNonPositive \<and>
   evaluateFunction js ''log'' (Fin (- 1)) = Inl LogOfNonPositive \<and>
   num_lt js (Fin (- 1)) (num_lit js ''0'') \<and>
   evaluateFunction js ''sqrt'' (Fin (- 1)) = Inl SqrtOfNegative \<and>
   num_eq js (Fin 0) (num_lit js ''0'') \<and>
   evaluate js ''1/x'' (Fin 0) = Inl (InvalidExpression ''1/x'' DivisionByZero)"
proof -
  have g: "generatePoints js ''x'' (Fin 0) (Fin 1) 1 = [(Fin 0, Fin 0), (Fin 1, Fin 1)]"
    unfolding generatePoints_samples
    by (simp add: upt_rec sample_x_def sample_def evaluate_x js_simps js_sub_def)
  have 1: "num_le js (Fin (- 1)) (num_lit js ''0'')" by (simp add: js_simps js_lit_defs js_le_def)
  have 2: "num_lt js (Fin (- 1)) (num_lit js ''0'')" by (simp add: js_simps js_lit_defs)
  have 3: "num_eq js (Fin 0) (num_lit js ''0'')" by (simp add: js_simps js_lit_defs)
  note c = C9_non_finite_filtered[of js "''x''" "Fin 0" "Fin 1" 1 "Fin 0" "Fin 1" "Fin (- 1)" "Fin 0"]
  from c g 1 2 3 show ?thesis by simp
qed

text \<open>
  The claim as first stated has \<open>evaluate\<close> never return a non-finite value, and no
  per-point operation pass one through. \<open>evaluate\<close> has no finiteness test: \<open>10^400\<close>
  overflows to \<open>Infinity\<close>, which \<open>evaluate\<close> returns, and \<open>calculateRiemannSum\<close> puts it into
  the sum and into the rectangle.
\<close>

theorem C9_counterexample:
  "evaluate js ''10^400'' (Fin 0) = Inr PInf \<and>
   \<not> isFinite js PInf \<and>
   calculateRiemannSum js ''10^400'' (Fin 0) (Fin 1) 1
     = \<lparr>rs_value = PInf,
        rs_rectangles = [\<lparr>rect_x = Fin 0, rect_y = Fin 0, rect_width = Fin 1, rect_height = PInf\<rparr>]\<rparr>"
proof -
  have ovf: "rnd (10 ^ 400) = PInf" by (rule rnd_overflow_pos) simp
  have p0: "js_pow (Fin 10) (Fin 400) = rnd (10 ^ 400)" by simp
  have p: "js_pow (Fin 10) (Fin 400) = PInf" unfolding p0 ovf ..
  have pf: "js_parseFloat ''10'' = Fin 10" "js_parseFloat ''400'' = Fin 400"
    by (simp_all add: js_lit_defs)
  have e: "evaluate js ''10^400'' v = Inr PInf" for v
    by (simp only: evaluate_ten_pow js_simps pf p)
  have r: "calculateRiemannSum js ''10^400'' (Fin 0) (Fin 1) 1
     = \<lparr>rs_value = PInf,
        rs_rectangles = [\<lparr>rect_x = Fin 0, rect_y = Fin 0, rect_width = Fin 1, rect_height = PInf\<rparr>]\<rparr>"
    by (simp add: calculateRiemannSum_def e Let_def js_simps js_lit_defs js_sub_def)
  from e[of "Fin 0"] r show ?thesis by (simp add: js_simps)
qed

subsection \<open>Tangent and normal line\<close>

lemma evaluate_one_plus_sqrt:
  "evaluate A ''1+sqrt(0-x)'' v =
     (if num_lt A (num_sub A (parseFloat A ''0'') v) (num_lit A ''0'')
      then Inl (InvalidExpression ''1+sqrt(0-x)'' SqrtOfNegative)
      else Inr (num_add A (parseFloat A ''1'') (Math_sqrt A (num_sub A (parseFloat A ''0'') v))))"
  by (simp add: evaluate_def lex_defs parse_simps evaluateFunction_def)

text \<open>
  Claim C10, as amended: \<open>calculateTangentLine\<close> and \<open>calculateNormalLine\<close> always return a
  line (their result type has no failure), and when the evaluation of the formula at
  \<open>x0\<close> fails they return the lines \<open>{slope: 0, yIntercept: 0, equation: "y = 0",
  point: (x0, 0)}\<close> and \<open>{slope: 0, yIntercept: 0, equation: "y = 0"}\<close>, which carry no error
  field.
\<close>

theorem C10_lines_sentinel:
  "evaluate A expression x0 = Inl e \<Longrightarrow>
     calculateTangentLine A expression x0 = tangent_sentinel A x0 \<and>
     calculateNormalLine A expression x0 = normal_sentinel A"
  by (simp add: calculateTangentLine_def calculateNormalLine_def tangent_sentinel_def
      normal_sentinel_def Let_def)

theorem C10_lines_sentinel_witness:
  "evaluate js ''1/x'' (Fin 0) = Inl (InvalidExpression ''1/x'' DivisionByZero) \<and>
   calculateTangentLine js ''1/x'' (Fin 0)
     = \<lparr>tl_slope = Fin 0, tl_yIntercept = Fin 0, tl_equation = ''y = 0'', tl_point = (Fin 0, Fin 0)\<rparr> \<and>
   calculateNormalLine js ''1/x'' (Fin 0)
     = \<lparr>nl_slope = Fin 0, nl_yIntercept = Fin 0, nl_equation = ''y = 0''\<rparr>"
proof -
  have h: "evaluate js ''1/x'' (Fin 0) = Inl (InvalidExpression ''1/x'' DivisionByZero)"
    by (simp add: evaluate_reciprocal js_simps js_lit_defs)
  have "num_lit js ''0'' = Fin 0" by (simp add: js_simps js_lit_defs)
  with C10_lines_sentinel[OF h] h show ?thesis
    by (simp add: tangent_sentinel_def normal_sentinel_def)
qed

text \<open>
  The claim as first stated has the two lines for a failure of any internal evaluation.
  For \<open>1+sqrt(0-x)\<close> at \<open>x0 = 0\<close> the evaluation at \<open>x0\<close> succeeds (with 1) and the evaluation
  at \<open>x0 + h\<close> inside \<open>calculateDerivative\<close> fails; the slope is then the value 0 of the
  failed derivative, the tangent is the horizontal line through \<open>(0, 1)\<close> and the normal
  is the vertical line \<open>x = 0.00\<close>.
\<close>

theorem C10_counterexample:
  "evaluate js ''1+sqrt(0-x)'' (num_add js (Fin 0) (default_h js))
     = Inl (InvalidExpression ''1+sqrt(0-x)'' SqrtOfNegative) \<and>
   calculateTangentLine js ''1+sqrt(0-x)'' (Fin 0)
     = \<lparr>tl_slope = Fin 0, tl_yIntercept = Fin 1, tl_equation = ''y = 1.00'', tl_point = (Fin 0, Fin 1)\<rparr> \<and>
   calculateNormalLine js ''1+sqrt(0-x)'' (Fin 0)
     = \<lparr>nl_slope = PInf, nl_yIntercept = Fin 0, nl_equation = ''x = 0.00''\<rparr>"
proof -
  have h: "default_h js = Fin (7378697629483821 / 73786976294838206464)"
    by (simp add: default_h_def js_simps js_lit_defs rnd_values)
  have 1: "evaluate js ''1+sqrt(0-x)'' (num_add js (Fin 0) (default_h js))
             = Inl (InvalidExpression ''1+sqrt(0-x)'' SqrtOfNegative)"
    by (simp add: evaluate_one_plus_sqrt h js_simps js_lit_defs js_sub_def rnd_values)
  have 2: "evaluate js ''1+sqrt(0-x)'' (Fin 0) = Inr (Fin 1)"
    by (simp add: evaluate_one_plus_sqrt js_simps js_lit_defs js_sub_def)
  have 3: "calculateDerivative js ''1+sqrt(0-x)'' (Fin 0) (default_h js)
             = \<lparr>cr_value = Fin 0, cr_error = Some ''Unable to calculate derivative''\<rparr>"
    using 1 by (simp add: calculateDerivative_def js_simps js_lit_defs)
  have 4: "calculateTangentLine js ''1+sqrt(0-x)'' (Fin 0)
     = \<lparr>tl_slope = Fin 0, tl_yIntercept = Fin 1, tl_equation = ''y = 1.00'', tl_point = (Fin 0, Fin 1)\<rparr>"
    unfolding calculateTangentLine_def 2 3
    by (simp add: js_simps js_lit_defs js_sub_def Let_def fixedString_def digitChar_def)
  have 5: "calculateNormalLine js ''1+sqrt(0-x)'' (Fin 0)
     = \<lparr>nl_slope = PInf, nl_yIntercept = Fin 0, nl_equation = ''x = 0.00''\<rparr>"
    unfolding calculateNormalLine_def 4 2
    by (simp add: js_simps js_lit_defs Let_def fixedString_def digitChar_def)
  from 1 4 5 show ?thesis by blast
qed

end
